(* ===== verification/Prelude.thy ===== *)
theory Prelude
  imports Main "HOL-Library.Word" "HOL-Library.Multiset" "HOL-Library.List_Lexorder" "HOL-Library.AList"
begin

text \<open>
  Shared vocabulary of the development: the machine integers and byte strings of the Rust
  code, Rust's saturating arithmetic, results as sums, list facts about stable sorting and
  association lists, and the \<open>transition_system\<close> interface through which every stateful
  component lifts a one-step invariant to whole executions.
\<close>

section \<open>Fact collections\<close>

named_theorems wire_simps \<open>the CBOR shape of the wire types\<close>
named_theorems store_simps \<open>the table operations of the shared-state store\<close>
named_theorems miner_simps \<open>the operations of the miner's trackers\<close>

section \<open>Machine types\<close>

type_synonym u8 = "8 word"
type_synonym u32 = "32 word"
type_synonym u64 = "64 word"
type_synonym i32 = "32 word"
type_synonym bytes = "u8 list"

text \<open>A libp2p \<open>PeerId\<close> is determined by its multihash bytes (\<open>PeerId::to_bytes\<close>).\<close>

datatype peer_id = PeerId (peer_bytes: bytes)

instantiation peer_id :: linorder
begin

definition less_eq_peer_id :: "peer_id \<Rightarrow> peer_id \<Rightarrow> bool" where
  "less_eq_peer_id p q = (peer_bytes p \<le> peer_bytes q)"

definition less_peer_id :: "peer_id \<Rightarrow> peer_id \<Rightarrow> bool" where
  "less_peer_id p q = (peer_bytes p < peer_bytes q)"

instance
  by standard (auto simp: less_eq_peer_id_def less_peer_id_def peer_id.expand)

end

section \<open>Rust integer arithmetic\<close>

definition saturating_add :: "'a::len word \<Rightarrow> 'a word \<Rightarrow> 'a word" where
  "saturating_add a b = (if unat a + unat b < 2 ^ LENGTH('a) then a + b else - 1)"

definition saturating_sub :: "'a::len word \<Rightarrow> 'a word \<Rightarrow> 'a word" where
  "saturating_sub a b = (if a < b then 0 else a - b)"

lemma unat_saturating_add:
  "unat (saturating_add a b) = min (unat a + unat b) (2 ^ LENGTH('a) - 1)"
  for a b :: "'a::len word"
proof (cases "unat a + unat b < 2 ^ LENGTH('a)")
  case True
  then show ?thesis by (simp add: saturating_add_def unat_word_ariths)
next
  case False
  have "unat (- 1 :: 'a word) = 2 ^ LENGTH('a) - 1" by (simp add: unsigned_minus_1_eq_mask mask_eq_exp_minus_1)
  with False show ?thesis by (simp add: saturating_add_def)
qed

lemma unat_saturating_sub: "unat (saturating_sub a b) = unat a - unat b"
  for a b :: "'a::len word"
  by (auto simp: saturating_sub_def word_less_nat_alt unat_sub_if')

lemma saturating_add_ge: "a \<le> saturating_add a b"
  unfolding word_le_nat_alt unat_saturating_add
  using unsigned_less [of a, where ?'a = nat] by (simp add: le_diff_conv2 Suc_le_eq)

lemma saturating_sub_eq_0: "saturating_sub a b = 0 \<longleftrightarrow> a \<le> b"
  by (auto simp: saturating_sub_def not_less)

section \<open>Results\<close>

text \<open>\<open>Result<T, E>\<close> is \<open>'e + 'a\<close>, with \<open>Inl\<close> the error and \<open>?\<close> the bind.\<close>

definition bind_result :: "'e + 'a \<Rightarrow> ('a \<Rightarrow> 'e + 'b) \<Rightarrow> 'e + 'b" where
  "bind_result r f = (case r of Inl e \<Rightarrow> Inl e | Inr x \<Rightarrow> f x)"

lemma bind_result_simps [simp]:
  "bind_result (Inl e) f = Inl e" "bind_result (Inr x) f = f x"
  by (simp_all add: bind_result_def)

lemma bind_result_eq_Inr: "bind_result r f = Inr y \<longleftrightarrow> (\<exists>x. r = Inr x \<and> f x = Inr y)"
  by (cases r) auto

fun map_results :: "('a \<Rightarrow> 'e + 'b) \<Rightarrow> 'a list \<Rightarrow> 'e + 'b list" where
  "map_results f [] = Inr []"
| "map_results f (x # xs) =
     bind_result (f x) (\<lambda>y. bind_result (map_results f xs) (\<lambda>ys. Inr (y # ys)))"

lemma find_SomeD: "List.find P xs = Some x \<Longrightarrow> x \<in> set xs \<and> P x"
  by (metis find_Some_iff nth_mem)

lemma map_results_Inr:
  "(\<And>x. x \<in> set xs \<Longrightarrow> f x = Inr (g x)) \<Longrightarrow> map_results f xs = Inr (map g xs)"
  by (induction xs) auto

lemma map_results_Inl:
  "x \<in> set xs \<Longrightarrow> f x = Inl e \<Longrightarrow> \<exists>e'. map_results f xs = Inl e'"
proof (induction xs)
  case (Cons y ys)
  show ?case
  proof (cases "f y")
    case (Inr z)
    with Cons.prems have "x \<in> set ys" by auto
    with Cons.IH Cons.prems Inr show ?thesis by auto
  qed simp
qed simp

section \<open>Stable sorting\<close>

text \<open>
  Rust's \<open>sort_by_key\<close> is stable, as \<open>sort_key\<close> is. When the key determines the element the
  result does not depend on the order the elements came in (the iteration order of a
  \<open>HashMap\<close>).
\<close>

lemma sort_key_mset_cong:
  assumes "mset xs = mset ys" and "inj_on f (set xs)"
  shows "sort_key f xs = sort_key f ys"
proof (rule properties_for_sort_key [symmetric])
  show "mset (sort_key f xs) = mset ys" using assms(1) by simp
  show "sorted (map f (sort_key f xs))" by simp
next
  fix k
  assume k: "k \<in> set (sort_key f xs)"
  let ?P = "\<lambda>x. f k = f x"
  have one: "filter ?P zs = replicate (count (mset zs) k) k" if "set zs \<subseteq> set xs" for zs
    using that
  proof (induction zs)
    case (Cons z zs)
    have "f k = f z \<longleftrightarrow> z = k"
      using assms(2) k Cons.prems by (auto simp: inj_on_def)
    with Cons show ?case by auto
  qed simp
  have "set ys \<subseteq> set xs" using assms(1) by (metis set_mset_mset subset_refl)
  then show "filter ?P (sort_key f xs) = filter ?P ys"
    using one [of ys] one [of "sort_key f xs"] assms(1) by simp
qed

lemma hd_sort_key_le:
  "x \<in> set xs \<Longrightarrow> f (hd (sort_key f xs)) \<le> f x"
proof -
  assume "x \<in> set xs"
  then have ne: "sort_key f xs \<noteq> []" and x: "x \<in> set (sort_key f xs)"
    by (auto simp: set_sort) (metis list.set_intros(1) sort_key_simps(1) set_sort empty_iff list.set(1))
  have "sorted (map f (sort_key f xs))" by simp
  with ne x show ?thesis
    by (cases "sort_key f xs") auto
qed

lemma sorted_take_le:
  assumes "sorted (map f xs)" and "x \<in> set xs" and "x \<notin> set (take n xs)" and "y \<in> set (take n xs)"
  shows "f y \<le> f x"
proof -
  have "x \<in> set (drop n xs)" using assms(2,3) by (metis Un_iff append_take_drop_id set_append)
  moreover have "sorted (map f (take n xs) @ map f (drop n xs))"
    using assms(1) by (metis append_take_drop_id map_append)
  ultimately show ?thesis using assms(4) unfolding sorted_append by auto
qed

section \<open>Association lists with distinct keys (hash maps in iteration order)\<close>

text \<open>
  A \<open>HashMap\<close> is an association list with distinct keys in some iteration order; \<open>insert\<close> is
  \<open>AList.update\<close>, \<open>get\<close> is \<open>map_of\<close>.
\<close>

lemma map_of_update [simp]: "map_of (AList.update k v m) = (map_of m)(k \<mapsto> v)"
  by (simp add: update_conv' fun_eq_iff)

lemma map_of_filter_key:
  "map_of (filter (\<lambda>e. fst e \<noteq> k) m) = (map_of m)(k := None)"
  by (induction m) (auto simp: fun_eq_iff)

lemma map_of_take_SomeD:
  assumes "distinct (map fst m)" and "map_of (take n m) k = Some v"
  shows "map_of m k = Some v"
proof -
  have "(k, v) \<in> set m" using assms(2) by (blast dest: map_of_SomeD in_set_takeD)
  with assms(1) show ?thesis by simp
qed

section \<open>Transition systems\<close>

text \<open>
  A component is a step function with an invariant every step keeps; the contract gives the
  invariant for every finite run, and it gives any state property the invariant implies at
  every point of the run.
\<close>

fun run_steps :: "('s \<Rightarrow> 'e \<Rightarrow> 's) \<Rightarrow> 's \<Rightarrow> 'e list \<Rightarrow> 's" where
  "run_steps step s [] = s"
| "run_steps step s (e # es) = run_steps step (step s e) es"

lemma run_steps_append [simp]:
  "run_steps step s (es @ es') = run_steps step (run_steps step s es) es'"
  by (induction es arbitrary: s) auto

text \<open>
  Where the events of a component carry typed data (a 32-byte hash, say), \<open>ok\<close> is that typing.
\<close>

locale typed_transition_system =
  fixes step :: "'s \<Rightarrow> 'e \<Rightarrow> 's"
    and inv :: "'s \<Rightarrow> bool"
    and ok :: "'e \<Rightarrow> bool"
  assumes typed_step_inv: "inv s \<Longrightarrow> ok e \<Longrightarrow> inv (step s e)"
begin

lemma typed_run_inv: "inv s \<Longrightarrow> (\<And>e. e \<in> set es \<Longrightarrow> ok e) \<Longrightarrow> inv (run_steps step s es)"
  by (induction es arbitrary: s) (auto intro: typed_step_inv)

end

locale transition_system =
  fixes step :: "'s \<Rightarrow> 'e \<Rightarrow> 's"
    and inv :: "'s \<Rightarrow> bool"
  assumes step_inv: "inv s \<Longrightarrow> inv (step s e)"

sublocale transition_system \<subseteq> typed_transition_system step inv "\<lambda>_. True"
  by unfold_locales (rule step_inv)

context transition_system
begin

lemma run_inv: "inv s \<Longrightarrow> inv (run_steps step s es)"
  by (rule typed_run_inv) simp_all

lemma prefix_inv: "inv s \<Longrightarrow> inv (run_steps step s (take n es))"
  by (rule run_inv)

end

locale guarded_transition_system = transition_system +
  fixes good :: "'s \<Rightarrow> bool"
  assumes inv_good: "inv s \<Longrightarrow> good s"
begin

lemma run_good: "inv s \<Longrightarrow> good (run_steps step s es)"
  by (rule inv_good [OF run_inv])

end

end
