(* ===== verification/F64.thy ===== *)
theory F64
  imports Prelude "HOL-Library.Log_Nat"
begin

text \<open>
  The \<open>f64\<close> arithmetic of the quorum, the rate limiter and the selection roll. A finite
  double is the rational number it denotes; every operation is the exact operation followed
  by rounding to a 53-bit significand, ties to even. The values of the code lie between
  \<open>2^-64\<close> and \<open>2^64\<close>, so neither subnormal numbers nor infinities occur.
\<close>

type_synonym f64 = rat

section \<open>Powers of two and the binary exponent\<close>

definition pow2 :: "int \<Rightarrow> rat" where
  "pow2 e = (if 0 \<le> e then 2 ^ nat e else 1 / 2 ^ nat (- e))"

lemma pow2_powi: "pow2 e = 2 powi e"
  by (simp add: pow2_def power_int_def field_simps)

lemma pow2_pos [simp]: "0 < pow2 e"
  by (simp add: pow2_def)

lemma pow2_add: "pow2 (a + b) = pow2 a * pow2 b"
  by (simp add: pow2_powi power_int_add)

lemma pow2_mono: "a \<le> b \<Longrightarrow> pow2 a \<le> pow2 b"
  by (simp add: pow2_powi power_int_increasing)

lemma pow2_less_iff: "pow2 a < pow2 b \<longleftrightarrow> a < b"
  by (metis linorder_not_less order_le_less pow2_mono pow2_powi
      power_int_strict_increasing one_less_numeral_iff semiring_norm(76))

lemma pow2_simps [simp]: "pow2 0 = 1" "pow2 1 = 2"
  by (simp_all add: pow2_def)

definition ilog2 :: "rat \<Rightarrow> int" where
  "ilog2 x =
     (let (p, q) = quotient_of x; k = bitlen p - bitlen q
      in if pow2 k \<le> x then k else k - 1)"

lemma bitlen_pow2:
  assumes "0 < p"
  shows "pow2 (bitlen p - 1) \<le> of_int p" and "of_int p < pow2 (bitlen p)"
proof -
  have b: "2 ^ nat (bitlen p - 1) \<le> p \<and> p < 2 ^ nat (bitlen p)"
    by (rule bitlen_bounds [OF assms])
  have pos: "0 < bitlen p" using assms bitlen_nonneg [of p] bitlen_eq_zero_iff [of p] by linarith
  from b have "(2 ^ nat (bitlen p - 1) :: rat) \<le> of_int p"
    by (metis of_int_le_iff of_int_numeral of_int_power)
  with pos show "pow2 (bitlen p - 1) \<le> of_int p" by (simp add: pow2_def)
  from b have "of_int p < (2 ^ nat (bitlen p) :: rat)"
    by (metis of_int_less_iff of_int_numeral of_int_power)
  with pos show "of_int p < pow2 (bitlen p)" by (simp add: pow2_def)
qed

lemma ilog2_bounds:
  assumes "0 < x"
  shows "pow2 (ilog2 x) \<le> x" and "x < pow2 (ilog2 x + 1)"
proof -
  obtain p q where pq: "quotient_of x = (p, q)" by fastforce
  then have x: "x = of_int p / of_int q" and q: "0 < q"
    by (auto simp: quotient_of_div quotient_of_denom_pos)
  with assms have p: "0 < p" by (simp add: zero_less_divide_iff)
  let ?k = "bitlen p - bitlen q"
  have "pow2 (?k - 1) * of_int q \<le> pow2 (?k - 1) * pow2 (bitlen q)"
    using bitlen_pow2(2) [OF q] by simp
  also have "\<dots> = pow2 (bitlen p - 1)" by (simp flip: pow2_add)
  also have "\<dots> \<le> of_int p" by (rule bitlen_pow2(1) [OF p])
  finally have lo: "pow2 (?k - 1) \<le> x" using q x by (simp add: pos_le_divide_eq)
  have "of_int p < pow2 (bitlen p)" by (rule bitlen_pow2(2) [OF p])
  also have "\<dots> = pow2 (?k + 1) * pow2 (bitlen q - 1)" by (simp flip: pow2_add)
  also have "\<dots> \<le> pow2 (?k + 1) * of_int q"
    using bitlen_pow2(1) [OF q] by simp
  finally have hi: "x < pow2 (?k + 1)" using q x by (simp add: pos_divide_less_eq)
  show "pow2 (ilog2 x) \<le> x" using lo by (simp add: ilog2_def pq Let_def)
  show "x < pow2 (ilog2 x + 1)" using hi by (simp add: ilog2_def pq Let_def)
qed

lemma ilog2_unique:
  assumes "pow2 k \<le> x" and "x < pow2 (k + 1)"
  shows "ilog2 x = k"
proof -
  have "0 < x" using assms(1) pow2_pos [of k] by linarith
  note b = ilog2_bounds [OF this]
  have "pow2 (ilog2 x) < pow2 (k + 1)" using b(1) assms(2) by simp
  moreover have "pow2 k < pow2 (ilog2 x + 1)" using assms(1) b(2) by simp
  ultimately show ?thesis by (simp add: pow2_less_iff)
qed

lemma ilog2_mono: "0 < x \<Longrightarrow> x \<le> y \<Longrightarrow> ilog2 x \<le> ilog2 y"
proof -
  assume "0 < x" "x \<le> y"
  then have "pow2 (ilog2 x) < pow2 (ilog2 y + 1)"
    using ilog2_bounds(1) [of x] ilog2_bounds(2) [of y] by linarith
  then show ?thesis by (simp add: pow2_less_iff)
qed

section \<open>Rounding\<close>

definition round_half_even :: "rat \<Rightarrow> int" where
  "round_half_even q =
     (let f = \<lfloor>q\<rfloor>; d = q - of_int f
      in if d < 1 / 2 \<or> (d = 1 / 2 \<and> even f) then f else f + 1)"

lemma round_half_even_of_int [simp]: "round_half_even (of_int n) = n"
  by (simp add: round_half_even_def)

lemma round_half_even_bounds: "\<lfloor>q\<rfloor> \<le> round_half_even q" "round_half_even q \<le> \<lfloor>q\<rfloor> + 1"
  by (simp_all add: round_half_even_def Let_def)

lemma round_half_even_nearest: "of_int n - 1 / 2 < q \<Longrightarrow> q < of_int n + 1 / 2 \<Longrightarrow> round_half_even q = n"
proof -
  assume q: "of_int n - 1 / 2 < q" "q < of_int n + 1 / 2"
  show ?thesis
  proof (cases "of_int n \<le> q")
    case True
    with q have "\<lfloor>q\<rfloor> = n" by (simp add: floor_eq_iff)
    with q show ?thesis by (simp add: round_half_even_def Let_def)
  next
    case False
    with q have "\<lfloor>q\<rfloor> = n - 1" by (simp add: floor_eq_iff)
    with q show ?thesis by (simp add: round_half_even_def Let_def)
  qed
qed

lemma round_half_even_mono:
  assumes "p \<le> q"
  shows "round_half_even p \<le> round_half_even q"
proof (cases "\<lfloor>p\<rfloor> = \<lfloor>q\<rfloor>")
  case True
  with assms show ?thesis by (auto simp: round_half_even_def Let_def)
next
  case False
  with assms have "\<lfloor>p\<rfloor> + 1 \<le> \<lfloor>q\<rfloor>"
    using floor_mono [OF assms] by linarith
  with round_half_even_bounds [of p] round_half_even_bounds [of q] show ?thesis by linarith
qed

text \<open>The unit in the last place of a positive number is \<open>2^(ilog2 x - 52)\<close>.\<close>

definition round_pos :: "rat \<Rightarrow> f64" where
  "round_pos x = (let u = pow2 (ilog2 x - 52) in of_int (round_half_even (x / u)) * u)"

definition f64_round :: "rat \<Rightarrow> f64" where
  "f64_round x = (if x = 0 then 0 else if 0 < x then round_pos x else - round_pos (- x))"

lemma round_pos_pow2: "round_pos (pow2 k) = pow2 k"
proof -
  have "ilog2 (pow2 k) = k" by (rule ilog2_unique) (simp_all add: pow2_less_iff)
  moreover have "pow2 k / pow2 (k - 52) = of_int (2 ^ 52)"
    using pow2_add [of "k - 52" 52] pow2_pos [of "k - 52"] by (simp add: field_simps less_imp_neq [symmetric] pow2_def [of 52])
  ultimately have "round_pos (pow2 k) = of_int (2 ^ 52) * pow2 (k - 52)"
    unfolding round_pos_def Let_def by (metis round_half_even_of_int)
  also have "\<dots> = pow2 k" using pow2_add [of 52 "k - 52"] by (simp add: pow2_def [of 52])
  finally show ?thesis .
qed

lemma round_pos_binade_mono:
  assumes "x \<le> y" and "ilog2 x = ilog2 y"
  shows "round_pos x \<le> round_pos y"
  using assms by (simp add: round_pos_def Let_def round_half_even_mono divide_right_mono less_imp_le)

lemma round_pos_ge: "0 < x \<Longrightarrow> pow2 (ilog2 x) \<le> round_pos x"
proof -
  assume x: "0 < x"
  have "ilog2 (pow2 (ilog2 x)) = ilog2 x" by (rule ilog2_unique) (simp_all add: pow2_less_iff)
  with ilog2_bounds(1) [OF x] have "round_pos (pow2 (ilog2 x)) \<le> round_pos x"
    by (intro round_pos_binade_mono) simp_all
  then show ?thesis by (simp add: round_pos_pow2)
qed

lemma round_pos_le: "0 < x \<Longrightarrow> round_pos x \<le> pow2 (ilog2 x + 1)"
proof -
  assume x: "0 < x"
  let ?u = "pow2 (ilog2 x - 52)"
  have top: "of_int (2 ^ 53) * ?u = pow2 (ilog2 x + 1)"
    using pow2_add [of 53 "ilog2 x - 52"] by (simp add: pow2_def [of 53] add.commute)
  with ilog2_bounds(2) [OF x] have "x / ?u \<le> of_int (2 ^ 53)" by (simp add: field_simps)
  then have "round_half_even (x / ?u) \<le> round_half_even (of_int (2 ^ 53))"
    by (rule round_half_even_mono)
  then have "round_half_even (x / ?u) \<le> 2 ^ 53"
    by (simp only: round_half_even_of_int)
  then have "of_int (round_half_even (x / ?u)) * ?u \<le> of_int (2 ^ 53) * ?u"
    by (metis mult_right_mono of_int_le_iff pow2_pos less_imp_le)
  with top show ?thesis by (simp add: round_pos_def Let_def)
qed

lemma round_pos_mono:
  assumes "0 < x" and "x \<le> y"
  shows "round_pos x \<le> round_pos y"
proof (cases "ilog2 x = ilog2 y")
  case True
  with assms(2) show ?thesis by (rule round_pos_binade_mono)
next
  case False
  with ilog2_mono [OF assms] have "pow2 (ilog2 x + 1) \<le> pow2 (ilog2 y)"
    by (intro pow2_mono) linarith
  then show ?thesis
    using round_pos_le [OF assms(1)] round_pos_ge [of y] assms by linarith
qed

section \<open>The rounding contract\<close>

text \<open>
  What the code's decisions need of rounding: it is monotone on the non-negative numbers and
  exact at 0 and 1. Ratios and complements then stay inside the unit interval.
\<close>

locale monotone_rounding =
  fixes fl :: "rat \<Rightarrow> rat"
  assumes fl_mono: "0 \<le> x \<Longrightarrow> x \<le> y \<Longrightarrow> fl x \<le> fl y"
    and fl_0: "fl 0 = 0"
    and fl_1: "fl 1 = 1"
begin

lemma fl_nonneg: "0 \<le> x \<Longrightarrow> 0 \<le> fl x"
  using fl_mono [of 0 x] by (simp add: fl_0)

lemma fl_unit: "0 \<le> x \<Longrightarrow> x \<le> 1 \<Longrightarrow> 0 \<le> fl x \<and> fl x \<le> 1"
  using fl_nonneg fl_mono [of x 1] by (simp add: fl_1)

lemma fl_ratio_unit: "0 \<le> a \<Longrightarrow> a \<le> b \<Longrightarrow> 0 \<le> fl (fl a / fl b) \<and> fl (fl a / fl b) \<le> 1"
  using fl_nonneg [of a] fl_nonneg [of b] fl_mono [of a b]
  by (intro fl_unit) (auto simp: divide_le_eq_1 zero_le_divide_iff)

lemma fl_threshold: "0 \<le> x \<Longrightarrow> x \<le> t \<Longrightarrow> y \<le> fl x \<Longrightarrow> y \<le> fl t"
  using fl_mono [of x t] by simp

end

interpretation f64: monotone_rounding f64_round
proof
  fix x y :: rat
  assume "0 \<le> x" "x \<le> y"
  then show "f64_round x \<le> f64_round y"
    using round_pos_mono [of x y] round_pos_ge [of y] less_imp_le [OF pow2_pos [of "ilog2 y"]]
    by (cases "x = 0") (auto simp: f64_round_def intro: order_trans)
next
  show "f64_round 0 = 0" by (simp add: f64_round_def)
  show "f64_round 1 = 1" using round_pos_pow2 [of 0] by (simp add: f64_round_def)
qed

lemma f64_round_pow2: "f64_round (pow2 k) = pow2 k"
  using pow2_pos [of k] by (simp add: f64_round_def round_pos_pow2 less_le)

section \<open>Operations\<close>

definition f64_of_nat :: "nat \<Rightarrow> f64" where
  "f64_of_nat n = f64_round (of_nat n)"

definition f64_div :: "f64 \<Rightarrow> f64 \<Rightarrow> f64" where
  "f64_div a b = f64_round (a / b)"

definition f64_mul :: "f64 \<Rightarrow> f64 \<Rightarrow> f64" where
  "f64_mul a b = f64_round (a * b)"

definition f64_sub :: "f64 \<Rightarrow> f64 \<Rightarrow> f64" where
  "f64_sub a b = f64_round (a - b)"

definition f64_clamp :: "f64 \<Rightarrow> f64 \<Rightarrow> f64 \<Rightarrow> f64" where
  "f64_clamp lo hi x = (if x < lo then lo else if hi < x then hi else x)"

lemma f64_of_nat_nonneg [simp]: "0 \<le> f64_of_nat n"
  by (simp add: f64_of_nat_def f64.fl_nonneg)

lemma f64_of_nat_mono: "m \<le> n \<Longrightarrow> f64_of_nat m \<le> f64_of_nat n"
  by (simp add: f64_of_nat_def f64.fl_mono)

lemma f64_ratio_unit:
  "m \<le> n \<Longrightarrow> 0 \<le> f64_div (f64_of_nat m) (f64_of_nat n) \<and> f64_div (f64_of_nat m) (f64_of_nat n) \<le> 1"
  unfolding f64_div_def f64_of_nat_def by (rule f64.fl_ratio_unit) simp_all

lemma f64_clamp_bounds: "lo \<le> hi \<Longrightarrow> lo \<le> f64_clamp lo hi x \<and> f64_clamp lo hi x \<le> hi"
  by (simp add: f64_clamp_def)

section \<open>Exact values\<close>

text \<open>Integers below \<open>2^53\<close> are doubles, and so is a dyadic fraction with such a numerator.\<close>

lemma round_pos_exact:
  assumes "0 < x" and "x = of_int n * pow2 e" and "ilog2 x - 52 \<le> e"
  shows "round_pos x = x"
proof -
  let ?u = "pow2 (ilog2 x - 52)"
  have "pow2 e = pow2 (e - (ilog2 x - 52)) * ?u" by (simp flip: pow2_add)
  moreover have "pow2 (e - (ilog2 x - 52)) = of_int (2 ^ nat (e - (ilog2 x - 52)))"
    using assms(3) by (simp add: pow2_def)
  ultimately have "x = of_int (n * 2 ^ nat (e - (ilog2 x - 52))) * ?u"
    using assms(2) by (simp only: of_int_mult mult.assoc)
  moreover have "?u \<noteq> 0" using pow2_pos [of "ilog2 x - 52"] by (metis order_less_irrefl)
  ultimately have "x / ?u = of_int (n * 2 ^ nat (e - (ilog2 x - 52)))"
    by (metis nonzero_mult_div_cancel_right)
  then have "round_pos x = of_int (n * 2 ^ nat (e - (ilog2 x - 52))) * ?u"
    unfolding round_pos_def Let_def by (simp only: round_half_even_of_int)
  with \<open>x = of_int (n * _) * ?u\<close> show ?thesis by simp
qed

lemma f64_round_exact:
  assumes "0 \<le> n" and "n < 2 ^ 53"
  shows "f64_round (of_int n * pow2 e) = of_int n * pow2 e"
proof (cases "n = 0")
  case False
  let ?x = "of_int n * pow2 e"
  from False assms have x: "0 < ?x" by simp
  have "(of_int n :: rat) < of_int (2 ^ 53)" using assms(2) by (simp only: of_int_less_iff)
  then have "?x < pow2 53 * pow2 e" by (simp add: pow2_def [of 53])
  also have "\<dots> = pow2 (53 + e)" by (simp add: pow2_add)
  finally have "pow2 (ilog2 ?x) < pow2 (53 + e)" using ilog2_bounds(1) [OF x] by simp
  then have "ilog2 ?x - 52 \<le> e" by (simp add: pow2_less_iff)
  then have "round_pos ?x = ?x" by (intro round_pos_exact [OF x refl]) simp_all
  with x show ?thesis by (simp add: f64_round_def)
qed (simp add: f64_round_def)

lemma f64_of_nat_exact: "n < 2 ^ 53 \<Longrightarrow> f64_of_nat n = of_nat n"
  using f64_round_exact [of "int n" 0] by (simp add: f64_of_nat_def)

text \<open>
  A strict comparison of two quotients survives rounding when a double lies between them.
\<close>

lemma f64_round_less:
  assumes "0 \<le> x" and "f64_round z = z" and "f64_round x < z" and "z \<le> y"
  shows "f64_round x < f64_round y"
proof -
  have "0 \<le> z" using assms(1,3) f64.fl_nonneg [of x] by simp
  then have "z \<le> f64_round y" using f64.fl_mono [OF _ assms(4)] assms(2) by simp
  with assms(3) show ?thesis by simp
qed

end
