(* ===== verification/Wire.thy ===== *)
theory Wire
  imports F64
begin

text \<open>
  The foundations of the signed wire types (\<open>server/parseh-task/src/\<close>: \<open>lib.rs\<close>, \<open>hash.rs\<close>,
  \<open>sign.rs\<close>). The primitives of other packages are a parameter of type \<open>prims\<close>: ed25519
  (\<open>ed25519-dalek\<close>), SHA-256 (\<open>sha2\<close>) and the byte level of CBOR (\<open>ciborium\<close>). What the code
  relies on is stated as the named hypotheses \<open>ed25519_ok\<close>, \<open>sha256_ok\<close> and \<open>cbor_ok\<close>. The
  shape a derived \<open>Serialize\<close> gives a value, which the source's structs and enums fix, is the
  datatype \<open>cbor\<close>.
\<close>

section \<open>The CBOR data model and the primitives\<close>

text \<open>
  The values \<open>serde\<close> produces for the source's types: integers, byte and text strings, arrays,
  maps from field names, booleans, null and doubles.
\<close>

datatype cbor =
    CInt int
  | CBytes bytes
  | CText string
  | CArray "cbor list"
  | CMap "(string \<times> cbor) list"
  | CBool bool
  | CNull
  | CFloat f64

text \<open>
  \<open>ed_verify\<close> takes the verifying key, the message and a parsed 64-byte signature; \<open>ed_valid_key\<close>
  says whether 32 bytes decompress to a curve point.
\<close>

record prims =
  ed_sign :: "bytes \<Rightarrow> bytes \<Rightarrow> bytes"
  ed_public :: "bytes \<Rightarrow> bytes"
  ed_verify :: "bytes \<Rightarrow> bytes \<Rightarrow> bytes \<Rightarrow> bool"
  ed_valid_key :: "bytes \<Rightarrow> bool"
  sha256 :: "bytes \<Rightarrow> bytes"
  cbor_write :: "cbor \<Rightarrow> bytes"
  cbor_read :: "bytes \<Rightarrow> cbor option"

definition ed25519_ok :: "prims \<Rightarrow> bool" where
  "ed25519_ok P \<longleftrightarrow>
     (\<forall>k m. length (ed_sign P k m) = 64 \<and> ed_verify P (ed_public P k) m (ed_sign P k m))"

definition sha256_ok :: "prims \<Rightarrow> bool" where
  "sha256_ok P \<longleftrightarrow> (\<forall>m. length (sha256 P m) = 32)"

definition cbor_ok :: "prims \<Rightarrow> bool" where
  "cbor_ok P \<longleftrightarrow> (\<forall>v. cbor_read P (cbor_write P v) = Some v) \<and> cbor_read P [] = None"

lemma cbor_write_inject: "cbor_ok P \<Longrightarrow> cbor_write P v = cbor_write P w \<longleftrightarrow> v = w"
  by (metis cbor_ok_def option.inject)

section \<open>Reading structs back\<close>

text \<open>
  A derived \<open>Deserialize\<close> looks its fields up by name: a duplicate or a missing field is an
  error, an unknown field is ignored, and a missing \<open>Option\<close> or \<open>#[serde(default)]\<close> field takes
  its default.
\<close>

definition map_fields :: "cbor \<Rightarrow> (string \<times> cbor) list option" where
  "map_fields v = (case v of CMap m \<Rightarrow> Some m | _ \<Rightarrow> None)"

definition field :: "string \<Rightarrow> (cbor \<Rightarrow> 'a option) \<Rightarrow> (string \<times> cbor) list \<Rightarrow> 'a option" where
  "field n rd m =
     (case filter (\<lambda>e. fst e = n) m of [e] \<Rightarrow> rd (snd e) | _ \<Rightarrow> None)"

definition field_default ::
    "string \<Rightarrow> 'a \<Rightarrow> (cbor \<Rightarrow> 'a option) \<Rightarrow> (string \<times> cbor) list \<Rightarrow> 'a option" where
  "field_default n d rd m =
     (case filter (\<lambda>e. fst e = n) m of [] \<Rightarrow> Some d | [e] \<Rightarrow> rd (snd e) | _ \<Rightarrow> None)"

definition rd_option :: "(cbor \<Rightarrow> 'a option) \<Rightarrow> cbor \<Rightarrow> 'a option option" where
  "rd_option rd v = (case v of CNull \<Rightarrow> Some None | _ \<Rightarrow> map_option Some (rd v))"

definition wr_option :: "('a \<Rightarrow> cbor) \<Rightarrow> 'a option \<Rightarrow> cbor" where
  "wr_option wr x = (case x of None \<Rightarrow> CNull | Some y \<Rightarrow> wr y)"

definition rd_u :: "cbor \<Rightarrow> 'a::len word option" where
  "rd_u v = (case v of CInt i \<Rightarrow>
     (if 0 \<le> i \<and> i < 2 ^ LENGTH('a) then Some (word_of_int i) else None) | _ \<Rightarrow> None)"

definition wr_u :: "'a::len word \<Rightarrow> cbor" where
  "wr_u w = CInt (uint w)"

definition rd_i32 :: "cbor \<Rightarrow> i32 option" where
  "rd_i32 v = (case v of CInt i \<Rightarrow>
     (if - (2 ^ 31) \<le> i \<and> i < 2 ^ 31 then Some (word_of_int i) else None) | _ \<Rightarrow> None)"

definition wr_i32 :: "i32 \<Rightarrow> cbor" where
  "wr_i32 w = CInt (sint w)"

definition rd_text :: "cbor \<Rightarrow> string option" where
  "rd_text v = (case v of CText s \<Rightarrow> Some s | _ \<Rightarrow> None)"

definition rd_bytes :: "cbor \<Rightarrow> bytes option" where
  "rd_bytes v = (case v of CBytes b \<Rightarrow> Some b | _ \<Rightarrow> None)"

definition rd_bool :: "cbor \<Rightarrow> bool option" where
  "rd_bool v = (case v of CBool b \<Rightarrow> Some b | _ \<Rightarrow> None)"

definition rd_f64 :: "cbor \<Rightarrow> f64 option" where
  "rd_f64 v = (case v of CFloat x \<Rightarrow> Some x | _ \<Rightarrow> None)"

definition rd_peer :: "cbor \<Rightarrow> peer_id option" where
  "rd_peer v = (case v of CBytes b \<Rightarrow> Some (PeerId b) | _ \<Rightarrow> None)"

definition wr_peer :: "peer_id \<Rightarrow> cbor" where
  "wr_peer p = CBytes (peer_bytes p)"

definition rd_list :: "(cbor \<Rightarrow> 'a option) \<Rightarrow> cbor \<Rightarrow> 'a list option" where
  "rd_list rd v = (case v of CArray xs \<Rightarrow> those (map rd xs) | _ \<Rightarrow> None)"

definition wr_list :: "('a \<Rightarrow> cbor) \<Rightarrow> 'a list \<Rightarrow> cbor" where
  "wr_list wr xs = CArray (map wr xs)"

lemma rd_u_wr_u [wire_simps]: "rd_u (wr_u w) = Some (w :: 'a::len word)"
  using uint_bounded [of w] by (simp add: rd_u_def wr_u_def)

lemma rd_i32_wr_i32 [wire_simps]: "rd_i32 (wr_i32 w) = Some w"
  using sint_range_size [of w] by (auto simp: rd_i32_def wr_i32_def word_size)

lemma rd_peer_wr_peer [wire_simps]: "rd_peer (wr_peer p) = Some p"
  by (cases p) (simp add: rd_peer_def wr_peer_def)

lemma rd_leaf [wire_simps]:
  "rd_text (CText s) = Some s" "rd_bytes (CBytes b) = Some b"
  "rd_bool (CBool c) = Some c" "rd_f64 (CFloat x) = Some x"
  by (simp_all add: rd_text_def rd_bytes_def rd_bool_def rd_f64_def)

lemma wr_not_null [wire_simps]: "wr_u w \<noteq> CNull" "wr_peer p \<noteq> CNull"
  by (simp_all add: wr_u_def wr_peer_def)

lemma rd_option_wr_option [wire_simps]:
  "(\<And>x. wr x \<noteq> CNull) \<Longrightarrow> (\<And>x. y = Some x \<Longrightarrow> rd (wr x) = Some x) \<Longrightarrow>
   rd_option rd (wr_option wr y) = Some y"
  by (cases y; cases "wr (the y)") (auto simp: rd_option_def wr_option_def)

lemma those_map_rd: "(\<And>x. x \<in> set xs \<Longrightarrow> rd (wr x) = Some x) \<Longrightarrow> those (map rd (map wr xs)) = Some xs"
  by (induction xs) auto

lemma rd_list_wr_list [wire_simps]:
  "(\<And>x. x \<in> set xs \<Longrightarrow> rd (wr x) = Some x) \<Longrightarrow> rd_list rd (wr_list wr xs) = Some xs"
  using those_map_rd [of xs rd wr] by (simp add: rd_list_def wr_list_def)

section \<open>Content hashes\<close>

text \<open>\<open>ContentHash([u8; 32])\<close>, with the length check of its \<open>deserialize\<close>.\<close>

datatype chash = ContentHash (hash_bytes: bytes)

definition zero_hash :: chash where
  "zero_hash = ContentHash (replicate 32 0)"

definition wf_hash :: "chash \<Rightarrow> bool" where
  "wf_hash h \<longleftrightarrow> length (hash_bytes h) = 32"

definition wr_hash :: "chash \<Rightarrow> cbor" where
  "wr_hash h = CBytes (hash_bytes h)"

definition rd_hash :: "cbor \<Rightarrow> chash option" where
  "rd_hash v =
     (case v of CBytes b \<Rightarrow> (if length b \<noteq> 32 then None else Some (ContentHash b)) | _ \<Rightarrow> None)"

definition content_hash :: "prims \<Rightarrow> bytes \<Rightarrow> chash" where
  "content_hash P b = ContentHash (sha256 P b)"

lemma rd_hash_wr_hash [wire_simps]: "wf_hash h \<Longrightarrow> rd_hash (wr_hash h) = Some h"
  by (cases h) (simp add: rd_hash_def wr_hash_def wf_hash_def)

lemma rd_hash_wf: "rd_hash v = Some h \<Longrightarrow> wf_hash h"
  by (auto simp: rd_hash_def wf_hash_def split: cbor.splits if_splits)

lemma wf_content_hash: "sha256_ok P \<Longrightarrow> wf_hash (content_hash P b)"
  by (simp add: sha256_ok_def content_hash_def wf_hash_def)

definition to_cbor_bytes :: "prims \<Rightarrow> cbor \<Rightarrow> bytes" where
  "to_cbor_bytes P v = cbor_write P v"

definition from_cbor_bytes :: "prims \<Rightarrow> (cbor \<Rightarrow> 'a option) \<Rightarrow> bytes \<Rightarrow> 'a option" where
  "from_cbor_bytes P rd b = Option.bind (cbor_read P b) rd"

lemma from_to_cbor_bytes:
  "cbor_ok P \<Longrightarrow> rd (wr x) = Some x \<Longrightarrow> from_cbor_bytes P rd (to_cbor_bytes P (wr x)) = Some x"
  by (simp add: from_cbor_bytes_def to_cbor_bytes_def cbor_ok_def)

lemma from_cbor_bytes_Nil: "cbor_ok P \<Longrightarrow> from_cbor_bytes P rd [] = None"
  by (simp add: from_cbor_bytes_def cbor_ok_def)

section \<open>Signing\<close>

text \<open>
  The texts inside \<open>SignError::Verify\<close> are kept as their cause: the failed curve equation or a
  wire version that differs.
\<close>

datatype verify_cause = BadEquation | WireVersionMismatch u32

datatype sign_error = Verify verify_cause | InvalidSignatureBytes | InvalidPubkeyBytes

definition WIRE_VERSION :: u32 where
  "WIRE_VERSION = 1"

definition sign_bytes :: "prims \<Rightarrow> bytes \<Rightarrow> bytes \<Rightarrow> bytes" where
  "sign_bytes P k m = ed_sign P k m"

definition verify_bytes :: "prims \<Rightarrow> bytes \<Rightarrow> bytes \<Rightarrow> bytes \<Rightarrow> sign_error + unit" where
  "verify_bytes P vk m s =
     (if length s \<noteq> 64 then Inl InvalidSignatureBytes
      else if ed_verify P vk m s then Inr ()
      else Inl (Verify BadEquation))"

definition verifying_key_from_bytes :: "prims \<Rightarrow> bytes \<Rightarrow> sign_error + bytes" where
  "verifying_key_from_bytes P b =
     (if length b \<noteq> 32 then Inl InvalidPubkeyBytes
      else if ed_valid_key P b then Inr b
      else Inl InvalidPubkeyBytes)"

lemma verify_bytes_ok:
  "verify_bytes P vk m s = Inr () \<longleftrightarrow> length s = 64 \<and> ed_verify P vk m s"
  by (simp add: verify_bytes_def)

lemma sign_verify_bytes: "ed25519_ok P \<Longrightarrow> verify_bytes P (ed_public P k) m (sign_bytes P k m) = Inr ()"
  by (simp add: verify_bytes_ok sign_bytes_def ed25519_ok_def)

section \<open>The signed-envelope contract\<close>

text \<open>
  Every signed type of the system is used through the same interface: the CBOR shape \<open>wr\<close> of a
  value, its signature field (\<open>sig\<close>, \<open>put\<close>), the unsigned form \<open>clear\<close>, a guard on the other
  fields and the acceptance test \<open>accepts P vk x\<close> of its \<open>verify_signature\<close>. The lemmas hold for
  each of the seven types that provide the laws.
\<close>

locale signed_envelope =
  fixes wr :: "'a \<Rightarrow> cbor"
    and rd :: "cbor \<Rightarrow> 'a option"
    and wf :: "'a \<Rightarrow> bool"
    and sig :: "'a \<Rightarrow> bytes"
    and put :: "bytes \<Rightarrow> 'a \<Rightarrow> 'a"
    and clear :: "'a \<Rightarrow> 'a"
    and guard :: "'a \<Rightarrow> bool"
    and accepts :: "prims \<Rightarrow> bytes \<Rightarrow> 'a \<Rightarrow> bool"
  assumes rd_wr: "wf x \<Longrightarrow> rd (wr x) = Some x"
    and wf_put: "wf x \<Longrightarrow> wf (put s x)"
    and wf_clear: "wf x \<Longrightarrow> wf (clear x)"
    and sig_put: "sig (put s x) = s"
    and clear_put: "clear (put s x) = clear x"
    and put_clear: "put (sig x) (clear x) = x"
    and guard_put: "guard (put s x) = guard x"
    and accepts_iff: "accepts P vk x \<longleftrightarrow>
      guard x \<and> length (sig x) = 64 \<and> ed_verify P vk (to_cbor_bytes P (wr (clear x))) (sig x)"
begin

lemma wr_inject: "wf x \<Longrightarrow> wf y \<Longrightarrow> wr x = wr y \<longleftrightarrow> x = y"
  by (metis rd_wr option.inject)

lemma roundtrip: "cbor_ok P \<Longrightarrow> wf x \<Longrightarrow> from_cbor_bytes P rd (to_cbor_bytes P (wr x)) = Some x"
  by (simp add: from_to_cbor_bytes rd_wr)

lemma signed_accepted:
  "ed25519_ok P \<Longrightarrow> guard x \<Longrightarrow>
   accepts P (ed_public P k) (put (sign_bytes P k (to_cbor_bytes P (wr (clear x)))) x)"
  by (simp add: accepts_iff sig_put clear_put guard_put sign_bytes_def ed25519_ok_def)

lemma bytes_bind_unsigned:
  "cbor_ok P \<Longrightarrow> wf x \<Longrightarrow> wf y \<Longrightarrow>
   to_cbor_bytes P (wr (clear x)) = to_cbor_bytes P (wr (clear y)) \<longleftrightarrow> clear x = clear y"
  by (simp add: to_cbor_bytes_def cbor_write_inject wr_inject wf_clear)

lemma tamper_is_forgery:
  assumes "cbor_ok P" "wf x" "wf y" "accepts P vk y" "clear y \<noteq> clear x"
  shows "ed_verify P vk (to_cbor_bytes P (wr (clear y))) (sig y)
    \<and> to_cbor_bytes P (wr (clear y)) \<noteq> to_cbor_bytes P (wr (clear x))"
  using assms bytes_bind_unsigned [of P x y] by (auto simp: accepts_iff)

lemma same_hash_collides:
  assumes "cbor_ok P" "wf x" "wf y" "x \<noteq> y"
    and "content_hash P (to_cbor_bytes P (wr x)) = content_hash P (to_cbor_bytes P (wr y))"
  shows "to_cbor_bytes P (wr x) \<noteq> to_cbor_bytes P (wr y)
    \<and> sha256 P (to_cbor_bytes P (wr x)) = sha256 P (to_cbor_bytes P (wr y))"
  using assms by (simp add: content_hash_def to_cbor_bytes_def cbor_write_inject wr_inject)

end

text \<open>A versioned envelope also refuses every wire version but its own.\<close>

locale versioned_envelope = signed_envelope wr rd wf sig put clear guard accepts
  for wr :: "'a \<Rightarrow> cbor" and rd and wf and sig and put and clear and guard and accepts +
  fixes version :: "'a \<Rightarrow> u32"
  assumes guard_version: "guard x \<longleftrightarrow> version x = WIRE_VERSION"
begin

lemma wrong_version_refused: "version x \<noteq> WIRE_VERSION \<Longrightarrow> \<not> accepts P vk x"
  by (simp add: accepts_iff guard_version)

end

end
