(* ===== verification/Task.thy ===== *)
theory Task
  imports Wire "HOL-Library.Monad_Syntax"
begin

text \<open>
  The signed task types of \<open>server/parseh-task/src/\<close>: \<open>spec.rs\<close>, \<open>result.rs\<close>,
  \<open>verification.rs\<close>, \<open>outcome.rs\<close> and \<open>state_sync.rs\<close>. Each type is a record with its CBOR shape,
  its constructor \<open>new_signed_at\<close> (a \<open>new_signed\<close> reads the clock and calls it), its
  \<open>verify_signature\<close>, \<open>content_hash\<close> and \<open>decode_cbor\<close>; each is an interpretation of the
  signed-envelope contract.
\<close>

section \<open>Job specifications\<close>

text \<open>\<open>parseh_core::ServiceKind\<close> and \<open>JobKind\<close>: unit variants travel as their names.\<close>

datatype service_kind = SvcInference | SvcRelay | SvcStorage | SvcWallet

datatype job_kind = JobInference | JobRelay | JobStorage

definition wr_service :: "service_kind \<Rightarrow> cbor" where
  "wr_service k = CText (case k of SvcInference \<Rightarrow> ''Inference'' | SvcRelay \<Rightarrow> ''Relay''
     | SvcStorage \<Rightarrow> ''Storage'' | SvcWallet \<Rightarrow> ''Wallet'')"

definition rd_service :: "cbor \<Rightarrow> service_kind option" where
  "rd_service v = (case v of CText s \<Rightarrow>
     (if s = ''Inference'' then Some SvcInference else if s = ''Relay'' then Some SvcRelay
      else if s = ''Storage'' then Some SvcStorage else if s = ''Wallet'' then Some SvcWallet
      else None) | _ \<Rightarrow> None)"

definition job_kind_name :: "job_kind \<Rightarrow> string" where
  "job_kind_name k =
     (case k of JobInference \<Rightarrow> ''Inference'' | JobRelay \<Rightarrow> ''Relay'' | JobStorage \<Rightarrow> ''Storage'')"

definition wr_job_kind :: "job_kind \<Rightarrow> cbor" where
  "wr_job_kind k = CText (job_kind_name k)"

definition rd_job_kind :: "cbor \<Rightarrow> job_kind option" where
  "rd_job_kind v = (case v of CText s \<Rightarrow>
     (if s = ''Inference'' then Some JobInference else if s = ''Relay'' then Some JobRelay
      else if s = ''Storage'' then Some JobStorage else None) | _ \<Rightarrow> None)"

lemma rd_wr_kinds [wire_simps]:
  "rd_service (wr_service s) = Some s" "rd_job_kind (wr_job_kind k) = Some k"
  by (cases s; simp add: rd_service_def wr_service_def)
    (cases k; simp add: rd_job_kind_def wr_job_kind_def job_kind_name_def)

record job_inputs =
  ji_prompt_text :: "string option"
  ji_seed :: "u64 option"
  ji_max_tokens :: "u32 option"
  ji_content_refs :: "chash list"

definition inference_prompt :: "string \<Rightarrow> u64 \<Rightarrow> job_inputs" where
  "inference_prompt p s =
     \<lparr>ji_prompt_text = Some p, ji_seed = Some s, ji_max_tokens = None, ji_content_refs = []\<rparr>"

definition wr_job_inputs :: "job_inputs \<Rightarrow> cbor" where
  "wr_job_inputs i = CMap
     [(''prompt_text'', wr_option CText (ji_prompt_text i)), (''seed'', wr_option wr_u (ji_seed i)),
      (''max_tokens'', wr_option wr_u (ji_max_tokens i)),
      (''content_refs'', wr_list wr_hash (ji_content_refs i))]"

definition rd_job_inputs :: "cbor \<Rightarrow> job_inputs option" where
  "rd_job_inputs v = do {
     m \<leftarrow> map_fields v;
     p \<leftarrow> field_default ''prompt_text'' None (rd_option rd_text) m;
     s \<leftarrow> field_default ''seed'' None (rd_option rd_u) m;
     t \<leftarrow> field_default ''max_tokens'' None (rd_option rd_u) m;
     r \<leftarrow> field ''content_refs'' (rd_list rd_hash) m;
     Some \<lparr>ji_prompt_text = p, ji_seed = s, ji_max_tokens = t, ji_content_refs = r\<rparr>
   }"

definition wf_job_inputs :: "job_inputs \<Rightarrow> bool" where
  "wf_job_inputs i \<longleftrightarrow> (\<forall>h \<in> set (ji_content_refs i). wf_hash h)"

lemmas read_defs = map_fields_def field_def field_default_def

lemma rd_wr_job_inputs [wire_simps]: "wf_job_inputs i \<Longrightarrow> rd_job_inputs (wr_job_inputs i) = Some i"
  by (simp add: rd_job_inputs_def wr_job_inputs_def read_defs wire_simps wf_job_inputs_def)

record job_spec =
  js_wire_version :: u32
  js_kind :: job_kind
  js_inputs :: job_inputs
  js_service :: service_kind
  js_sensitive :: bool
  js_submitted_at :: u64
  js_submitter :: peer_id
  js_signature :: bytes

definition wr_job_spec :: "job_spec \<Rightarrow> cbor" where
  "wr_job_spec s = CMap
     [(''wire_version'', wr_u (js_wire_version s)), (''kind'', wr_job_kind (js_kind s)),
      (''inputs'', wr_job_inputs (js_inputs s)), (''service'', wr_service (js_service s)),
      (''sensitive'', CBool (js_sensitive s)), (''submitted_at'', wr_u (js_submitted_at s)),
      (''submitter'', wr_peer (js_submitter s)), (''signature'', CBytes (js_signature s))]"

definition rd_job_spec :: "cbor \<Rightarrow> job_spec option" where
  "rd_job_spec v = do {
     m \<leftarrow> map_fields v;
     w \<leftarrow> field ''wire_version'' rd_u m;
     k \<leftarrow> field ''kind'' rd_job_kind m;
     i \<leftarrow> field ''inputs'' rd_job_inputs m;
     sv \<leftarrow> field ''service'' rd_service m;
     se \<leftarrow> field ''sensitive'' rd_bool m;
     t \<leftarrow> field ''submitted_at'' rd_u m;
     p \<leftarrow> field ''submitter'' rd_peer m;
     sg \<leftarrow> field ''signature'' rd_bytes m;
     Some \<lparr>js_wire_version = w, js_kind = k, js_inputs = i, js_service = sv, js_sensitive = se,
       js_submitted_at = t, js_submitter = p, js_signature = sg\<rparr>
   }"

definition spec_content_hash :: "prims \<Rightarrow> job_spec \<Rightarrow> chash" where
  "spec_content_hash P s = content_hash P (to_cbor_bytes P (wr_job_spec s))"

definition spec_new_signed_at ::
    "prims \<Rightarrow> job_kind \<Rightarrow> job_inputs \<Rightarrow> service_kind \<Rightarrow> bool \<Rightarrow> u64 \<Rightarrow> peer_id \<Rightarrow> bytes \<Rightarrow> job_spec \<times> chash"
  where
  "spec_new_signed_at P kind inputs service sensitive submitted_at submitter k =
     (let spec = \<lparr>js_wire_version = WIRE_VERSION, js_kind = kind, js_inputs = inputs,
            js_service = service, js_sensitive = sensitive, js_submitted_at = submitted_at,
            js_submitter = submitter, js_signature = []\<rparr>;
          unsigned = to_cbor_bytes P (wr_job_spec spec);
          spec = spec\<lparr>js_signature := sign_bytes P k unsigned\<rparr>
      in (spec, spec_content_hash P spec))"

definition spec_verify_signature :: "prims \<Rightarrow> job_spec \<Rightarrow> bytes \<Rightarrow> sign_error + unit" where
  "spec_verify_signature P s vk =
     verify_bytes P vk (to_cbor_bytes P (wr_job_spec (s\<lparr>js_signature := []\<rparr>))) (js_signature s)"

definition spec_decode_cbor :: "prims \<Rightarrow> bytes \<Rightarrow> job_spec option" where
  "spec_decode_cbor P b = from_cbor_bytes P rd_job_spec b"

definition wf_spec :: "job_spec \<Rightarrow> bool" where
  "wf_spec s \<longleftrightarrow> wf_job_inputs (js_inputs s)"

lemma rd_wr_job_spec [wire_simps]: "wf_spec s \<Longrightarrow> rd_job_spec (wr_job_spec s) = Some s"
  by (simp add: rd_job_spec_def wr_job_spec_def read_defs wire_simps wf_spec_def)

interpretation spec_env: signed_envelope wr_job_spec rd_job_spec wf_spec js_signature
  "\<lambda>s x. x\<lparr>js_signature := s\<rparr>" "\<lambda>x. x\<lparr>js_signature := []\<rparr>" "\<lambda>_. True"
  "\<lambda>P vk x. spec_verify_signature P x vk = Inr ()"
  by unfold_locales
    (simp_all add: rd_wr_job_spec wf_spec_def spec_verify_signature_def verify_bytes_ok)

section \<open>Verdicts and methods\<close>

datatype verifier_method = Deterministic | SpotCheck | Statistical

datatype verifier_verdict = Agreed | Disagreed (evidence_hash: chash) | Abstained

definition method_name :: "verifier_method \<Rightarrow> string" where
  "method_name m = (case m of Deterministic \<Rightarrow> ''Deterministic'' | SpotCheck \<Rightarrow> ''SpotCheck''
     | Statistical \<Rightarrow> ''Statistical'')"

definition wr_method :: "verifier_method \<Rightarrow> cbor" where
  "wr_method m = CText (method_name m)"

definition rd_method :: "cbor \<Rightarrow> verifier_method option" where
  "rd_method v = (case v of CText s \<Rightarrow>
     (if s = ''Deterministic'' then Some Deterministic else if s = ''SpotCheck'' then Some SpotCheck
      else if s = ''Statistical'' then Some Statistical else None) | _ \<Rightarrow> None)"

definition wr_verdict :: "verifier_verdict \<Rightarrow> cbor" where
  "wr_verdict v = (case v of Agreed \<Rightarrow> CText ''Agreed''
     | Disagreed h \<Rightarrow> CMap [(''Disagreed'', CMap [(''evidence_hash'', wr_hash h)])]
     | Abstained \<Rightarrow> CText ''Abstained'')"

definition rd_verdict :: "cbor \<Rightarrow> verifier_verdict option" where
  "rd_verdict v = (case v of
     CText s \<Rightarrow> (if s = ''Agreed'' then Some Agreed else if s = ''Abstained'' then Some Abstained
       else None)
   | CMap [(n, b)] \<Rightarrow> (if n = ''Disagreed''
       then do { m \<leftarrow> map_fields b; h \<leftarrow> field ''evidence_hash'' rd_hash m; Some (Disagreed h) }
       else None)
   | _ \<Rightarrow> None)"

definition wf_verdict :: "verifier_verdict \<Rightarrow> bool" where
  "wf_verdict v = (case v of Disagreed h \<Rightarrow> wf_hash h | _ \<Rightarrow> True)"

lemma rd_wr_method [wire_simps]: "rd_method (wr_method m) = Some m"
  by (cases m) (simp_all add: rd_method_def wr_method_def method_name_def)

lemma rd_wr_verdict [wire_simps]: "wf_verdict v \<Longrightarrow> rd_verdict (wr_verdict v) = Some v"
  by (cases v) (simp_all add: rd_verdict_def wr_verdict_def wf_verdict_def read_defs wire_simps)

section \<open>Job results\<close>

record result_meta =
  rm_verifier_method :: verifier_method
  rm_execution_time_ms :: u64
  rm_model_used :: "string option"
  rm_inference_token_count :: "u32 option"

definition wr_result_meta :: "result_meta \<Rightarrow> cbor" where
  "wr_result_meta r = CMap
     [(''verifier_method'', wr_method (rm_verifier_method r)),
      (''execution_time_ms'', wr_u (rm_execution_time_ms r)),
      (''model_used'', wr_option CText (rm_model_used r)),
      (''inference_token_count'', wr_option wr_u (rm_inference_token_count r))]"

definition rd_result_meta :: "cbor \<Rightarrow> result_meta option" where
  "rd_result_meta v = do {
     m \<leftarrow> map_fields v;
     vm \<leftarrow> field ''verifier_method'' rd_method m;
     t \<leftarrow> field ''execution_time_ms'' rd_u m;
     u \<leftarrow> field_default ''model_used'' None (rd_option rd_text) m;
     c \<leftarrow> field_default ''inference_token_count'' None (rd_option rd_u) m;
     Some \<lparr>rm_verifier_method = vm, rm_execution_time_ms = t, rm_model_used = u,
       rm_inference_token_count = c\<rparr>
   }"

lemma rd_wr_result_meta [wire_simps]: "rd_result_meta (wr_result_meta r) = Some r"
  by (simp add: rd_result_meta_def wr_result_meta_def read_defs wire_simps)

record job_result =
  jr_wire_version :: u32
  jr_spec_hash :: chash
  jr_executor :: peer_id
  jr_executed_at :: u64
  jr_result_meta :: result_meta
  jr_result_payload :: bytes
  jr_signature :: bytes

definition wr_job_result :: "job_result \<Rightarrow> cbor" where
  "wr_job_result r = CMap
     [(''wire_version'', wr_u (jr_wire_version r)), (''spec_hash'', wr_hash (jr_spec_hash r)),
      (''executor'', wr_peer (jr_executor r)), (''executed_at'', wr_u (jr_executed_at r)),
      (''result_meta'', wr_result_meta (jr_result_meta r)),
      (''result_payload'', CBytes (jr_result_payload r)), (''signature'', CBytes (jr_signature r))]"

definition rd_job_result :: "cbor \<Rightarrow> job_result option" where
  "rd_job_result v = do {
     m \<leftarrow> map_fields v;
     w \<leftarrow> field ''wire_version'' rd_u m;
     h \<leftarrow> field ''spec_hash'' rd_hash m;
     e \<leftarrow> field ''executor'' rd_peer m;
     t \<leftarrow> field ''executed_at'' rd_u m;
     rm \<leftarrow> field ''result_meta'' rd_result_meta m;
     p \<leftarrow> field ''result_payload'' rd_bytes m;
     sg \<leftarrow> field ''signature'' rd_bytes m;
     Some \<lparr>jr_wire_version = w, jr_spec_hash = h, jr_executor = e, jr_executed_at = t,
       jr_result_meta = rm, jr_result_payload = p, jr_signature = sg\<rparr>
   }"

definition result_content_hash :: "prims \<Rightarrow> job_result \<Rightarrow> chash" where
  "result_content_hash P r = content_hash P (to_cbor_bytes P (wr_job_result r))"

definition result_new_signed_at ::
    "prims \<Rightarrow> chash \<Rightarrow> peer_id \<Rightarrow> u64 \<Rightarrow> result_meta \<Rightarrow> bytes \<Rightarrow> bytes \<Rightarrow> job_result \<times> chash"
  where
  "result_new_signed_at P spec_hash executor executed_at meta payload k =
     (let r = \<lparr>jr_wire_version = WIRE_VERSION, jr_spec_hash = spec_hash, jr_executor = executor,
            jr_executed_at = executed_at, jr_result_meta = meta, jr_result_payload = payload,
            jr_signature = []\<rparr>;
          unsigned = to_cbor_bytes P (wr_job_result r);
          r = r\<lparr>jr_signature := sign_bytes P k unsigned\<rparr>
      in (r, result_content_hash P r))"

definition result_verify_signature :: "prims \<Rightarrow> job_result \<Rightarrow> bytes \<Rightarrow> sign_error + unit" where
  "result_verify_signature P r vk =
     verify_bytes P vk (to_cbor_bytes P (wr_job_result (r\<lparr>jr_signature := []\<rparr>))) (jr_signature r)"

definition result_decode_cbor :: "prims \<Rightarrow> bytes \<Rightarrow> job_result option" where
  "result_decode_cbor P b = from_cbor_bytes P rd_job_result b"

definition wf_result :: "job_result \<Rightarrow> bool" where
  "wf_result r \<longleftrightarrow> wf_hash (jr_spec_hash r)"

lemma rd_wr_job_result [wire_simps]: "wf_result r \<Longrightarrow> rd_job_result (wr_job_result r) = Some r"
  by (simp add: rd_job_result_def wr_job_result_def read_defs wire_simps wf_result_def)

interpretation result_env: signed_envelope wr_job_result rd_job_result wf_result jr_signature
  "\<lambda>s x. x\<lparr>jr_signature := s\<rparr>" "\<lambda>x. x\<lparr>jr_signature := []\<rparr>" "\<lambda>_. True"
  "\<lambda>P vk x. result_verify_signature P x vk = Inr ()"
  by unfold_locales
    (simp_all add: rd_wr_job_result wf_result_def result_verify_signature_def verify_bytes_ok)

section \<open>Verifications\<close>

record job_verification =
  jv_wire_version :: u32
  jv_result_hash :: chash
  jv_verifier :: peer_id
  jv_verdict :: verifier_verdict
  jv_method_used :: verifier_method
  jv_verified_at :: u64
  jv_signature :: bytes

definition wr_job_verification :: "job_verification \<Rightarrow> cbor" where
  "wr_job_verification v = CMap
     [(''wire_version'', wr_u (jv_wire_version v)), (''result_hash'', wr_hash (jv_result_hash v)),
      (''verifier'', wr_peer (jv_verifier v)), (''verdict'', wr_verdict (jv_verdict v)),
      (''method_used'', wr_method (jv_method_used v)), (''verified_at'', wr_u (jv_verified_at v)),
      (''signature'', CBytes (jv_signature v))]"

definition rd_job_verification :: "cbor \<Rightarrow> job_verification option" where
  "rd_job_verification v = do {
     m \<leftarrow> map_fields v;
     w \<leftarrow> field ''wire_version'' rd_u m;
     h \<leftarrow> field ''result_hash'' rd_hash m;
     p \<leftarrow> field ''verifier'' rd_peer m;
     d \<leftarrow> field ''verdict'' rd_verdict m;
     u \<leftarrow> field ''method_used'' rd_method m;
     t \<leftarrow> field ''verified_at'' rd_u m;
     sg \<leftarrow> field ''signature'' rd_bytes m;
     Some \<lparr>jv_wire_version = w, jv_result_hash = h, jv_verifier = p, jv_verdict = d,
       jv_method_used = u, jv_verified_at = t, jv_signature = sg\<rparr>
   }"

definition verification_content_hash :: "prims \<Rightarrow> job_verification \<Rightarrow> chash" where
  "verification_content_hash P v = content_hash P (to_cbor_bytes P (wr_job_verification v))"

definition verification_new_signed_at ::
    "prims \<Rightarrow> chash \<Rightarrow> peer_id \<Rightarrow> verifier_verdict \<Rightarrow> verifier_method \<Rightarrow> u64 \<Rightarrow> bytes
     \<Rightarrow> job_verification \<times> chash"
  where
  "verification_new_signed_at P result_hash verifier verdict method_used verified_at k =
     (let v = \<lparr>jv_wire_version = WIRE_VERSION, jv_result_hash = result_hash, jv_verifier = verifier,
            jv_verdict = verdict, jv_method_used = method_used, jv_verified_at = verified_at,
            jv_signature = []\<rparr>;
          unsigned = to_cbor_bytes P (wr_job_verification v);
          v = v\<lparr>jv_signature := sign_bytes P k unsigned\<rparr>
      in (v, verification_content_hash P v))"

definition verification_verify_signature ::
    "prims \<Rightarrow> job_verification \<Rightarrow> bytes \<Rightarrow> sign_error + unit" where
  "verification_verify_signature P v vk =
     verify_bytes P vk (to_cbor_bytes P (wr_job_verification (v\<lparr>jv_signature := []\<rparr>)))
       (jv_signature v)"

definition verification_decode_cbor :: "prims \<Rightarrow> bytes \<Rightarrow> job_verification option" where
  "verification_decode_cbor P b = from_cbor_bytes P rd_job_verification b"

definition wf_verification :: "job_verification \<Rightarrow> bool" where
  "wf_verification v \<longleftrightarrow> wf_hash (jv_result_hash v) \<and> wf_verdict (jv_verdict v)"

lemma rd_wr_job_verification [wire_simps]:
  "wf_verification v \<Longrightarrow> rd_job_verification (wr_job_verification v) = Some v"
  by (simp add: rd_job_verification_def wr_job_verification_def read_defs wire_simps
      wf_verification_def)

interpretation verification_env: signed_envelope wr_job_verification rd_job_verification
  wf_verification jv_signature "\<lambda>s x. x\<lparr>jv_signature := s\<rparr>" "\<lambda>x. x\<lparr>jv_signature := []\<rparr>"
  "\<lambda>_. True" "\<lambda>P vk x. verification_verify_signature P x vk = Inr ()"
  by unfold_locales
    (simp_all add: rd_wr_job_verification wf_verification_def verification_verify_signature_def
      verify_bytes_ok)

end
