(* ===== verification/Demo_Prims.thy ===== *)
theory Demo_Prims
  imports Wire
begin

text \<open>
  A concrete instance of the primitives, used where a property is applied to a concrete input:
  it shows that the hypotheses on \<open>prims\<close> can hold together. The encoder writes a tag byte and
  unary counts; signatures and digests are padded prefixes. None of it stands for the real
  algorithms.
\<close>

section \<open>A self-delimiting encoder\<close>

definition enc_nat :: "nat \<Rightarrow> bytes" where
  "enc_nat n = replicate n 1 @ [0]"

fun dec_nat :: "bytes \<Rightarrow> (nat \<times> bytes) option" where
  "dec_nat [] = None"
| "dec_nat (b # bs) = (if b = 0 then Some (0, bs) else map_option (\<lambda>(n, r). (Suc n, r)) (dec_nat bs))"

lemma dec_enc_nat [simp]: "dec_nat (enc_nat n @ r) = Some (n, r)"
  by (induction n) (simp_all add: enc_nat_def)

definition enc_raw :: "bytes \<Rightarrow> bytes" where
  "enc_raw b = enc_nat (length b) @ b"

definition dec_raw :: "bytes \<Rightarrow> (bytes \<times> bytes) option" where
  "dec_raw bs = map_option (\<lambda>(n, r). (take n r, drop n r)) (dec_nat bs)"

lemma dec_enc_raw [simp]: "dec_raw (enc_raw b @ r) = Some (b, r)"
  by (simp add: enc_raw_def dec_raw_def)

definition enc_int :: "int \<Rightarrow> bytes" where
  "enc_int i = (if i < 0 then 1 else 0) # enc_nat (nat \<bar>i\<bar>)"

definition dec_int :: "bytes \<Rightarrow> (int \<times> bytes) option" where
  "dec_int bs = (case bs of [] \<Rightarrow> None
     | s # r \<Rightarrow> map_option (\<lambda>(n, r). (if s = 1 then - int n else int n, r)) (dec_nat r))"

lemma dec_enc_int [simp]: "dec_int (enc_int i @ r) = Some (i, r)"
  by (simp add: enc_int_def dec_int_def)

definition enc_string :: "string \<Rightarrow> bytes" where
  "enc_string s = enc_raw (map of_char s)"

definition dec_string :: "bytes \<Rightarrow> (string \<times> bytes) option" where
  "dec_string bs = map_option (\<lambda>(b, r). (map (\<lambda>w. char_of (unat w)) b, r)) (dec_raw bs)"

lemma char_of_byte: "char_of (unat (of_char c :: u8)) = c"
proof -
  have "unat (of_char c :: u8) = unat (of_nat (of_char c) :: u8)"
    by (simp only: of_nat_of_char)
  also have "\<dots> = of_char c mod 2 ^ 8"
    by (simp add: unat_of_nat)
  finally show ?thesis by simp
qed

lemma dec_enc_string [simp]: "dec_string (enc_string s @ r) = Some (s, r)"
  by (simp add: enc_string_def dec_string_def comp_def char_of_byte)

section \<open>CBOR values\<close>

primrec enc :: "cbor \<Rightarrow> bytes" where
  "enc (CInt i) = 1 # enc_int i"
| "enc (CBytes b) = 2 # enc_raw b"
| "enc (CText s) = 3 # enc_string s"
| "enc (CArray xs) = 4 # enc_nat (length xs) @ concat (map enc xs)"
| "enc (CMap m) = 5 # enc_nat (length m) @ concat (map (\<lambda>(k, e). enc_string k @ e) (map (map_prod id enc) m))"
| "enc (CBool b) = [6, if b then 1 else 0]"
| "enc CNull = [7]"
| "enc (CFloat x) = 8 # enc_int (fst (quotient_of x)) @ enc_int (snd (quotient_of x))"

fun dec_seq :: "(bytes \<Rightarrow> ('a \<times> bytes) option) \<Rightarrow> nat \<Rightarrow> bytes \<Rightarrow> ('a list \<times> bytes) option" where
  "dec_seq d 0 bs = Some ([], bs)"
| "dec_seq d (Suc n) bs = (case d bs of None \<Rightarrow> None
     | Some (x, r) \<Rightarrow> map_option (\<lambda>(xs, r). (x # xs, r)) (dec_seq d n r))"

lemma dec_seq_concat:
  "(\<And>x r. x \<in> set xs \<Longrightarrow> d (e x @ r) = Some (x, r)) \<Longrightarrow>
   dec_seq d (length xs) (concat (map e xs) @ r) = Some (xs, r)"
  by (induction xs) auto

fun dec :: "nat \<Rightarrow> bytes \<Rightarrow> (cbor \<times> bytes) option" where
  "dec 0 bs = None"
| "dec (Suc f) [] = None"
| "dec (Suc f) (t # bs) =
     (if t = 1 then map_option (\<lambda>(i, r). (CInt i, r)) (dec_int bs)
      else if t = 2 then map_option (\<lambda>(b, r). (CBytes b, r)) (dec_raw bs)
      else if t = 3 then map_option (\<lambda>(s, r). (CText s, r)) (dec_string bs)
      else if t = 4 then (case dec_nat bs of None \<Rightarrow> None
        | Some (n, r) \<Rightarrow> map_option (\<lambda>(xs, r). (CArray xs, r)) (dec_seq (dec f) n r))
      else if t = 5 then (case dec_nat bs of None \<Rightarrow> None
        | Some (n, r) \<Rightarrow> map_option (\<lambda>(m, r). (CMap m, r)) (dec_seq (\<lambda>bs. case dec_string bs of
            None \<Rightarrow> None | Some (k, r) \<Rightarrow> map_option (\<lambda>(v, r). ((k, v), r)) (dec f r)) n r))
      else if t = 6 then (case bs of [] \<Rightarrow> None | b # r \<Rightarrow> Some (CBool (b = 1), r))
      else if t = 7 then Some (CNull, bs)
      else (case dec_int bs of None \<Rightarrow> None
        | Some (p, r) \<Rightarrow> map_option (\<lambda>(q, r). (CFloat (of_int p / of_int q), r)) (dec_int r)))"

primrec cdepth :: "cbor \<Rightarrow> nat" where
  "cdepth (CInt i) = 1"
| "cdepth (CBytes b) = 1"
| "cdepth (CText s) = 1"
| "cdepth (CArray xs) = Suc (sum_list (map cdepth xs))"
| "cdepth (CMap m) = Suc (sum_list (map snd (map (map_prod id cdepth) m)))"
| "cdepth (CBool b) = 1"
| "cdepth CNull = 1"
| "cdepth (CFloat x) = 1"

lemma cdepth_array: "x \<in> set xs \<Longrightarrow> cdepth x < cdepth (CArray xs)"
  by (simp add: less_Suc_eq_le member_le_sum_list)

lemma cdepth_map: "(k, x) \<in> set m \<Longrightarrow> cdepth x < cdepth (CMap m)"
  by (force simp: less_Suc_eq_le intro: member_le_sum_list)

lemma dec_enc: "cdepth v \<le> f \<Longrightarrow> dec f (enc v @ r) = Some (v, r)"
proof (induction v arbitrary: f r)
  case (CArray xs)
  obtain g where f: "f = Suc g" using CArray.prems by (cases f) auto
  have "dec g (enc x @ r) = Some (x, r)" if "x \<in> set xs" for x r
    using CArray.IH [OF that] cdepth_array [OF that] CArray.prems f by simp
  then show ?case by (simp add: f dec_seq_concat)
next
  case (CMap m)
  obtain g where f: "f = Suc g" using CMap.prems by (cases f) auto
  have "dec g (enc x @ r) = Some (x, r)" if "(k, x) \<in> set m" for k x r
    using CMap.IH [OF that] cdepth_map [OF that] CMap.prems f by (simp add: snds.intros)
  then have "dec_seq (\<lambda>bs. case dec_string bs of None \<Rightarrow> None
      | Some (k, r) \<Rightarrow> map_option (\<lambda>(v, r). ((k, v), r)) (dec g r)) (length m)
      (concat (map (\<lambda>(k, v). enc_string k @ enc v) m) @ r) = Some (m, r)"
    by (intro dec_seq_concat) auto
  then show ?case by (simp add: f comp_def case_prod_unfold)
next
  case (CFloat x)
  then obtain g where f: "f = Suc g" by (cases f) auto
  have "of_int (fst (quotient_of x)) / of_int (snd (quotient_of x)) = x"
    by (metis prod.collapse quotient_of_div)
  then show ?case by (simp add: f)
qed (simp_all add: Suc_le_eq gr0_conv_Suc, auto)

lemma cdepth_le_length: "cdepth v \<le> length (enc v)"
proof (induction v)
  case (CArray xs)
  then have "sum_list (map cdepth xs) \<le> sum_list (map (length \<circ> enc) xs)"
    by (intro sum_list_mono) simp
  then show ?case by (simp add: length_concat comp_def enc_nat_def)
next
  case (CMap m)
  then have "sum_list (map (cdepth \<circ> snd) m) \<le> sum_list (map (\<lambda>e. length (enc_string (fst e) @ enc (snd e))) m)"
    by (intro sum_list_mono) (simp add: trans_le_add2 snds.intros)
  then show ?case
    by (simp add: length_concat comp_def enc_nat_def case_prod_unfold)
qed (simp_all add: enc_int_def enc_nat_def)

section \<open>The instance\<close>

definition pad :: "nat \<Rightarrow> bytes \<Rightarrow> bytes" where
  "pad n b = take n (b @ replicate n 0)"

definition demo_prims :: prims where
  "demo_prims = \<lparr>
     ed_sign = (\<lambda>k m. pad 64 (k @ m)),
     ed_public = (\<lambda>k. k),
     ed_verify = (\<lambda>vk m s. s = pad 64 (vk @ m)),
     ed_valid_key = (\<lambda>b. True),
     sha256 = pad 32,
     cbor_write = enc,
     cbor_read = (\<lambda>b. case dec (length b) b of Some (v, []) \<Rightarrow> Some v | _ \<Rightarrow> None)\<rparr>"

lemma length_pad [simp]: "length (pad n b) = n"
  by (simp add: pad_def)

lemma demo_ok: "ed25519_ok demo_prims" "sha256_ok demo_prims" "cbor_ok demo_prims"
proof -
  show "ed25519_ok demo_prims" by (simp add: ed25519_ok_def demo_prims_def)
  show "sha256_ok demo_prims" by (simp add: sha256_ok_def demo_prims_def)
  have "dec (length (enc v)) (enc v) = Some (v, [])" for v
    using dec_enc [OF cdepth_le_length, of v "[]"] by simp
  then show "cbor_ok demo_prims" by (simp add: cbor_ok_def demo_prims_def)
qed

end
