(* ===== verification/Outcome.thy ===== *)
theory Outcome
  imports Task Demo_Prims
begin

text \<open>
  The aggregated outcome of a task (\<open>server/parseh-task/src/outcome.rs\<close>) and the
  \<open>/parseh/state-sync/1.0.0\<close> messages (\<open>state_sync.rs\<close>), with the properties of the signed
  types: round trips, acceptance of honestly signed values, tampering as forgery and the
  binding of content hashes.
\<close>

section \<open>Job outcomes\<close>

datatype outcome_verdict =
    Valid (agreements: u32) (disagreements: u32) (abstentions: u32) (reputation_weighted: f64)
  | Disputed (disputers: "peer_id list")
  | Indeterminate

definition wr_outcome_verdict :: "outcome_verdict \<Rightarrow> cbor" where
  "wr_outcome_verdict v = (case v of
     Valid a d b r \<Rightarrow> CMap [(''Valid'', CMap [(''agreements'', wr_u a), (''disagreements'', wr_u d),
       (''abstentions'', wr_u b), (''reputation_weighted'', CFloat r)])]
   | Disputed ps \<Rightarrow> CMap [(''Disputed'', CMap [(''disputers'', wr_list wr_peer ps)])]
   | Indeterminate \<Rightarrow> CText ''Indeterminate'')"

definition rd_outcome_verdict :: "cbor \<Rightarrow> outcome_verdict option" where
  "rd_outcome_verdict v = (case v of
     CText s \<Rightarrow> (if s = ''Indeterminate'' then Some Indeterminate else None)
   | CMap [(n, b)] \<Rightarrow>
      (if n = ''Valid'' then do {
         m \<leftarrow> map_fields b;
         a \<leftarrow> field ''agreements'' rd_u m;
         d \<leftarrow> field ''disagreements'' rd_u m;
         c \<leftarrow> field ''abstentions'' rd_u m;
         r \<leftarrow> field ''reputation_weighted'' rd_f64 m;
         Some (Valid a d c r) }
       else if n = ''Disputed'' then do {
         m \<leftarrow> map_fields b;
         ps \<leftarrow> field ''disputers'' (rd_list rd_peer) m;
         Some (Disputed ps) }
       else None)
   | _ \<Rightarrow> None)"

lemma rd_wr_outcome_verdict [wire_simps]: "rd_outcome_verdict (wr_outcome_verdict v) = Some v"
  by (cases v) (simp_all add: rd_outcome_verdict_def wr_outcome_verdict_def read_defs wire_simps)

record job_outcome =
  jo_wire_version :: u32
  jo_spec_hash :: chash
  jo_result_hash :: chash
  jo_verification_hashes :: "chash list"
  jo_verdict :: outcome_verdict
  jo_finalised_at :: u64
  jo_observed_by :: peer_id
  jo_signature :: bytes

definition wr_job_outcome :: "job_outcome \<Rightarrow> cbor" where
  "wr_job_outcome r = CMap
     [(''wire_version'', wr_u (jo_wire_version r)), (''spec_hash'', wr_hash (jo_spec_hash r)),
      (''result_hash'', wr_hash (jo_result_hash r)),
      (''verification_hashes'', wr_list wr_hash (jo_verification_hashes r)),
      (''verdict'', wr_outcome_verdict (jo_verdict r)), (''finalised_at'', wr_u (jo_finalised_at r)),
      (''observed_by'', wr_peer (jo_observed_by r)), (''signature'', CBytes (jo_signature r))]"

definition rd_job_outcome :: "cbor \<Rightarrow> job_outcome option" where
  "rd_job_outcome v = do {
     m \<leftarrow> map_fields v;
     w \<leftarrow> field ''wire_version'' rd_u m;
     h \<leftarrow> field ''spec_hash'' rd_hash m;
     rh \<leftarrow> field ''result_hash'' rd_hash m;
     vh \<leftarrow> field ''verification_hashes'' (rd_list rd_hash) m;
     d \<leftarrow> field ''verdict'' rd_outcome_verdict m;
     t \<leftarrow> field ''finalised_at'' rd_u m;
     p \<leftarrow> field ''observed_by'' rd_peer m;
     sg \<leftarrow> field ''signature'' rd_bytes m;
     Some \<lparr>jo_wire_version = w, jo_spec_hash = h, jo_result_hash = rh, jo_verification_hashes = vh,
       jo_verdict = d, jo_finalised_at = t, jo_observed_by = p, jo_signature = sg\<rparr>
   }"

definition outcome_content_hash :: "prims \<Rightarrow> job_outcome \<Rightarrow> chash" where
  "outcome_content_hash P r = content_hash P (to_cbor_bytes P (wr_job_outcome r))"

definition outcome_new_signed_at ::
    "prims \<Rightarrow> chash \<Rightarrow> chash \<Rightarrow> chash list \<Rightarrow> outcome_verdict \<Rightarrow> u64 \<Rightarrow> peer_id \<Rightarrow> bytes
     \<Rightarrow> job_outcome \<times> chash"
  where
  "outcome_new_signed_at P spec_hash result_hash vhashes verdict finalised_at observed_by k =
     (let r = \<lparr>jo_wire_version = WIRE_VERSION, jo_spec_hash = spec_hash, jo_result_hash = result_hash,
            jo_verification_hashes = vhashes, jo_verdict = verdict, jo_finalised_at = finalised_at,
            jo_observed_by = observed_by, jo_signature = []\<rparr>;
          unsigned = to_cbor_bytes P (wr_job_outcome r);
          r = r\<lparr>jo_signature := sign_bytes P k unsigned\<rparr>
      in (r, outcome_content_hash P r))"

definition outcome_verify_signature :: "prims \<Rightarrow> job_outcome \<Rightarrow> bytes \<Rightarrow> sign_error + unit" where
  "outcome_verify_signature P r vk =
     verify_bytes P vk (to_cbor_bytes P (wr_job_outcome (r\<lparr>jo_signature := []\<rparr>))) (jo_signature r)"

definition outcome_decode_cbor :: "prims \<Rightarrow> bytes \<Rightarrow> job_outcome option" where
  "outcome_decode_cbor P b = from_cbor_bytes P rd_job_outcome b"

definition wf_outcome :: "job_outcome \<Rightarrow> bool" where
  "wf_outcome r \<longleftrightarrow> wf_hash (jo_spec_hash r) \<and> wf_hash (jo_result_hash r)
     \<and> (\<forall>h \<in> set (jo_verification_hashes r). wf_hash h)"

lemma rd_wr_job_outcome [wire_simps]: "wf_outcome r \<Longrightarrow> rd_job_outcome (wr_job_outcome r) = Some r"
  by (simp add: rd_job_outcome_def wr_job_outcome_def read_defs wire_simps wf_outcome_def)

interpretation outcome_env: signed_envelope wr_job_outcome rd_job_outcome wf_outcome jo_signature
  "\<lambda>s x. x\<lparr>jo_signature := s\<rparr>" "\<lambda>x. x\<lparr>jo_signature := []\<rparr>" "\<lambda>_. True"
  "\<lambda>P vk x. outcome_verify_signature P x vk = Inr ()"
  by unfold_locales
    (simp_all add: rd_wr_job_outcome wf_outcome_def outcome_verify_signature_def verify_bytes_ok)

section \<open>State-sync messages\<close>

definition STATE_SYNC_HARD_CEILING :: u32 where
  "STATE_SYNC_HARD_CEILING = 500"

record state_sync_request =
  rq_wire_version :: u32
  rq_since_unix :: u64
  rq_max_outcomes :: u32
  rq_requester :: peer_id
  rq_signed_at :: u64
  rq_signature :: bytes

definition wr_request :: "state_sync_request \<Rightarrow> cbor" where
  "wr_request r = CMap
     [(''wire_version'', wr_u (rq_wire_version r)), (''since_unix'', wr_u (rq_since_unix r)),
      (''max_outcomes'', wr_u (rq_max_outcomes r)), (''requester'', wr_peer (rq_requester r)),
      (''signed_at'', wr_u (rq_signed_at r)), (''signature'', CBytes (rq_signature r))]"

definition rd_request :: "cbor \<Rightarrow> state_sync_request option" where
  "rd_request v = do {
     m \<leftarrow> map_fields v;
     w \<leftarrow> field ''wire_version'' rd_u m;
     s \<leftarrow> field ''since_unix'' rd_u m;
     x \<leftarrow> field ''max_outcomes'' rd_u m;
     p \<leftarrow> field ''requester'' rd_peer m;
     t \<leftarrow> field ''signed_at'' rd_u m;
     sg \<leftarrow> field ''signature'' rd_bytes m;
     Some \<lparr>rq_wire_version = w, rq_since_unix = s, rq_max_outcomes = x, rq_requester = p,
       rq_signed_at = t, rq_signature = sg\<rparr>
   }"

definition request_new_signed ::
    "prims \<Rightarrow> u64 \<Rightarrow> u32 \<Rightarrow> peer_id \<Rightarrow> u64 \<Rightarrow> bytes \<Rightarrow> state_sync_request" where
  "request_new_signed P since_unix max_outcomes requester signed_at k =
     (let r = \<lparr>rq_wire_version = WIRE_VERSION, rq_since_unix = since_unix,
            rq_max_outcomes = max_outcomes, rq_requester = requester, rq_signed_at = signed_at,
            rq_signature = []\<rparr>
      in r\<lparr>rq_signature := sign_bytes P k (to_cbor_bytes P (wr_request r))\<rparr>)"

definition request_verify_signature :: "prims \<Rightarrow> state_sync_request \<Rightarrow> bytes \<Rightarrow> sign_error + unit" where
  "request_verify_signature P r vk =
     (if rq_wire_version r \<noteq> WIRE_VERSION
      then Inl (Verify (WireVersionMismatch (rq_wire_version r)))
      else verify_bytes P vk (to_cbor_bytes P (wr_request (r\<lparr>rq_signature := []\<rparr>))) (rq_signature r))"

lemma rd_wr_request [wire_simps]: "rd_request (wr_request r) = Some r"
  by (simp add: rd_request_def wr_request_def read_defs wire_simps)

interpretation request_env: versioned_envelope wr_request rd_request "\<lambda>_. True" rq_signature
  "\<lambda>s x. x\<lparr>rq_signature := s\<rparr>" "\<lambda>x. x\<lparr>rq_signature := []\<rparr>"
  "\<lambda>x. rq_wire_version x = WIRE_VERSION"
  "\<lambda>P vk x. request_verify_signature P x vk = Inr ()" rq_wire_version
  by unfold_locales
    (simp_all add: rd_wr_request request_verify_signature_def verify_bytes_ok)

record state_sync_response =
  rs_wire_version :: u32
  rs_outcomes :: "job_outcome list"
  rs_truncated :: bool
  rs_responder :: peer_id
  rs_signed_at :: u64
  rs_signature :: bytes

definition wr_response :: "state_sync_response \<Rightarrow> cbor" where
  "wr_response r = CMap
     [(''wire_version'', wr_u (rs_wire_version r)),
      (''outcomes'', wr_list wr_job_outcome (rs_outcomes r)),
      (''truncated'', CBool (rs_truncated r)), (''responder'', wr_peer (rs_responder r)),
      (''signed_at'', wr_u (rs_signed_at r)), (''signature'', CBytes (rs_signature r))]"

definition rd_response :: "cbor \<Rightarrow> state_sync_response option" where
  "rd_response v = do {
     m \<leftarrow> map_fields v;
     w \<leftarrow> field ''wire_version'' rd_u m;
     os \<leftarrow> field ''outcomes'' (rd_list rd_job_outcome) m;
     x \<leftarrow> field ''truncated'' rd_bool m;
     p \<leftarrow> field ''responder'' rd_peer m;
     t \<leftarrow> field ''signed_at'' rd_u m;
     sg \<leftarrow> field ''signature'' rd_bytes m;
     Some \<lparr>rs_wire_version = w, rs_outcomes = os, rs_truncated = x, rs_responder = p,
       rs_signed_at = t, rs_signature = sg\<rparr>
   }"

definition response_new_signed ::
    "prims \<Rightarrow> job_outcome list \<Rightarrow> bool \<Rightarrow> peer_id \<Rightarrow> u64 \<Rightarrow> bytes \<Rightarrow> state_sync_response" where
  "response_new_signed P outcomes truncated responder signed_at k =
     (let r = \<lparr>rs_wire_version = WIRE_VERSION, rs_outcomes = outcomes, rs_truncated = truncated,
            rs_responder = responder, rs_signed_at = signed_at, rs_signature = []\<rparr>
      in r\<lparr>rs_signature := sign_bytes P k (to_cbor_bytes P (wr_response r))\<rparr>)"

definition response_verify_signature :: "prims \<Rightarrow> state_sync_response \<Rightarrow> bytes \<Rightarrow> sign_error + unit" where
  "response_verify_signature P r vk =
     (if rs_wire_version r \<noteq> WIRE_VERSION
      then Inl (Verify (WireVersionMismatch (rs_wire_version r)))
      else verify_bytes P vk (to_cbor_bytes P (wr_response (r\<lparr>rs_signature := []\<rparr>))) (rs_signature r))"

definition wf_response :: "state_sync_response \<Rightarrow> bool" where
  "wf_response r \<longleftrightarrow> (\<forall>x \<in> set (rs_outcomes r). wf_outcome x)"

lemma rd_wr_response [wire_simps]: "wf_response r \<Longrightarrow> rd_response (wr_response r) = Some r"
  by (simp add: rd_response_def wr_response_def read_defs wire_simps wf_response_def)

interpretation response_env: versioned_envelope wr_response rd_response wf_response rs_signature
  "\<lambda>s x. x\<lparr>rs_signature := s\<rparr>" "\<lambda>x. x\<lparr>rs_signature := []\<rparr>"
  "\<lambda>x. rs_wire_version x = WIRE_VERSION"
  "\<lambda>P vk x. response_verify_signature P x vk = Inr ()" rs_wire_version
  by unfold_locales
    (simp_all add: rd_wr_response wf_response_def response_verify_signature_def verify_bytes_ok)

lemma response_new_signed_fields [simp]:
  "rs_outcomes (response_new_signed P os t p n k) = os"
  "rs_truncated (response_new_signed P os t p n k) = t"
  "rs_responder (response_new_signed P os t p n k) = p"
  "rs_wire_version (response_new_signed P os t p n k) = WIRE_VERSION"
  by (simp_all add: response_new_signed_def Let_def)

lemma outcome_new_signed_fields [simp]:
  "jo_spec_hash (fst (outcome_new_signed_at P s r vs d t p k)) = s"
  "jo_result_hash (fst (outcome_new_signed_at P s r vs d t p k)) = r"
  "jo_verification_hashes (fst (outcome_new_signed_at P s r vs d t p k)) = vs"
  "jo_verdict (fst (outcome_new_signed_at P s r vs d t p k)) = d"
  "jo_finalised_at (fst (outcome_new_signed_at P s r vs d t p k)) = t"
  "jo_observed_by (fst (outcome_new_signed_at P s r vs d t p k)) = p"
  by (simp_all add: outcome_new_signed_at_def Let_def)

section \<open>Signing and verifying\<close>

lemma new_signed_is_put:
  "fst (spec_new_signed_at P kd i sv se t p k) =
     (let x = \<lparr>js_wire_version = WIRE_VERSION, js_kind = kd, js_inputs = i, js_service = sv,
        js_sensitive = se, js_submitted_at = t, js_submitter = p, js_signature = []\<rparr>
      in x\<lparr>js_signature := sign_bytes P k (to_cbor_bytes P (wr_job_spec (x\<lparr>js_signature := []\<rparr>)))\<rparr>)"
  "fst (result_new_signed_at P h p t mt pl k) =
     (let x = \<lparr>jr_wire_version = WIRE_VERSION, jr_spec_hash = h, jr_executor = p,
        jr_executed_at = t, jr_result_meta = mt, jr_result_payload = pl, jr_signature = []\<rparr>
      in x\<lparr>jr_signature := sign_bytes P k (to_cbor_bytes P (wr_job_result (x\<lparr>jr_signature := []\<rparr>)))\<rparr>)"
  "fst (verification_new_signed_at P h p vd md t k) =
     (let x = \<lparr>jv_wire_version = WIRE_VERSION, jv_result_hash = h, jv_verifier = p,
        jv_verdict = vd, jv_method_used = md, jv_verified_at = t, jv_signature = []\<rparr>
      in x\<lparr>jv_signature :=
        sign_bytes P k (to_cbor_bytes P (wr_job_verification (x\<lparr>jv_signature := []\<rparr>)))\<rparr>)"
  "fst (outcome_new_signed_at P h rh vs ov t p k) =
     (let x = \<lparr>jo_wire_version = WIRE_VERSION, jo_spec_hash = h, jo_result_hash = rh,
        jo_verification_hashes = vs, jo_verdict = ov, jo_finalised_at = t, jo_observed_by = p,
        jo_signature = []\<rparr>
      in x\<lparr>jo_signature := sign_bytes P k (to_cbor_bytes P (wr_job_outcome (x\<lparr>jo_signature := []\<rparr>)))\<rparr>)"
  by (simp_all add: spec_new_signed_at_def result_new_signed_at_def verification_new_signed_at_def
      outcome_new_signed_at_def Let_def)

lemma spec_new_signed_verifies:
  "ed25519_ok P \<Longrightarrow>
   spec_verify_signature P (fst (spec_new_signed_at P kd i sv se t p k)) (ed_public P k) = Inr ()"
  unfolding new_signed_is_put Let_def by (rule spec_env.signed_accepted) simp_all

lemma result_new_signed_verifies:
  "ed25519_ok P \<Longrightarrow>
   result_verify_signature P (fst (result_new_signed_at P h p t mt pl k)) (ed_public P k) = Inr ()"
  unfolding new_signed_is_put Let_def by (rule result_env.signed_accepted) simp_all

lemma verification_new_signed_verifies:
  "ed25519_ok P \<Longrightarrow>
   verification_verify_signature P (fst (verification_new_signed_at P h p vd md t k)) (ed_public P k)
     = Inr ()"
  unfolding new_signed_is_put Let_def by (rule verification_env.signed_accepted) simp_all

lemma outcome_new_signed_verifies:
  "ed25519_ok P \<Longrightarrow>
   outcome_verify_signature P (fst (outcome_new_signed_at P h rh vs ov t p k)) (ed_public P k) = Inr ()"
  unfolding new_signed_is_put Let_def by (rule outcome_env.signed_accepted) simp_all

lemma request_new_signed_verifies:
  "ed25519_ok P \<Longrightarrow>
   request_verify_signature P (request_new_signed P s x p t k) (ed_public P k) = Inr ()"
  using request_env.signed_accepted
    [of P "\<lparr>rq_wire_version = WIRE_VERSION, rq_since_unix = s, rq_max_outcomes = x,
      rq_requester = p, rq_signed_at = t, rq_signature = []\<rparr>" k]
  by (simp add: request_new_signed_def Let_def)

lemma response_new_signed_verifies:
  "ed25519_ok P \<Longrightarrow>
   response_verify_signature P (response_new_signed P os x p t k) (ed_public P k) = Inr ()"
  using response_env.signed_accepted
    [of P "\<lparr>rs_wire_version = WIRE_VERSION, rs_outcomes = os, rs_truncated = x,
      rs_responder = p, rs_signed_at = t, rs_signature = []\<rparr>" k]
  by (simp add: response_new_signed_def Let_def)

definition demo_meta :: result_meta where
  "demo_meta = \<lparr>rm_verifier_method = Deterministic, rm_execution_time_ms = 1, rm_model_used = None,
     rm_inference_token_count = None\<rparr>"

definition demo_outcome :: "u64 \<Rightarrow> job_outcome" where
  "demo_outcome t = fst (outcome_new_signed_at demo_prims zero_hash zero_hash [zero_hash] Indeterminate
     t (PeerId [1]) [7])"

lemma wf_demo_outcome: "wf_outcome (demo_outcome t)"
  by (simp add: wf_outcome_def demo_outcome_def wf_hash_def zero_hash_def)

end
