(* ===== verification/Task_Properties.thy ===== *)
theory Task_Properties
  imports Outcome
begin

text \<open>
  The properties of the signed task types (\<open>server/parseh-task/src/\<close>), each from the
  signed-envelope contract and its interpretations in \<open>Task\<close> and \<open>Outcome\<close>.
\<close>

text \<open>
  Sign then verify: every value built by a \<open>new_signed\<close> constructor of the six signed task
  types passes its own \<open>verify_signature\<close> under the signer's public key.
\<close>

theorem new_signed_verifies:
  assumes "ed25519_ok P"
  shows "spec_verify_signature P (fst (spec_new_signed_at P kd i sv se t p k)) (ed_public P k) = Inr ()
    \<and> result_verify_signature P (fst (result_new_signed_at P h p t mt pl k)) (ed_public P k) = Inr ()
    \<and> verification_verify_signature P (fst (verification_new_signed_at P h p vd md t k)) (ed_public P k)
        = Inr ()
    \<and> outcome_verify_signature P (fst (outcome_new_signed_at P h rh vs ov t p k)) (ed_public P k) = Inr ()
    \<and> request_verify_signature P (request_new_signed P t x p t k) (ed_public P k) = Inr ()
    \<and> response_verify_signature P (response_new_signed P os b p t k) (ed_public P k) = Inr ()"
  using assms
  by (simp add: spec_new_signed_verifies result_new_signed_verifies verification_new_signed_verifies
      outcome_new_signed_verifies request_new_signed_verifies response_new_signed_verifies)

theorem new_signed_verifies_witness:
  "ed25519_ok demo_prims \<and>
   spec_verify_signature demo_prims (fst (spec_new_signed_at demo_prims JobInference
     (inference_prompt ''hi'' 7) SvcInference False 3 (PeerId [1]) [5])) (ed_public demo_prims [5]) = Inr ()"
  using new_signed_verifies [OF demo_ok(1), where kd = JobInference and i = "inference_prompt ''hi'' 7"
      and sv = SvcInference and se = False and t = 3 and p = "PeerId [1]" and k = "[5]"
      and h = zero_hash and mt = demo_meta and pl = "[]" and vd = Agreed and md = Deterministic
      and rh = zero_hash and vs = "[]" and ov = Indeterminate and x = 1 and os = "[]" and b = False]
    demo_ok(1) by simp

text \<open>
  Wire round trip: decoding the CBOR encoding of a well-formed spec, result, verification,
  outcome, state-sync request or response gives the value back.
\<close>

theorem wire_roundtrip:
  assumes "cbor_ok P"
  shows "(wf_spec s \<longrightarrow> spec_decode_cbor P (to_cbor_bytes P (wr_job_spec s)) = Some s)
    \<and> (wf_result r \<longrightarrow> result_decode_cbor P (to_cbor_bytes P (wr_job_result r)) = Some r)
    \<and> (wf_verification v \<longrightarrow>
        verification_decode_cbor P (to_cbor_bytes P (wr_job_verification v)) = Some v)
    \<and> (wf_outcome x \<longrightarrow> outcome_decode_cbor P (to_cbor_bytes P (wr_job_outcome x)) = Some x)
    \<and> from_cbor_bytes P rd_request (to_cbor_bytes P (wr_request q)) = Some q
    \<and> (wf_response y \<longrightarrow> from_cbor_bytes P rd_response (to_cbor_bytes P (wr_response y)) = Some y)"
  using assms spec_env.roundtrip result_env.roundtrip verification_env.roundtrip
    outcome_env.roundtrip request_env.roundtrip response_env.roundtrip
  by (simp add: spec_decode_cbor_def result_decode_cbor_def verification_decode_cbor_def
      outcome_decode_cbor_def)

theorem wire_roundtrip_witness:
  "cbor_ok demo_prims \<and> wf_outcome (demo_outcome 9) \<and>
   outcome_decode_cbor demo_prims (to_cbor_bytes demo_prims (wr_job_outcome (demo_outcome 9)))
     = Some (demo_outcome 9)"
  using wire_roundtrip [OF demo_ok(3), of undefined undefined undefined "demo_outcome 9"]
    demo_ok(3) wf_demo_outcome by simp

text \<open>
  C21. Tampering is forgery: if an outcome whose unsigned content differs from the one a peer
  signed passes \<open>verify_signature\<close>, then the key accepts that signature on a message other than
  the one that was signed. No field of the outcome is outside the signature.
\<close>

theorem tampered_outcome_is_forgery:
  assumes "cbor_ok P" and "wf_outcome x" and "wf_outcome y"
    and "outcome_verify_signature P y vk = Inr ()"
    and "y\<lparr>jo_signature := []\<rparr> \<noteq> x\<lparr>jo_signature := []\<rparr>"
  shows "ed_verify P vk (to_cbor_bytes P (wr_job_outcome (y\<lparr>jo_signature := []\<rparr>))) (jo_signature y)
    \<and> to_cbor_bytes P (wr_job_outcome (y\<lparr>jo_signature := []\<rparr>))
        \<noteq> to_cbor_bytes P (wr_job_outcome (x\<lparr>jo_signature := []\<rparr>))"
  by (rule outcome_env.tamper_is_forgery [OF assms])

theorem tampered_outcome_is_forgery_witness:
  "cbor_ok demo_prims \<and>
   outcome_verify_signature demo_prims (demo_outcome 4) (ed_public demo_prims [7]) = Inr () \<and>
   to_cbor_bytes demo_prims (wr_job_outcome ((demo_outcome 4)\<lparr>jo_signature := []\<rparr>))
     \<noteq> to_cbor_bytes demo_prims (wr_job_outcome ((demo_outcome 9)\<lparr>jo_signature := []\<rparr>))"
proof -
  have v: "outcome_verify_signature demo_prims (demo_outcome 4) (ed_public demo_prims [7]) = Inr ()"
    unfolding demo_outcome_def by (rule outcome_new_signed_verifies [OF demo_ok(1)])
  have d: "(demo_outcome 4)\<lparr>jo_signature := []\<rparr> \<noteq> (demo_outcome 9)\<lparr>jo_signature := []\<rparr>"
    by (simp add: demo_outcome_def outcome_new_signed_at_def Let_def)
  show ?thesis
    using tampered_outcome_is_forgery [OF demo_ok(3) wf_demo_outcome wf_demo_outcome v d] v demo_ok(3)
    by simp
qed

end
