(* ===== verification/Rate_Limit.thy ===== *)
theory Rate_Limit
  imports F64
begin

text \<open>
  The verifier's sliding-window rate limiter (\<open>server/parseh-verify/src/rate_limit.rs\<close>) and the
  parameter pins of \<open>lib.rs\<close>. A \<open>SystemTime\<close> is a signed count of nanoseconds since the epoch,
  a \<open>Duration\<close> an unsigned one.
\<close>

section \<open>Parameters\<close>

definition P_BASE :: f64 where "P_BASE = f64_round (5 / 100)"
definition P_MIN :: f64 where "P_MIN = f64_round (1 / 1000)"
definition P_MAX :: f64 where "P_MAX = f64_round (1 / 2)"
definition RATE_CAP_PER_HOUR :: f64 where "RATE_CAP_PER_HOUR = f64_round (1 / 10)"
definition PROBATIONARY_REP_FLOOR :: u32 where "PROBATIONARY_REP_FLOOR = 10"
definition M_STANDARD :: u32 where "M_STANDARD = 5"
definition N_STANDARD :: u32 where "N_STANDARD = 9"
definition M_SENSITIVE :: u32 where "M_SENSITIVE = 9"
definition N_SENSITIVE :: u32 where "N_SENSITIVE = 15"
definition T_MIN_SECS :: nat where "T_MIN_SECS = 5"
definition T_MAX_SECS :: nat where "T_MAX_SECS = 30"
definition REP_WEIGHTED_THRESHOLD :: f64 where "REP_WEIGHTED_THRESHOLD = f64_round (6 / 10)"
definition RATE_WINDOW_SECS :: nat where "RATE_WINDOW_SECS = 3600"

section \<open>Time\<close>

type_synonym system_time = int
type_synonym duration = nat

definition from_secs :: "nat \<Rightarrow> duration" where
  "from_secs s = s * 10 ^ 9"

text \<open>\<open>checked_sub\<close> fails when the seconds leave the range of an \<open>i64\<close>.\<close>

definition checked_sub :: "system_time \<Rightarrow> duration \<Rightarrow> system_time option" where
  "checked_sub t d = (if t - int d < - (2 ^ 63 * 10 ^ 9) then None else Some (t - int d))"

section \<open>The limiter\<close>

record rate_limit =
  rl_window :: duration
  rl_cap_fraction :: f64
  rl_observed :: "system_time list"
  rl_own :: "system_time list"

definition rate_limit_with :: "duration \<Rightarrow> f64 \<Rightarrow> rate_limit" where
  "rate_limit_with w c = \<lparr>rl_window = w, rl_cap_fraction = c, rl_observed = [], rl_own = []\<rparr>"

definition v0_2_defaults :: rate_limit where
  "v0_2_defaults = rate_limit_with (from_secs RATE_WINDOW_SECS) RATE_CAP_PER_HOUR"

definition cutoff :: "rate_limit \<Rightarrow> system_time \<Rightarrow> system_time" where
  "cutoff r now = (case checked_sub now (rl_window r) of None \<Rightarrow> 0 | Some t \<Rightarrow> t)"

definition evict_before :: "rate_limit \<Rightarrow> system_time \<Rightarrow> rate_limit" where
  "evict_before r now =
     r\<lparr>rl_observed := dropWhile (\<lambda>t. t < cutoff r now) (rl_observed r),
       rl_own := dropWhile (\<lambda>t. t < cutoff r now) (rl_own r)\<rparr>"

definition record_observed_task_at :: "rate_limit \<Rightarrow> system_time \<Rightarrow> rate_limit" where
  "record_observed_task_at r now = evict_before (r\<lparr>rl_observed := rl_observed r @ [now]\<rparr>) now"

definition record_own_verification_at :: "rate_limit \<Rightarrow> system_time \<Rightarrow> rate_limit" where
  "record_own_verification_at r now = evict_before (r\<lparr>rl_own := rl_own r @ [now]\<rparr>) now"

definition counts_at :: "rate_limit \<Rightarrow> system_time \<Rightarrow> u32 \<times> u32" where
  "counts_at r now =
     (of_nat (length (filter (\<lambda>t. cutoff r now \<le> t) (rl_observed r))),
      of_nat (length (filter (\<lambda>t. cutoff r now \<le> t) (rl_own r))))"

definition exceeded_at :: "rate_limit \<Rightarrow> system_time \<Rightarrow> bool" where
  "exceeded_at r now =
     (let (observed, own) = counts_at r now
      in f64_div (f64_of_nat (unat own)) (f64_of_nat (unat (max observed 1))) > rl_cap_fraction r)"

section \<open>The ten-per-cent cap is exact\<close>

lemma cap_double_between:
  "f64_round (1 / 10) < 109951162778 / 1099511627776" "f64_round (109951162778 / 1099511627776) = 109951162778 / 1099511627776"
proof -
  show "f64_round (1 / 10) < 109951162778 / 1099511627776" by code_simp
  show "f64_round (109951162778 / 1099511627776) = 109951162778 / 1099511627776"
    using f64_round_exact [of 109951162778 "- 40"] by (simp add: pow2_def)
qed

lemma f64_ratio_gt_cap:
  assumes "0 < m" and "m < 2 ^ 32" and "n < 2 ^ 32"
  shows "RATE_CAP_PER_HOUR < f64_div (f64_of_nat n) (f64_of_nat m) \<longleftrightarrow> m < 10 * n"
proof
  assume "m < 10 * n"
  then have "1 + m \<le> 10 * n" by simp
  then have "of_nat (1 + m) \<le> (of_nat (10 * n) :: rat)" by (rule of_nat_mono)
  then have le: "(1 + of_nat m :: rat) \<le> 10 * of_nat n" by simp
  have "of_nat m < (of_nat (2 ^ 32) :: rat)" using assms(2) by (simp only: of_nat_less_iff)
  then have m: "(of_nat m :: rat) < 2 ^ 32" "(0::rat) < of_nat m" using assms(1) by simp_all
  have "109951162778 / 1099511627776 * of_nat m \<le> (of_nat n :: rat)"
    using le m by simp
  then have "109951162778 / 1099511627776 \<le> (of_nat n / of_nat m :: rat)"
    using m(2) by (simp add: pos_le_divide_eq)
  with cap_double_between have "f64_round (1 / 10) < f64_round (of_nat n / of_nat m)"
    by (intro f64_round_less [of _ "109951162778 / 1099511627776"]) simp_all
  then show "RATE_CAP_PER_HOUR < f64_div (f64_of_nat n) (f64_of_nat m)"
    using assms by (simp add: RATE_CAP_PER_HOUR_def f64_div_def f64_of_nat_exact)
next
  assume less: "RATE_CAP_PER_HOUR < f64_div (f64_of_nat n) (f64_of_nat m)"
  show "m < 10 * n"
  proof (rule ccontr)
    assume "\<not> m < 10 * n"
    then have "10 * (of_nat n :: rat) \<le> of_nat m"
      by (metis linorder_not_less of_nat_le_iff of_nat_mult of_nat_numeral)
    then have "of_nat n / of_nat m \<le> (1 / 10 :: rat)" using assms by (simp add: field_simps)
    then have "f64_round (of_nat n / of_nat m) \<le> f64_round (1 / 10)"
      by (intro f64.fl_mono) simp_all
    with less assms show False
      by (simp add: RATE_CAP_PER_HOUR_def f64_div_def f64_of_nat_exact)
  qed
qed

text \<open>
  C22. The rate cap is exact in floating point: with the V0.2 cap of 10% the limiter reports
  \<open>exceeded\<close> exactly when ten times the node's own verifications in the window exceed the
  observed tasks (counted as at least one), for every count a \<open>u32\<close> can hold.
\<close>

theorem exceeded_iff_ten_percent:
  assumes "rl_cap_fraction r = RATE_CAP_PER_HOUR"
  shows "exceeded_at r now \<longleftrightarrow>
    max (unat (fst (counts_at r now))) 1 < 10 * unat (snd (counts_at r now))"
proof -
  obtain b w where c: "counts_at r now = (b, w)" by fastforce
  have u: "unat (max b 1) = max (unat b) 1" for b :: u32
    by (simp add: max_def word_le_nat_alt)
  have "unat b < 2 ^ 32" "unat w < 2 ^ 32" using unsigned_less [of b] unsigned_less [of w] by simp_all
  then show ?thesis
    using f64_ratio_gt_cap [of "max (unat b) 1" "unat w"] assms
    by (simp add: exceeded_at_def c u)
qed

theorem exceeded_iff_ten_percent_witness:
  "rl_cap_fraction (record_own_verification_at v0_2_defaults 7) = RATE_CAP_PER_HOUR \<and>
   exceeded_at (record_own_verification_at v0_2_defaults 7) 7"
proof -
  have cap: "rl_cap_fraction (record_own_verification_at v0_2_defaults 7) = RATE_CAP_PER_HOUR"
    by (simp add: record_own_verification_at_def evict_before_def v0_2_defaults_def rate_limit_with_def)
  have "counts_at (record_own_verification_at v0_2_defaults 7) 7 = (0, 1)"
    by (simp add: counts_at_def record_own_verification_at_def evict_before_def v0_2_defaults_def
        rate_limit_with_def cutoff_def checked_sub_def from_secs_def RATE_WINDOW_SECS_def)
  with exceeded_iff_ten_percent [OF cap, of 7] cap show ?thesis by simp
qed

end
