(* ===== verification/Verifier.thy ===== *)
theory Verifier
  imports Rate_Limit Outcome
begin

text \<open>
  The verifier of \<open>server/parseh-verify/src/\<close>: self-selection (\<open>selection.rs\<close>), the verifier
  methods (\<open>methods.rs\<close>) and the pipeline from selection to a signed attestation
  (\<open>verifier.rs\<close>). The local executor, a trait the host implements, is a parameter; the clock
  readings are arguments.
\<close>

unbundle bit_operations_syntax

section \<open>Self-selection\<close>

record selection_config =
  sc_local_peer_id :: peer_id
  sc_local_reputation :: u32
  sc_network_avg_reputation :: u32
  sc_rate_limit :: rate_limit
  sc_already_verified_this_task :: bool

datatype skip_reason = BelowProbationary | RateLimited | RandomNotChosen | OwnTask | AlreadyVerified

datatype selection_decision = SelVerify | SelSkip skip_reason

definition to_le_bytes :: "u64 \<Rightarrow> bytes" where
  "to_le_bytes n = map (\<lambda>i. ucast (drop_bit (8 * i) n)) [0..<8]"

fun from_le_bytes :: "bytes \<Rightarrow> nat" where
  "from_le_bytes [] = 0"
| "from_le_bytes (b # bs) = unat b + 256 * from_le_bytes bs"

definition roll_from_seed :: "prims \<Rightarrow> u64 \<Rightarrow> peer_id \<Rightarrow> f64" where
  "roll_from_seed P seed local_peer_id =
     (let digest = sha256 P (to_le_bytes seed @ peer_bytes local_peer_id);
          n = from_le_bytes (take 8 digest)
      in f64_div (f64_of_nat n) (f64_round (f64_of_nat (2 ^ 64 - 1) + 1)))"

definition p_node :: "selection_config \<Rightarrow> f64" where
  "p_node cfg =
     (let rep_ratio = f64_div (f64_of_nat (unat (sc_local_reputation cfg)))
                              (f64_of_nat (unat (max (sc_network_avg_reputation cfg) 1)))
      in f64_clamp P_MIN P_MAX (f64_mul P_BASE rep_ratio))"

definition decide_to_verify ::
    "prims \<Rightarrow> system_time \<Rightarrow> selection_config \<Rightarrow> job_spec \<Rightarrow> job_result \<Rightarrow> u64 \<Rightarrow> selection_decision" where
  "decide_to_verify P now cfg task result seed =
     (if js_submitter task = sc_local_peer_id cfg then SelSkip OwnTask
      else if jr_executor result = sc_local_peer_id cfg then SelSkip OwnTask
      else if sc_already_verified_this_task cfg then SelSkip AlreadyVerified
      else if sc_local_reputation cfg < PROBATIONARY_REP_FLOOR then SelSkip BelowProbationary
      else if exceeded_at (sc_rate_limit cfg) now then SelSkip RateLimited
      else if roll_from_seed P seed (sc_local_peer_id cfg) < p_node cfg then SelVerify
      else SelSkip RandomNotChosen)"

section \<open>Verifier methods\<close>

text \<open>The texts inside \<open>VerifyError::Internal\<close> are kept as their cause.\<close>

datatype internal_cause =
    ResultHashMismatch chash chash
  | BadVerificationSignature sign_error
  | DuplicateVerifier peer_id
  | InternalText string

datatype verify_error =
    Execution string
  | MethodNotImplementedInV0_2
  | ModelUnavailable string
  | SeedMissing
  | Internal internal_cause

record verification_outcome =
  vo_matched :: bool
  vo_evidence_hash :: "chash option"

type_synonym local_executor = "job_spec \<Rightarrow> verify_error + bytes"
type_synonym method_impl = "job_spec \<Rightarrow> job_result \<Rightarrow> verify_error + verification_outcome"

definition deterministic_verify :: "prims \<Rightarrow> local_executor \<Rightarrow> method_impl" where
  "deterministic_verify P execute spec result =
     (if js_kind spec = JobInference \<and> ji_seed (js_inputs spec) = None then Inl SeedMissing
      else bind_result (execute spec) (\<lambda>local_payload.
        if local_payload = jr_result_payload result
        then Inr \<lparr>vo_matched = True, vo_evidence_hash = None\<rparr>
        else Inr \<lparr>vo_matched = False, vo_evidence_hash = Some (content_hash P local_payload)\<rparr>))"

definition spot_check_verify :: method_impl where
  "spot_check_verify spec result = Inl MethodNotImplementedInV0_2"

definition statistical_verify :: method_impl where
  "statistical_verify spec result = Inl MethodNotImplementedInV0_2"

section \<open>The pipeline\<close>

datatype verify_outcome =
    VOAgreed job_verification
  | VODisagreed job_verification
  | VOAbstained job_verification
  | VOSkipped skip_reason

record verifier =
  vr_local_peer_id :: peer_id
  vr_local_signing_key :: bytes
  vr_selection_config :: selection_config

definition sign_abstained :: "prims \<Rightarrow> verifier \<Rightarrow> u64 \<Rightarrow> chash \<Rightarrow> job_verification" where
  "sign_abstained P V t result_hash =
     fst (verification_new_signed_at P result_hash (vr_local_peer_id V) Abstained Deterministic t
       (vr_local_signing_key V))"

definition verify_task ::
    "prims \<Rightarrow> system_time \<Rightarrow> u64 \<Rightarrow> verifier \<Rightarrow> job_spec \<Rightarrow> job_result \<Rightarrow> method_impl \<Rightarrow> u64
     \<Rightarrow> verify_outcome" where
  "verify_task P now t V spec result method seed =
     (case decide_to_verify P now (vr_selection_config V) spec result seed of
        SelSkip reason \<Rightarrow> VOSkipped reason
      | SelVerify \<Rightarrow>
        (case method spec result of
           Inl MethodNotImplementedInV0_2 \<Rightarrow> VOAbstained (sign_abstained P V t (result_content_hash P result))
         | Inl SeedMissing \<Rightarrow> VOAbstained (sign_abstained P V t (result_content_hash P result))
         | Inl (ModelUnavailable model) \<Rightarrow> VOAbstained (sign_abstained P V t (result_content_hash P result))
         | Inl _ \<Rightarrow> VOSkipped RandomNotChosen
         | Inr outcome \<Rightarrow>
           (let verdict = (if vo_matched outcome then Agreed
                else Disagreed (case vo_evidence_hash outcome of None \<Rightarrow> zero_hash | Some h \<Rightarrow> h));
              v = fst (verification_new_signed_at P (result_content_hash P result)
                (vr_local_peer_id V) verdict Deterministic t (vr_local_signing_key V))
            in if vo_matched outcome then VOAgreed v else VODisagreed v)))"

lemma verification_new_signed_fields [simp]:
  "jv_result_hash (fst (verification_new_signed_at P h p vd md t k)) = h"
  "jv_verifier (fst (verification_new_signed_at P h p vd md t k)) = p"
  "jv_verdict (fst (verification_new_signed_at P h p vd md t k)) = vd"
  by (simp_all add: verification_new_signed_at_def Let_def)

section \<open>The roll\<close>

lemma from_le_bytes_bound: "from_le_bytes bs < 256 ^ length bs"
proof (induction bs)
  case (Cons b bs)
  have "unat b < 256" using unsigned_less [of b, where ?'a = nat] by simp
  with Cons show ?case by simp
qed simp

lemma u64_max_as_f64: "f64_round (f64_of_nat (2 ^ 64 - 1) + 1) = 2 ^ 64"
proof -
  have i: "ilog2 (18446744073709551615 :: rat) = 63" by (rule ilog2_unique) (simp_all add: pow2_def)
  have "round_half_even (18446744073709551615 / 2048) = 9007199254740992"
    by (rule round_half_even_nearest) simp_all
  then have "f64_of_nat (2 ^ 64 - 1) = 2 ^ 64"
    by (simp add: f64_of_nat_def f64_round_def round_pos_def i pow2_def Let_def)
  moreover have "ilog2 (18446744073709551617 :: rat) = 64" by (rule ilog2_unique) (simp_all add: pow2_def)
  moreover have "round_half_even (18446744073709551617 / 4096) = 4503599627370496"
    by (rule round_half_even_nearest) simp_all
  ultimately show ?thesis
    by (simp add: f64_round_def round_pos_def pow2_def Let_def)
qed

lemma digest_prefix_bound: "from_le_bytes (take 8 bs) < 2 ^ 64"
proof -
  have "from_le_bytes (take 8 bs) < 256 ^ length (take 8 bs)" by (rule from_le_bytes_bound)
  also have "\<dots> \<le> (256::nat) ^ 8" by (rule power_increasing) simp_all
  finally show ?thesis by simp
qed

lemma roll_eq:
  "roll_from_seed P seed p =
     f64_round (f64_of_nat (from_le_bytes (take 8 (sha256 P (to_le_bytes seed @ peer_bytes p)))) / 2 ^ 64)"
  by (simp only: roll_from_seed_def Let_def f64_div_def u64_max_as_f64)

lemma roll_unit: "0 \<le> roll_from_seed P seed p \<and> roll_from_seed P seed p \<le> 1"
proof -
  let ?n = "from_le_bytes (take 8 (sha256 P (to_le_bytes seed @ peer_bytes p)))"
  have "?n \<le> 2 ^ 64" by (rule less_imp_le) (rule digest_prefix_bound)
  then have "f64_of_nat ?n \<le> f64_of_nat (2 ^ 64)" by (rule f64_of_nat_mono)
  also have "\<dots> = 2 ^ 64"
    using f64_round_pow2 [of 64] by (simp add: f64_of_nat_def pow2_def)
  finally show ?thesis unfolding roll_eq by (intro f64.fl_unit) simp_all
qed

lemma f64_of_nat_top:
  "f64_of_nat 18446744073709550592 = 2 ^ 64" "f64_of_nat 18446744073709550591 = 18446744073709549568"
proof -
  have "ilog2 (18446744073709550592 :: rat) = 63" "ilog2 (18446744073709550591 :: rat) = 63"
    by (rule ilog2_unique; simp add: pow2_def)+
  moreover have "round_half_even (18446744073709550591 / 2048) = 9007199254740991"
    by (rule round_half_even_nearest) simp_all
  moreover have "\<lfloor>18446744073709550592 / 2048 :: rat\<rfloor> = 9007199254740991"
    by (simp add: floor_eq_iff)
  then have "round_half_even (18446744073709550592 / 2048) = 9007199254740992"
    by (simp add: round_half_even_def Let_def)
  ultimately show "f64_of_nat 18446744073709550592 = 2 ^ 64"
    "f64_of_nat 18446744073709550591 = 18446744073709549568"
    by (simp_all add: f64_of_nat_def f64_round_def round_pos_def pow2_def Let_def)
qed

lemma f64_of_u64_rounds_up:
  assumes "n < 2 ^ 64"
  shows "f64_of_nat n = 2 ^ 64 \<longleftrightarrow> 2 ^ 64 - 1024 \<le> n"
    and "\<not> 2 ^ 64 - 1024 \<le> n \<Longrightarrow> f64_of_nat n \<le> 18446744073709549568"
proof -
  show le: "f64_of_nat n \<le> 18446744073709549568" if "\<not> 2 ^ 64 - 1024 \<le> n"
    using f64_of_nat_mono [of n 18446744073709550591] that by (simp add: f64_of_nat_top)
  show "f64_of_nat n = 2 ^ 64 \<longleftrightarrow> 2 ^ 64 - 1024 \<le> n"
  proof
    assume big: "2 ^ 64 - 1024 \<le> n"
    have "f64_of_nat n \<le> f64_of_nat (2 ^ 64)" using assms by (intro f64_of_nat_mono) simp
    moreover have "f64_of_nat (2 ^ 64) = 2 ^ 64"
      using f64_round_pow2 [of 64] by (simp add: f64_of_nat_def pow2_def)
    moreover have "f64_of_nat 18446744073709550592 \<le> f64_of_nat n"
      using big by (intro f64_of_nat_mono) simp
    ultimately show "f64_of_nat n = 2 ^ 64" by (simp only: f64_of_nat_top order.antisym)
  next
    assume "f64_of_nat n = 2 ^ 64"
    with le show "2 ^ 64 - 1024 \<le> n" by fastforce
  qed
qed

section \<open>Properties\<close>

text \<open>
  The selection roll lies in the closed unit interval, and it is exactly 1 when the first
  eight digest bytes read as at least \<open>2^64 - 1024\<close> (the conversion to \<open>f64\<close> rounds up), so the
  interval is not half-open.
\<close>

theorem roll_range:
  "0 \<le> roll_from_seed P seed p \<and> roll_from_seed P seed p \<le> 1 \<and>
   (roll_from_seed P seed p = 1 \<longleftrightarrow>
      2 ^ 64 - 1024 \<le> from_le_bytes (take 8 (sha256 P (to_le_bytes seed @ peer_bytes p))))"
proof (intro conjI)
  let ?n = "from_le_bytes (take 8 (sha256 P (to_le_bytes seed @ peer_bytes p)))"
  note b = f64_of_u64_rounds_up [OF digest_prefix_bound [of "sha256 P (to_le_bytes seed @ peer_bytes p)"]]
  show "0 \<le> roll_from_seed P seed p" "roll_from_seed P seed p \<le> 1" using roll_unit by auto
  show "roll_from_seed P seed p = 1 \<longleftrightarrow> 2 ^ 64 - 1024 \<le> ?n"
  proof
    assume one: "roll_from_seed P seed p = 1"
    show "2 ^ 64 - 1024 \<le> ?n"
    proof (rule ccontr)
      assume "\<not> 2 ^ 64 - 1024 \<le> ?n"
      then have "f64_of_nat ?n / 2 ^ 64 \<le> of_int 9007199254740991 * pow2 (- 53)"
        using b(2) by (simp add: pow2_def)
      then have "f64_round (f64_of_nat ?n / 2 ^ 64) \<le> f64_round (of_int 9007199254740991 * pow2 (- 53))"
        by (intro f64.fl_mono) simp_all
      also have "\<dots> = of_int 9007199254740991 * pow2 (- 53)"
        by (rule f64_round_exact) simp_all
      finally show False using one by (simp add: roll_eq pow2_def)
    qed
  next
    assume "2 ^ 64 - 1024 \<le> ?n"
    with b(1) have "f64_of_nat ?n / 2 ^ 64 = 1" by simp
    then show "roll_from_seed P seed p = 1" unfolding roll_eq by (simp only: f64.fl_1)
  qed
qed

lemma P_bounds: "0 \<le> P_MIN" "P_MIN \<le> P_MAX" "P_MAX = 1 / 2" "0 \<le> P_BASE"
  using f64_round_pow2 [of "- 1"]
  by (simp_all add: P_MIN_def P_MAX_def P_BASE_def f64.fl_nonneg f64.fl_mono pow2_def)

lemma p_node_bounds: "P_MIN \<le> p_node cfg \<and> p_node cfg \<le> P_MAX"
  unfolding p_node_def Let_def by (rule f64_clamp_bounds) (rule P_bounds)

lemma p_node_mono:
  assumes "sc_local_reputation c \<le> r"
  shows "p_node c \<le> p_node (c\<lparr>sc_local_reputation := r\<rparr>)"
proof -
  let ?a = "f64_of_nat (unat (max (sc_network_avg_reputation c) 1))"
  have "f64_of_nat (unat (sc_local_reputation c)) \<le> f64_of_nat (unat r)"
    using assms by (simp add: f64_of_nat_mono word_le_nat_alt)
  then have "f64_div (f64_of_nat (unat (sc_local_reputation c))) ?a \<le> f64_div (f64_of_nat (unat r)) ?a"
    unfolding f64_div_def by (intro f64.fl_mono divide_right_mono) simp_all
  then have "f64_mul P_BASE (f64_div (f64_of_nat (unat (sc_local_reputation c))) ?a)
      \<le> f64_mul P_BASE (f64_div (f64_of_nat (unat r)) ?a)"
    unfolding f64_mul_def
    by (intro f64.fl_mono mult_left_mono mult_nonneg_nonneg)
      (simp_all add: P_bounds f64_div_def f64.fl_nonneg)
  then show ?thesis using P_bounds by (auto simp: p_node_def Let_def f64_clamp_def)
qed

definition eligible :: "system_time \<Rightarrow> selection_config \<Rightarrow> job_spec \<Rightarrow> job_result \<Rightarrow> bool" where
  "eligible now cfg task result \<longleftrightarrow>
     js_submitter task \<noteq> sc_local_peer_id cfg \<and> jr_executor result \<noteq> sc_local_peer_id cfg \<and>
     \<not> sc_already_verified_this_task cfg \<and> 10 \<le> sc_local_reputation cfg \<and>
     \<not> exceeded_at (sc_rate_limit cfg) now"

lemma decide_iff:
  "decide_to_verify P now cfg task result seed = SelVerify \<longleftrightarrow>
     eligible now cfg task result \<and> roll_from_seed P seed (sc_local_peer_id cfg) < p_node cfg"
  by (auto simp: decide_to_verify_def eligible_def PROBATIONARY_REP_FLOOR_def not_less)

section \<open>A concrete verifier\<close>

definition demo_spec :: job_spec where
  "demo_spec = \<lparr>js_wire_version = 1, js_kind = JobInference, js_inputs = inference_prompt ''hi'' 3,
     js_service = SvcInference, js_sensitive = False, js_submitted_at = 1, js_submitter = PeerId [1],
     js_signature = []\<rparr>"

definition demo_result :: job_result where
  "demo_result = \<lparr>jr_wire_version = 1, jr_spec_hash = zero_hash, jr_executor = PeerId [2],
     jr_executed_at = 2, jr_result_meta = demo_meta, jr_result_payload = [5], jr_signature = []\<rparr>"

definition demo_config :: selection_config where
  "demo_config = \<lparr>sc_local_peer_id = PeerId [3], sc_local_reputation = 20,
     sc_network_avg_reputation = 20, sc_rate_limit = v0_2_defaults,
     sc_already_verified_this_task = False\<rparr>"

definition demo_verifier :: verifier where
  "demo_verifier = \<lparr>vr_local_peer_id = PeerId [3], vr_local_signing_key = [7],
     vr_selection_config = demo_config\<rparr>"

lemma fresh_limiter_not_exceeded: "\<not> exceeded_at v0_2_defaults t"
  using f64.fl_nonneg [of "1 / 10"]
  by (simp add: exceeded_at_def counts_at_def v0_2_defaults_def rate_limit_with_def Let_def
      RATE_CAP_PER_HOUR_def f64_div_def f64_of_nat_def f64.fl_0 not_less)

lemma demo_eligible: "eligible now demo_config demo_spec demo_result"
  by (simp add: eligible_def demo_config_def demo_spec_def demo_result_def fresh_limiter_not_exceeded)

lemma demo_roll: "roll_from_seed demo_prims 0 (PeerId [3]) = 0"
  by (simp add: roll_eq demo_prims_def to_le_bytes_def pad_def upt_rec f64_of_nat_def f64.fl_0)

lemma P_MIN_pos: "0 < P_MIN"
proof -
  have "pow2 (- 10) \<le> 1 / 1000" by (simp add: pow2_def)
  then have "f64_round (pow2 (- 10)) \<le> P_MIN"
    unfolding P_MIN_def using less_imp_le [OF pow2_pos [of "- 10"]] by (intro f64.fl_mono)
  then show ?thesis unfolding f64_round_pow2 by (rule order_less_le_trans [OF pow2_pos])
qed

lemma demo_selected: "decide_to_verify demo_prims now demo_config demo_spec demo_result 0 = SelVerify"
  using demo_eligible demo_roll P_MIN_pos p_node_bounds [of demo_config]
  by (simp add: decide_iff) (simp add: demo_config_def)

text \<open>
  Self-selection: a node that decides to verify is neither the submitter nor the executor, has
  not verified the result before, has reputation at least 10, is inside its rate cap, and its
  roll is below one half; and an eligible node whose roll is below the floor probability always
  verifies, whatever its reputation.
\<close>

theorem selection_sound:
  "(decide_to_verify P now cfg task result seed = SelVerify \<longrightarrow>
      eligible now cfg task result \<and> roll_from_seed P seed (sc_local_peer_id cfg) < 1 / 2) \<and>
   (eligible now cfg task result \<and> roll_from_seed P seed (sc_local_peer_id cfg) < P_MIN \<longrightarrow>
      decide_to_verify P now cfg task result seed = SelVerify)"
  using p_node_bounds [of cfg] P_bounds(3) by (auto simp: decide_iff)

theorem selection_sound_witness:
  "eligible 0 demo_config demo_spec demo_result \<and>
   roll_from_seed demo_prims 0 (sc_local_peer_id demo_config) < P_MIN \<and>
   decide_to_verify demo_prims 0 demo_config demo_spec demo_result 0 = SelVerify"
proof -
  have "roll_from_seed demo_prims 0 (sc_local_peer_id demo_config) < P_MIN"
    using demo_roll P_MIN_pos by (simp add: demo_config_def)
  with demo_eligible [of 0] selection_sound [of demo_prims 0 demo_config demo_spec demo_result 0]
  show ?thesis by simp
qed

text \<open>
  Reputation never counts against a node: with the same seed, task and network average, a
  node selected at reputation \<open>r\<close> is selected at every higher reputation.
\<close>

theorem selection_monotone:
  assumes "decide_to_verify P now cfg task result seed = SelVerify"
    and "sc_local_reputation cfg \<le> r"
  shows "decide_to_verify P now (cfg\<lparr>sc_local_reputation := r\<rparr>) task result seed = SelVerify"
  using assms p_node_mono [OF assms(2)] by (auto simp: decide_iff eligible_def)

theorem selection_monotone_witness:
  "decide_to_verify demo_prims 0 (demo_config\<lparr>sc_local_reputation := 4000\<rparr>) demo_spec demo_result 0 = SelVerify"
  by (rule selection_monotone [OF demo_selected]) (simp add: demo_config_def)

text \<open>
  Honest attestations: with the deterministic method, an \<open>Agreed\<close> outcome means the local
  re-execution reproduced the payload byte for byte, a \<open>Disagreed\<close> one that it produced another
  payload whose hash is the evidence, an \<open>Abstained\<close> one that no payload was obtained; and each
  attestation is bound to the hash of this result, names the local peer and verifies under the
  local key.
\<close>

theorem verify_task_honest:
  assumes "ed25519_ok P"
    and "verify_task P now t V spec result (deterministic_verify P exec) seed \<in>
      {VOAgreed v, VODisagreed v, VOAbstained v}"
  shows "jv_result_hash v = result_content_hash P result \<and> jv_verifier v = vr_local_peer_id V \<and>
    verification_verify_signature P v (ed_public P (vr_local_signing_key V)) = Inr () \<and>
    eligible now (vr_selection_config V) spec result \<and>
    (case jv_verdict v of
       Agreed \<Rightarrow> exec spec = Inr (jr_result_payload result)
     | Disagreed e \<Rightarrow> \<exists>p. exec spec = Inr p \<and> p \<noteq> jr_result_payload result \<and> e = content_hash P p
     | Abstained \<Rightarrow> isl (deterministic_verify P exec spec result))"
proof (cases "deterministic_verify P exec spec result")
  case (Inl e)
  with assms show ?thesis
    by (auto simp: verify_task_def sign_abstained_def verification_new_signed_verifies decide_iff
        split: selection_decision.splits verify_error.splits)
next
  case (Inr x)
  then obtain p where p: "exec spec = Inr p"
      "x = (if p = jr_result_payload result then \<lparr>vo_matched = True, vo_evidence_hash = None\<rparr>
        else \<lparr>vo_matched = False, vo_evidence_hash = Some (content_hash P p)\<rparr>)"
    by (auto simp: deterministic_verify_def bind_result_eq_Inr split: if_splits)
  have sel: "decide_to_verify P now (vr_selection_config V) spec result seed = SelVerify"
    using assms(2) by (auto simp: verify_task_def split: selection_decision.splits)
  with assms Inr p show ?thesis
    by (auto simp: verify_task_def Let_def verification_new_signed_verifies decide_iff split: if_splits)
qed

theorem verify_task_honest_witness:
  "\<exists>v. verify_task demo_prims 0 9 demo_verifier demo_spec demo_result
         (deterministic_verify demo_prims (\<lambda>_. Inr [6])) 0 = VODisagreed v \<and>
     jv_verdict v = Disagreed (content_hash demo_prims [6]) \<and>
     jv_result_hash v = result_content_hash demo_prims demo_result \<and>
     verification_verify_signature demo_prims v [7] = Inr ()"
proof -
  let ?v = "fst (verification_new_signed_at demo_prims (result_content_hash demo_prims demo_result)
    (PeerId [3]) (Disagreed (content_hash demo_prims [6])) Deterministic 9 [7])"
  have "deterministic_verify demo_prims (\<lambda>_. Inr [6]) demo_spec demo_result =
      Inr \<lparr>vo_matched = False, vo_evidence_hash = Some (content_hash demo_prims [6])\<rparr>"
    by (simp add: deterministic_verify_def demo_result_def demo_spec_def inference_prompt_def)
  then have v: "verify_task demo_prims 0 9 demo_verifier demo_spec demo_result
         (deterministic_verify demo_prims (\<lambda>_. Inr [6])) 0 = VODisagreed ?v"
    by (simp add: verify_task_def demo_selected demo_verifier_def Let_def)
  show ?thesis
    using v verify_task_honest [OF demo_ok(1), of 0 9 demo_verifier demo_spec demo_result "\<lambda>_. Inr [6]" 0 ?v]
    by (simp add: demo_verifier_def demo_prims_def)
qed

end
