(* ===== verification/Quorum.thy ===== *)
theory Quorum
  imports Verifier
begin

text \<open>
  The M-of-N quorum aggregator of \<open>server/parseh-verify/src/quorum.rs\<close>: one open quorum collects
  signed verifications of one result and finalises into a signed \<open>JobOutcome\<close>. The map
  \<open>by_verifier\<close> is an association list in the iteration order of the code's \<open>HashMap\<close>.
\<close>

section \<open>State\<close>

record quorum_config =
  qc_m :: u32
  qc_n :: u32
  qc_t_min :: duration
  qc_t_max :: duration
  qc_rep_weighted_threshold :: f64

definition quorum_standard :: quorum_config where
  "quorum_standard = \<lparr>qc_m = M_STANDARD, qc_n = N_STANDARD, qc_t_min = from_secs T_MIN_SECS,
     qc_t_max = from_secs T_MAX_SECS, qc_rep_weighted_threshold = REP_WEIGHTED_THRESHOLD\<rparr>"

definition quorum_sensitive :: quorum_config where
  "quorum_sensitive = \<lparr>qc_m = M_SENSITIVE, qc_n = N_SENSITIVE, qc_t_min = from_secs T_MIN_SECS,
     qc_t_max = from_secs T_MAX_SECS, qc_rep_weighted_threshold = REP_WEIGHTED_THRESHOLD\<rparr>"

datatype quorum_decision = StillOpen | DecAgreed | DecDisagreed | DecDisputed | DecIndeterminate

record finalised_quorum =
  fq_decision :: quorum_decision
  fq_outcome :: job_outcome
  fq_agreements :: u32
  fq_disagreements :: u32
  fq_abstentions :: u32
  fq_reputation_weighted :: f64

record stored_verification =
  sv_verification :: job_verification
  sv_reputation :: u32

record quorum =
  q_config :: quorum_config
  q_result_hash :: chash
  q_spec_hash :: chash
  q_started_at :: system_time
  q_by_verifier :: "(peer_id \<times> stored_verification) list"

section \<open>Operations\<close>

definition quorum_new :: "quorum_config \<Rightarrow> chash \<Rightarrow> chash \<Rightarrow> system_time \<Rightarrow> quorum" where
  "quorum_new config spec_hash result_hash started_at =
     \<lparr>q_config = config, q_result_hash = result_hash, q_spec_hash = spec_hash,
      q_started_at = started_at, q_by_verifier = []\<rparr>"

definition quorum_len :: "quorum \<Rightarrow> nat" where
  "quorum_len q = length (q_by_verifier q)"

definition quorum_is_empty :: "quorum \<Rightarrow> bool" where
  "quorum_is_empty q = (q_by_verifier q = [])"

definition add_verification ::
    "prims \<Rightarrow> quorum \<Rightarrow> job_verification \<Rightarrow> u32 \<Rightarrow> bytes \<Rightarrow> verify_error + quorum" where
  "add_verification P q v rep vk =
     (if jv_result_hash v \<noteq> q_result_hash q
      then Inl (Internal (ResultHashMismatch (q_result_hash q) (jv_result_hash v)))
      else case verification_verify_signature P v vk of
        Inl e \<Rightarrow> Inl (Internal (BadVerificationSignature e))
      | Inr _ \<Rightarrow>
        (if map_of (q_by_verifier q) (jv_verifier v) \<noteq> None
         then Inl (Internal (DuplicateVerifier (jv_verifier v)))
         else Inr (q\<lparr>q_by_verifier := AList.update (jv_verifier v)
                \<lparr>sv_verification = v, sv_reputation = rep\<rparr> (q_by_verifier q)\<rparr>)))"

type_synonym tally_state = "u32 \<times> u32 \<times> u32 \<times> u64 \<times> u64"

fun tally_step :: "tally_state \<Rightarrow> stored_verification \<Rightarrow> tally_state" where
  "tally_step (agreed, disagreed, abstained, agreed_rep, disagreed_rep) s =
     (case jv_verdict (sv_verification s) of
        Agreed \<Rightarrow> (agreed + 1, disagreed, abstained,
          saturating_add agreed_rep (ucast (sv_reputation s)), disagreed_rep)
      | Disagreed e \<Rightarrow> (agreed, disagreed + 1, abstained, agreed_rep,
          saturating_add disagreed_rep (ucast (sv_reputation s)))
      | Abstained \<Rightarrow> (agreed, disagreed, abstained + 1, agreed_rep, disagreed_rep))"

definition tally :: "quorum \<Rightarrow> u32 \<times> u32 \<times> u32 \<times> f64" where
  "tally q =
     (let (agreed, disagreed, abstained, agreed_rep, disagreed_rep) =
            foldl tally_step (0, 0, 0, 0, 0) (map snd (q_by_verifier q));
          total_rep = agreed_rep + disagreed_rep;
          rep_weighted = (if total_rep = 0 then 0
            else f64_div (f64_of_nat (unat agreed_rep)) (f64_of_nat (unat total_rep)))
      in (agreed, disagreed, abstained, rep_weighted))"

definition collect_disputers :: "quorum \<Rightarrow> peer_id list" where
  "collect_disputers q =
     (let (agreed, disagreed, _, _) = tally q;
          minority_is_disagreed = (disagreed \<le> agreed);
          is_minority = (\<lambda>s. case jv_verdict (sv_verification s) of
            Agreed \<Rightarrow> \<not> minority_is_disagreed
          | Disagreed e \<Rightarrow> minority_is_disagreed
          | Abstained \<Rightarrow> False)
      in sort_key peer_bytes (remdups (map (\<lambda>s. jv_verifier (sv_verification s))
           (filter is_minority (map snd (q_by_verifier q))))))"

definition elapsed_since :: "system_time \<Rightarrow> system_time \<Rightarrow> duration" where
  "elapsed_since now started_at = nat (now - started_at)"

definition try_finalise ::
    "prims \<Rightarrow> quorum \<Rightarrow> system_time \<Rightarrow> u64 \<Rightarrow> peer_id \<Rightarrow> bytes \<Rightarrow> finalised_quorum option" where
  "try_finalise P q now finalised_at observer key =
     (let elapsed = elapsed_since now (q_started_at q);
          (agreed, disagreed, abstained, rep_weighted) = tally q
      in if elapsed < qc_t_min (q_config q) then None
      else let m = qc_m (q_config q);
          thresh = qc_rep_weighted_threshold (q_config q);
          agreed_quorum = (m \<le> agreed \<and> thresh \<le> rep_weighted);
          disagreed_quorum = (m \<le> disagreed \<and> thresh \<le> f64_sub 1 rep_weighted);
          half_m = max (m div 2) 1;
          split = (half_m \<le> agreed \<and> half_m \<le> disagreed);
          decision =
            (if agreed_quorum then DecAgreed
             else if disagreed_quorum then DecDisagreed
             else if qc_t_max (q_config q) \<le> elapsed then (if split then DecDisputed else DecIndeterminate)
             else StillOpen)
      in if decision = StillOpen then None
      else let hashes = remdups_adj (sort_key hash_bytes
                 (map (\<lambda>e. verification_content_hash P (sv_verification (snd e))) (q_by_verifier q)));
          verdict = (case decision of
              DecDisputed \<Rightarrow> Disputed (collect_disputers q)
            | DecIndeterminate \<Rightarrow> Indeterminate
            | _ \<Rightarrow> Valid agreed disagreed abstained rep_weighted)
      in Some \<lparr>fq_decision = decision,
           fq_outcome = fst (outcome_new_signed_at P (q_spec_hash q) (q_result_hash q) hashes verdict
             finalised_at observer key),
           fq_agreements = agreed, fq_disagreements = disagreed, fq_abstentions = abstained,
           fq_reputation_weighted = rep_weighted\<rparr>)"

section \<open>The tally in closed form\<close>

definition is_agreed :: "stored_verification \<Rightarrow> bool" where
  "is_agreed s \<longleftrightarrow> jv_verdict (sv_verification s) = Agreed"

definition is_disagreed :: "stored_verification \<Rightarrow> bool" where
  "is_disagreed s \<longleftrightarrow> (\<exists>e. jv_verdict (sv_verification s) = Disagreed e)"

definition is_abstained :: "stored_verification \<Rightarrow> bool" where
  "is_abstained s \<longleftrightarrow> jv_verdict (sv_verification s) = Abstained"

definition rep_sum :: "(stored_verification \<Rightarrow> bool) \<Rightarrow> stored_verification list \<Rightarrow> nat" where
  "rep_sum p ss = sum_list (map (\<lambda>s. unat (sv_reputation s)) (filter p ss))"

definition votes :: "(stored_verification \<Rightarrow> bool) \<Rightarrow> stored_verification list \<Rightarrow> nat" where
  "votes p ss = length (filter p ss)"

definition stored :: "quorum \<Rightarrow> stored_verification list" where
  "stored q = map snd (q_by_verifier q)"

definition satu :: "nat \<Rightarrow> u64" where
  "satu n = of_nat (min n (2 ^ 64 - 1))"

lemma unat_satu: "unat (satu n) = min n (2 ^ 64 - 1)"
  by (simp add: satu_def unat_of_nat min_def)

lemma saturating_add_satu: "saturating_add (satu x) (ucast (r :: u32)) = satu (x + unat r)"
proof -
  have "unat (ucast r :: u64) = unat r" 
    using unsigned_less [of r, where ?'a = nat] by (simp add: unsigned_ucast_eq take_bit_nat_eq_self)
  then have "unat (saturating_add (satu x) (ucast r)) = unat (satu (x + unat r))"
    by (simp add: unat_saturating_add unat_satu)
  then show ?thesis by (rule unsigned_word_eqI)
qed

lemma tally_fold:
  "foldl tally_step (of_nat a, of_nat d, of_nat b, satu x, satu y) ss =
     (of_nat (a + votes is_agreed ss), of_nat (d + votes is_disagreed ss),
      of_nat (b + votes is_abstained ss), satu (x + rep_sum is_agreed ss),
      satu (y + rep_sum is_disagreed ss))"
proof (induction ss arbitrary: a d b x y)
  case (Cons s ss)
  have suc: "of_nat n + 1 = (of_nat (Suc n) :: u32)" for n by simp
  show ?case
    by (cases "jv_verdict (sv_verification s)")
      (simp_all only: foldl_Cons tally_step.simps verifier_verdict.case suc saturating_add_satu Cons.IH,
       simp_all add: votes_def rep_sum_def is_agreed_def is_disagreed_def is_abstained_def add.assoc)
qed (simp add: votes_def rep_sum_def)

definition rep_ratio :: "u64 \<Rightarrow> u64 \<Rightarrow> f64" where
  "rep_ratio ar dr = (if ar + dr = 0 then 0
     else f64_div (f64_of_nat (unat ar)) (f64_of_nat (unat (ar + dr))))"

lemma tally_closed:
  "tally q =
     (of_nat (votes is_agreed (stored q)), of_nat (votes is_disagreed (stored q)),
      of_nat (votes is_abstained (stored q)),
      rep_ratio (satu (rep_sum is_agreed (stored q))) (satu (rep_sum is_disagreed (stored q))))"
proof -
  have "(0, 0, 0, 0, 0) = ((of_nat 0, of_nat 0, of_nat 0, satu 0, satu 0) :: tally_state)"
    by (simp add: satu_def)
  then show ?thesis
    unfolding tally_def stored_def [symmetric]
    by (simp only: tally_fold) (simp add: rep_ratio_def Let_def)
qed

lemma votes_mset_cong: "mset ss = mset ss' \<Longrightarrow> votes p ss = votes p ss'"
  by (metis mset_filter size_mset votes_def)

lemma rep_sum_mset_cong: "mset ss = mset ss' \<Longrightarrow> rep_sum p ss = rep_sum p ss'"
  by (simp add: rep_sum_def flip: sum_mset_sum_list)

section \<open>Independence of the iteration order\<close>

lemma sort_hashes_cong:
  "mset xs = mset ys \<Longrightarrow> sort_key hash_bytes xs = sort_key hash_bytes ys"
  by (rule sort_key_mset_cong) (auto simp: inj_on_def chash.expand)

lemma sort_peers_cong:
  assumes "mset xs = mset ys"
  shows "sort_key peer_bytes (remdups xs) = sort_key peer_bytes (remdups ys)"
proof (rule sort_key_mset_cong)
  have "set xs = set ys" using assms by (rule mset_eq_setD)
  then show "mset (remdups xs) = mset (remdups ys)"
    by (simp add: set_eq_iff_mset_remdups_eq)
qed (auto simp: inj_on_def peer_id.expand)

lemma same_votes_same_tally: "mset (q_by_verifier q) = mset (q_by_verifier q') \<Longrightarrow> tally q = tally q'"
proof -
  assume "mset (q_by_verifier q) = mset (q_by_verifier q')"
  then have e: "mset (stored q) = mset (stored q')" by (simp add: stored_def)
  show ?thesis unfolding tally_closed votes_mset_cong [OF e] rep_sum_mset_cong [OF e] by (rule refl)
qed

lemma same_votes_same_disputers:
  assumes "mset (q_by_verifier q) = mset (q_by_verifier q')"
  shows "collect_disputers q = collect_disputers q'"
  unfolding collect_disputers_def same_votes_same_tally [OF assms] Let_def
  by (cases "tally q'") (simp, intro sort_peers_cong, simp add: assms)

lemma same_votes_same_outcome:
  assumes "mset (q_by_verifier q) = mset (q_by_verifier q')" "q_config q = q_config q'"
    "q_result_hash q = q_result_hash q'" "q_spec_hash q = q_spec_hash q'" "q_started_at q = q_started_at q'"
  shows "try_finalise P q now t ob k = try_finalise P q' now t ob k"
proof -
  have h: "sort_key hash_bytes (map (\<lambda>e. verification_content_hash P (sv_verification (snd e))) (q_by_verifier q)) =
      sort_key hash_bytes (map (\<lambda>e. verification_content_hash P (sv_verification (snd e))) (q_by_verifier q'))"
    by (intro sort_hashes_cong) (simp add: assms(1))
  show ?thesis
    unfolding try_finalise_def assms(2-5) same_votes_same_tally [OF assms(1)]
      same_votes_same_disputers [OF assms(1)] h by (rule refl)
qed

section \<open>The reputation thresholds are exact\<close>

text \<open>
  The doubles nearest to 0.6 and 0.4 are complementary, and \<open>42221246506598 / 2^46\<close> is a double
  below 0.6 that separates it from every quotient of numbers below \<open>2^40\<close> that is smaller.
\<close>

lemma six_tenths: "f64_round (6 / 10) = 5404319552844595 / 9007199254740992"
proof -
  have "ilog2 (3 / 5) = - 1" by (rule ilog2_unique) (simp_all add: pow2_def)
  moreover have "round_half_even (27021597764222976 / 5) = 5404319552844595"
    by (rule round_half_even_nearest) simp_all
  ultimately show ?thesis by (simp add: f64_round_def round_pos_def pow2_def Let_def)
qed

lemma four_tenths: "f64_round (4 / 10) = 7205759403792794 / 18014398509481984"
proof -
  have "ilog2 (2 / 5) = - 2" by (rule ilog2_unique) (simp_all add: pow2_def)
  moreover have "round_half_even (36028797018963968 / 5) = 7205759403792794"
    by (rule round_half_even_nearest) simp_all
  ultimately show ?thesis by (simp add: f64_round_def round_pos_def pow2_def Let_def)
qed

lemma separators:
  "f64_round (42221246506598 / 70368744177664) = 42221246506598 / 70368744177664"
  "f64_round (28147497671066 / 70368744177664) = 28147497671066 / 70368744177664"
  "f64_round (5404319552844595 / 9007199254740992) = 5404319552844595 / 9007199254740992"
  using f64_round_exact [of 42221246506598 "- 46"] f64_round_exact [of 28147497671066 "- 46"]
    f64_round_exact [of 5404319552844595 "- 53"]
  by (simp_all add: pow2_def)

lemma ratio_ge_six_tenths:
  fixes a t :: nat
  assumes "0 < t" and "t < 2 ^ 40"
  shows "f64_round (6 / 10) \<le> f64_round (of_nat a / of_nat t) \<longleftrightarrow> 3 * t \<le> 5 * a"
proof
  assume "3 * t \<le> 5 * a"
  then have "of_nat (3 * t) \<le> (of_nat (5 * a) :: rat)" by (rule of_nat_mono)
  then have "6 / 10 \<le> (of_nat a / of_nat t :: rat)" using assms(1) by (simp add: field_simps)
  then show "f64_round (6 / 10) \<le> f64_round (of_nat a / of_nat t)" by (intro f64.fl_mono) simp_all
next
  assume le: "f64_round (6 / 10) \<le> f64_round (of_nat a / of_nat t)"
  show "3 * t \<le> 5 * a"
  proof (rule ccontr)
    assume "\<not> 3 * t \<le> 5 * a"
    then have "5 * a + 1 \<le> 3 * t" by simp
    then have "of_nat (5 * a + 1) \<le> (of_nat (3 * t) :: rat)" by (rule of_nat_mono)
    moreover have "of_nat t < (of_nat (2 ^ 40) :: rat)" using assms(2) by (simp only: of_nat_less_iff)
    ultimately have "of_nat a \<le> (42221246506598 / 70368744177664 * of_nat t :: rat)" by simp
    then have "(of_nat a / of_nat t :: rat) \<le> 42221246506598 / 70368744177664"
      using assms(1) by (simp add: pos_divide_le_eq)
    then have "f64_round (of_nat a / of_nat t) \<le> f64_round (42221246506598 / 70368744177664)"
      by (intro f64.fl_mono) simp_all
    with le show False unfolding separators six_tenths by simp
  qed
qed

lemma complement_ge_six_tenths:
  fixes a t :: nat
  assumes "0 < t" and "t < 2 ^ 40" and "a \<le> t"
  shows "f64_round (6 / 10) \<le> f64_sub 1 (f64_round (of_nat a / of_nat t)) \<longleftrightarrow> 3 * t \<le> 5 * (t - a)"
proof
  assume "3 * t \<le> 5 * (t - a)"
  then have "5 * a \<le> 2 * t" using assms(3) by simp
  then have "of_nat (5 * a) \<le> (of_nat (2 * t) :: rat)" by (rule of_nat_mono)
  then have "(of_nat a / of_nat t :: rat) \<le> 4 / 10" using assms(1) by (simp add: field_simps)
  then have "f64_round (of_nat a / of_nat t) \<le> f64_round (4 / 10)" by (intro f64.fl_mono) simp_all
  then have "5404319552844595 / 9007199254740992 \<le> 1 - f64_round (of_nat a / of_nat t)"
    unfolding four_tenths by simp
  then have "f64_round (5404319552844595 / 9007199254740992) \<le> f64_sub 1 (f64_round (of_nat a / of_nat t))"
    unfolding f64_sub_def by (intro f64.fl_mono) simp_all
  then show "f64_round (6 / 10) \<le> f64_sub 1 (f64_round (of_nat a / of_nat t))"
    by (simp only: separators six_tenths)
next
  assume le: "f64_round (6 / 10) \<le> f64_sub 1 (f64_round (of_nat a / of_nat t))"
  have unit: "f64_round (of_nat a / of_nat t) \<le> 1"
    using f64.fl_unit [of "of_nat a / of_nat t"] assms by simp
  show "3 * t \<le> 5 * (t - a)"
  proof (rule ccontr)
    assume "\<not> 3 * t \<le> 5 * (t - a)"
    then have "2 * t + 1 \<le> 5 * a" using assms(3) by simp
    then have "of_nat (2 * t + 1) \<le> (of_nat (5 * a) :: rat)" by (rule of_nat_mono)
    moreover have "of_nat t < (of_nat (2 ^ 40) :: rat)" using assms(2) by (simp only: of_nat_less_iff)
    ultimately have "28147497671066 / 70368744177664 * of_nat t \<le> (of_nat a :: rat)" by simp
    then have "28147497671066 / 70368744177664 \<le> (of_nat a / of_nat t :: rat)"
      using assms(1) by (simp add: pos_le_divide_eq)
    then have "f64_round (28147497671066 / 70368744177664) \<le> f64_round (of_nat a / of_nat t)"
      by (intro f64.fl_mono) simp_all
    then have "1 - f64_round (of_nat a / of_nat t) \<le> 42221246506598 / 70368744177664"
      unfolding separators by simp
    then have "f64_sub 1 (f64_round (of_nat a / of_nat t)) \<le> f64_round (42221246506598 / 70368744177664)"
      unfolding f64_sub_def using unit by (intro f64.fl_mono) simp_all
    with le show False unfolding separators six_tenths by simp
  qed
qed

section \<open>The decision rule over the natural numbers\<close>

text \<open>
  What the quorum promises, without machine arithmetic: counts and reputation sums are natural
  numbers and the threshold of 0.6 is the fraction 3/5.
\<close>

definition quorum_rule ::
    "nat \<Rightarrow> duration \<Rightarrow> duration \<Rightarrow> duration \<Rightarrow> nat \<Rightarrow> nat \<Rightarrow> nat \<Rightarrow> nat \<Rightarrow> quorum_decision" where
  "quorum_rule m t_min t_max elapsed a d ar dr =
     (if elapsed < t_min then StillOpen
      else if m \<le> a \<and> 0 < ar + dr \<and> 3 * (ar + dr) \<le> 5 * ar then DecAgreed
      else if m \<le> d \<and> 3 * (ar + dr) \<le> 5 * dr then DecDisagreed
      else if t_max \<le> elapsed
        then (if max (m div 2) 1 \<le> a \<and> max (m div 2) 1 \<le> d then DecDisputed else DecIndeterminate)
      else StillOpen)"

definition decision_of :: "finalised_quorum option \<Rightarrow> quorum_decision" where
  "decision_of r = (case r of None \<Rightarrow> StillOpen | Some f \<Rightarrow> fq_decision f)"

lemma rep_ratio_closed:
  assumes "x + y < 2 ^ 40"
  shows "rep_ratio (satu x) (satu y) =
    (if x + y = 0 then 0 else f64_round (of_nat x / of_nat (x + y)))"
proof -
  have u: "unat (satu x) = x" "unat (satu y) = y" using assms by (simp_all add: unat_satu)
  then have s: "unat (satu x + satu y) = x + y" using assms by (simp add: unat_word_ariths)
  then have z: "satu x + satu y = 0 \<longleftrightarrow> x + y = 0" by (metis unat_eq_0)
  show ?thesis
    using assms unfolding rep_ratio_def z u s f64_div_def by (simp add: f64_of_nat_exact)
qed

lemma thresholds_exact:
  assumes "x + y < 2 ^ 40"
  shows "REP_WEIGHTED_THRESHOLD \<le> rep_ratio (satu x) (satu y) \<longleftrightarrow>
      0 < x + y \<and> 3 * (x + y) \<le> 5 * x"
    and "REP_WEIGHTED_THRESHOLD \<le> f64_sub 1 (rep_ratio (satu x) (satu y)) \<longleftrightarrow> 3 * (x + y) \<le> 5 * y"
proof -
  have "0 < f64_round (6 / 10)" "f64_round (6 / 10) \<le> 1" unfolding six_tenths by simp_all
  note c = this
  show "REP_WEIGHTED_THRESHOLD \<le> rep_ratio (satu x) (satu y) \<longleftrightarrow> 0 < x + y \<and> 3 * (x + y) \<le> 5 * x"
    unfolding REP_WEIGHTED_THRESHOLD_def rep_ratio_closed [OF assms]
    using c(1) ratio_ge_six_tenths [of "x + y" x] assms by (cases "x + y = 0") auto
  show "REP_WEIGHTED_THRESHOLD \<le> f64_sub 1 (rep_ratio (satu x) (satu y)) \<longleftrightarrow> 3 * (x + y) \<le> 5 * y"
  proof (cases "x + y = 0")
    case True
    then have "f64_sub 1 (rep_ratio (satu x) (satu y)) = 1"
      unfolding rep_ratio_closed [OF assms] f64_sub_def by (simp add: f64.fl_1)
    with c(2) True show ?thesis by (simp add: REP_WEIGHTED_THRESHOLD_def)
  next
    case False
    then have "rep_ratio (satu x) (satu y) = f64_round (of_nat x / of_nat (x + y))"
      unfolding rep_ratio_closed [OF assms] by (simp only: if_False)
    with False complement_ge_six_tenths [of "x + y" x] assms show ?thesis
      unfolding REP_WEIGHTED_THRESHOLD_def by (simp del: of_nat_add)
  qed
qed

lemma u32_le_of_nat: "n < 2 ^ 32 \<Longrightarrow> (w :: u32) \<le> of_nat n \<longleftrightarrow> unat w \<le> n"
  by (simp add: word_le_nat_alt unat_of_nat)

lemma u32_le_of_natD: "(w :: u32) \<le> of_nat n \<Longrightarrow> unat w \<le> n"
  by (auto simp: word_le_nat_alt unat_of_nat intro: order_trans)

lemma unat_half: "unat (max ((m :: u32) div 2) 1) = max (unat m div 2) 1"
  by (simp add: max_def word_le_nat_alt unat_div)

lemma votes_bound: "votes p (stored q) \<le> quorum_len q"
  by (simp add: votes_def stored_def quorum_len_def order_trans [OF length_filter_le])

lemma decision_of_try_finalise:
  "decision_of (try_finalise P q now t ob k) =
     (let (a, d, b, r) = tally q; c = q_config q; e = elapsed_since now (q_started_at q);
          h = max (qc_m c div 2) 1
      in if e < qc_t_min c then StillOpen
      else if qc_m c \<le> a \<and> qc_rep_weighted_threshold c \<le> r then DecAgreed
      else if qc_m c \<le> d \<and> qc_rep_weighted_threshold c \<le> f64_sub 1 r then DecDisagreed
      else if qc_t_max c \<le> e then (if h \<le> a \<and> h \<le> d then DecDisputed else DecIndeterminate)
      else StillOpen)"
  by (cases "tally q") (simp add: try_finalise_def decision_of_def Let_def)

section \<open>Adding verifications\<close>

text \<open>
  A run adds verifications with the reputations and keys the node has for their verifiers; a
  refused one leaves the quorum as it was.
\<close>

definition add_step ::
    "prims \<Rightarrow> (peer_id \<Rightarrow> bytes) \<Rightarrow> quorum \<Rightarrow> job_verification \<times> u32 \<Rightarrow> quorum" where
  "add_step P keys q e =
     (case add_verification P q (fst e) (snd e) (keys (jv_verifier (fst e))) of
        Inl _ \<Rightarrow> q | Inr q' \<Rightarrow> q')"

definition quorum_inv :: "prims \<Rightarrow> (peer_id \<Rightarrow> bytes) \<Rightarrow> quorum \<Rightarrow> bool" where
  "quorum_inv P keys q \<longleftrightarrow> distinct (map fst (q_by_verifier q)) \<and>
     (\<forall>(p, s) \<in> set (q_by_verifier q). jv_verifier (sv_verification s) = p \<and>
        jv_result_hash (sv_verification s) = q_result_hash q \<and>
        verification_verify_signature P (sv_verification s) (keys p) = Inr ())"

lemma update_fresh: "map_of m k = None \<Longrightarrow> AList.update k v m = m @ [(k, v)]"
  by (induction m) (auto split: if_splits)

definition admissible :: "prims \<Rightarrow> (peer_id \<Rightarrow> bytes) \<Rightarrow> quorum \<Rightarrow> job_verification \<Rightarrow> bool" where
  "admissible P keys q v \<longleftrightarrow> jv_result_hash v = q_result_hash q \<and>
     verification_verify_signature P v (keys (jv_verifier v)) = Inr () \<and>
     map_of (q_by_verifier q) (jv_verifier v) = None"

lemma add_step_eq:
  "add_step P keys q (v, r) =
     (if admissible P keys q v
      then q\<lparr>q_by_verifier := q_by_verifier q @ [(jv_verifier v, \<lparr>sv_verification = v, sv_reputation = r\<rparr>)]\<rparr>
      else q)"
  by (auto simp: add_step_def add_verification_def admissible_def update_fresh split: sum.splits)

interpretation quorum_ts: transition_system "add_step P keys" "quorum_inv P keys" for P keys
proof
  fix q e
  assume inv: "quorum_inv P keys q"
  show "quorum_inv P keys (add_step P keys q e)"
    using inv by (cases e) (auto simp: add_step_eq quorum_inv_def admissible_def map_of_eq_None_iff)
qed

lemma run_frame [simp]:
  "q_config (run_steps (add_step P keys) q es) = q_config q"
  "q_result_hash (run_steps (add_step P keys) q es) = q_result_hash q"
  "q_spec_hash (run_steps (add_step P keys) q es) = q_spec_hash q"
  "q_started_at (run_steps (add_step P keys) q es) = q_started_at q"
  by (induction es arbitrary: q) (auto simp: add_step_eq)

lemma quorum_inv_new: "quorum_inv P keys (quorum_new c sh rh t)"
  by (simp add: quorum_inv_def quorum_new_def)

lemma run_origin:
  "s \<in> set (stored (run_steps (add_step P keys) q es)) \<Longrightarrow>
   s \<in> set (stored q) \<or> (sv_verification s, sv_reputation s) \<in> set es"
proof (induction es arbitrary: q)
  case (Cons e es)
  then have "s \<in> set (stored (add_step P keys q e)) \<or> (sv_verification s, sv_reputation s) \<in> set es"
    by (intro Cons.IH) simp
  then show ?case by (cases e) (auto simp: add_step_eq stored_def split: if_splits)
qed simp

lemma backing_votes:
  assumes "quorum_inv P keys q"
  shows "distinct (map (\<lambda>s. jv_verifier (sv_verification s)) (filter p (stored q)))"
proof -
  have "map (\<lambda>s. jv_verifier (sv_verification s)) (stored q) = map fst (q_by_verifier q)"
    using assms by (auto simp: quorum_inv_def stored_def)
  then have "distinct (map (\<lambda>s. jv_verifier (sv_verification s)) (stored q))"
    using assms by (simp add: quorum_inv_def)
  then show ?thesis by (simp add: distinct_map inj_on_def)
qed

lemma stored_inv:
  "quorum_inv P keys q \<Longrightarrow> s \<in> set (stored q) \<Longrightarrow>
   jv_result_hash (sv_verification s) = q_result_hash q \<and>
   verification_verify_signature P (sv_verification s) (keys (jv_verifier (sv_verification s))) = Inr ()"
  by (auto simp: quorum_inv_def stored_def)

lemma try_finalise_outcome:
  assumes "try_finalise P q now t ob key = Some f"
  shows "\<exists>vs d. fq_outcome f = fst (outcome_new_signed_at P (q_spec_hash q) (q_result_hash q) vs d t ob key) \<and>
    set vs \<subseteq> verification_content_hash P ` sv_verification ` snd ` set (q_by_verifier q)"
proof -
  define hashes where "hashes = remdups_adj (sort_key hash_bytes
    (map (\<lambda>e. verification_content_hash P (sv_verification (snd e))) (q_by_verifier q)))"
  have "set hashes \<subseteq> verification_content_hash P ` sv_verification ` snd ` set (q_by_verifier q)"
    by (auto simp: hashes_def)
  moreover have "\<exists>d. fq_outcome f = fst (outcome_new_signed_at P (q_spec_hash q) (q_result_hash q) hashes d t ob key)"
    using assms by (auto simp: try_finalise_def Let_def hashes_def split: prod.splits if_splits)
  ultimately show ?thesis by blast
qed

end
