(* ===== verification/Quorum_Properties.thy ===== *)
theory Quorum_Properties
  imports Quorum
begin

text \<open>
  The correctness of the quorum: it implements its decision rule exactly, a decision is backed by
  distinct signed votes, the window always closes, the outcome does not depend on the order in
  which votes arrive, and the signed outcome says what was decided.
\<close>

section \<open>Refinement of the decision rule\<close>

lemma finalise_rule:
  assumes "qc_rep_weighted_threshold (q_config q) = REP_WEIGHTED_THRESHOLD"
    and "quorum_len q < 2 ^ 32"
    and "rep_sum is_agreed (stored q) + rep_sum is_disagreed (stored q) < 2 ^ 40"
  shows "decision_of (try_finalise P q now t ob k) =
    quorum_rule (unat (qc_m (q_config q))) (qc_t_min (q_config q)) (qc_t_max (q_config q))
      (elapsed_since now (q_started_at q))
      (votes is_agreed (stored q)) (votes is_disagreed (stored q))
      (rep_sum is_agreed (stored q)) (rep_sum is_disagreed (stored q))"
proof -
  have v: "votes p (stored q) < 2 ^ 32" for p
    using votes_bound [of p q] assms(2) by simp
  show ?thesis
    unfolding decision_of_try_finalise tally_closed Let_def prod.case assms(1)
      u32_le_of_nat [OF v] unat_half thresholds_exact [OF assms(3)] quorum_rule_def
    by (rule refl)
qed

text \<open>
  C3. The finalisation code implements the decision rule over the natural numbers: for a quorum
  with the threshold 0.6, of fewer than \<open>2^32\<close> votes whose reputations sum to less than \<open>2^40\<close>, the
  \<open>u32\<close> counters, the saturating \<open>u64\<close> sums and the comparison of the \<open>f64\<close> ratio with 0.6 (and of
  its complement) decide exactly as counts and the fraction 3/5 do. The rule is that of the code, not
  that of the documentation: a split is decided only once the maximum window has passed, and is then
  disputed and not indeterminate (\<open>split_decided_late\<close>).
\<close>

theorem try_finalise_refines_rule:
  assumes "qc_rep_weighted_threshold (q_config q) = REP_WEIGHTED_THRESHOLD"
    and "quorum_len q < 2 ^ 32"
    and "rep_sum is_agreed (stored q) + rep_sum is_disagreed (stored q) < 2 ^ 40"
  shows "decision_of (try_finalise P q now t ob k) =
    quorum_rule (unat (qc_m (q_config q))) (qc_t_min (q_config q)) (qc_t_max (q_config q))
      (elapsed_since now (q_started_at q))
      (votes is_agreed (stored q)) (votes is_disagreed (stored q))
      (rep_sum is_agreed (stored q)) (rep_sum is_disagreed (stored q))"
  using assms by (rule finalise_rule)

text \<open>
  The module documentation of \<open>quorum.rs\<close> has a split (half of M on both sides, M on neither) disputed
  before the maximum window and indeterminate after it, and the documentation of \<open>try_finalise\<close> has
  every quorum without M votes indeterminate after it. In the code such a quorum stays open until
  the maximum window has passed and is disputed from then on.
\<close>

lemma split_decided_late:
  assumes "votes is_agreed (stored q) < unat (qc_m (q_config q))" and "votes is_disagreed (stored q) < unat (qc_m (q_config q))"
    and "max (unat (qc_m (q_config q)) div 2) 1 \<le> votes is_agreed (stored q)"
    and "max (unat (qc_m (q_config q)) div 2) 1 \<le> votes is_disagreed (stored q)"
    and "qc_rep_weighted_threshold (q_config q) = REP_WEIGHTED_THRESHOLD" and "quorum_len q < 2 ^ 32"
    and "rep_sum is_agreed (stored q) + rep_sum is_disagreed (stored q) < 2 ^ 40"
    and "qc_t_min (q_config q) \<le> elapsed_since now (q_started_at q)"
  shows "decision_of (try_finalise P q now t ob k) =
    (if elapsed_since now (q_started_at q) < qc_t_max (q_config q) then StillOpen else DecDisputed)"
  using finalise_rule [OF assms(5-7), of P now t ob k] assms(1-4,8) unfolding quorum_rule_def by auto

text \<open>Two agreeing verifiers against a dissenter, with the threshold lowered to two votes.\<close>

definition demo_vote :: "u8 \<Rightarrow> verifier_verdict \<Rightarrow> job_verification" where
  "demo_vote p d = fst (verification_new_signed_at demo_prims zero_hash (PeerId [p]) d Deterministic 1 [p])"

definition demo_quorum :: quorum where
  "demo_quorum = quorum_new (quorum_standard\<lparr>qc_m := 2\<rparr>) zero_hash zero_hash 0"

definition demo_votes :: "(job_verification \<times> u32) list" where
  "demo_votes = [(demo_vote 1 Agreed, 20), (demo_vote 2 (Disagreed zero_hash), 10),
     (demo_vote 3 Agreed, 20)]"

definition demo_keys :: "peer_id \<Rightarrow> bytes" where
  "demo_keys p = peer_bytes p"

lemma demo_vote_fields [simp]:
  "jv_verifier (demo_vote p d) = PeerId [p]" "jv_verdict (demo_vote p d) = d"
  "jv_result_hash (demo_vote p d) = zero_hash"
  by (simp_all add: demo_vote_def)

lemma demo_vote_signed: "verification_verify_signature demo_prims (demo_vote p d) [p] = Inr ()"
  using verification_new_signed_verifies [OF demo_ok(1), of zero_hash "PeerId [p]" d Deterministic 1 "[p]"]
  by (simp add: demo_vote_def demo_prims_def)

lemma demo_run:
  "run_steps (add_step demo_prims demo_keys) demo_quorum demo_votes =
     demo_quorum\<lparr>q_by_verifier :=
       [(PeerId [1], \<lparr>sv_verification = demo_vote 1 Agreed, sv_reputation = 20\<rparr>),
        (PeerId [2], \<lparr>sv_verification = demo_vote 2 (Disagreed zero_hash), sv_reputation = 10\<rparr>),
        (PeerId [3], \<lparr>sv_verification = demo_vote 3 Agreed, sv_reputation = 20\<rparr>)]\<rparr>"
  by (simp add: demo_votes_def add_step_eq admissible_def demo_keys_def demo_vote_signed
      demo_quorum_def quorum_new_def)

definition demo_full :: quorum where
  "demo_full = run_steps (add_step demo_prims demo_keys) demo_quorum demo_votes"

lemma demo_full_facts:
  "q_config demo_full = quorum_standard\<lparr>qc_m := 2\<rparr>" "q_started_at demo_full = 0" "quorum_len demo_full = 3"
  "votes is_agreed (stored demo_full) = 2" "votes is_disagreed (stored demo_full) = 1"
  "rep_sum is_agreed (stored demo_full) = 40" "rep_sum is_disagreed (stored demo_full) = 10"
  unfolding demo_full_def demo_run
  by (simp_all add: demo_quorum_def quorum_new_def quorum_len_def stored_def votes_def rep_sum_def
      is_agreed_def is_disagreed_def)

lemmas demo_config_facts = quorum_standard_def M_STANDARD_def T_MIN_SECS_def T_MAX_SECS_def from_secs_def

theorem try_finalise_refines_rule_witness:
  "decision_of (try_finalise demo_prims demo_full 6000000000 9 (PeerId [9]) [9]) = DecAgreed"
  using try_finalise_refines_rule [of demo_full demo_prims 6000000000 9 "PeerId [9]" "[9]"]
  by (simp add: demo_full_facts quorum_rule_def demo_config_facts elapsed_since_def)

section \<open>Safety\<close>

lemma decision_backed:
  assumes inv: "quorum_inv P keys q"
    and dec: "decision_of (try_finalise P q now t ob k) = (if b then DecAgreed else DecDisagreed)"
  shows "unat (qc_m (q_config q)) \<le> votes (if b then is_agreed else is_disagreed) (stored q)"
    and "qc_t_min (q_config q) \<le> elapsed_since now (q_started_at q)"
  using dec unfolding decision_of_try_finalise tally_closed
  by (auto simp: Let_def split: if_splits intro: u32_le_of_natD)

lemma backing_exists:
  assumes "n \<le> votes p (stored (run_steps (add_step P keys) (quorum_new c sh rh t0) es))"
  shows "\<exists>ss. distinct (map (jv_verifier \<circ> sv_verification) ss) \<and> n \<le> length ss \<and>
    (\<forall>s \<in> set ss. p s \<and> (sv_verification s, sv_reputation s) \<in> set es \<and>
       jv_result_hash (sv_verification s) = rh \<and>
       verification_verify_signature P (sv_verification s) (keys (jv_verifier (sv_verification s))) = Inr ())"
proof -
  let ?q = "run_steps (add_step P keys) (quorum_new c sh rh t0) es"
  have inv: "quorum_inv P keys ?q" by (rule quorum_ts.run_inv [OF quorum_inv_new])
  have "s \<in> set (stored ?q) \<Longrightarrow> (sv_verification s, sv_reputation s) \<in> set es" for s
    using run_origin [of s P keys "quorum_new c sh rh t0" es] by (simp add: stored_def quorum_new_def)
  moreover have "q_result_hash ?q = rh" by (simp add: quorum_new_def)
  ultimately show ?thesis
    using assms backing_votes [OF inv, of p] stored_inv [OF inv]
    by (intro exI [of _ "filter p (stored ?q)"]) (auto simp: votes_def comp_def)
qed

text \<open>
  C1. Safety of a decision: however verifications arrive (forged, repeated, for other results), a
  quorum that finalises as \<open>Agreed\<close> after the minimum window holds at least M verifications from
  distinct verifiers that were all received, all agree, all are for the tracked result and all
  verify under their verifier's key; and symmetrically for \<open>Disagreed\<close>.
\<close>

theorem decision_is_backed_by_quorum:
  assumes "try_finalise P (run_steps (add_step P keys) (quorum_new c sh rh t0) es) now t ob k = Some f"
    and "fq_decision f = (if b then DecAgreed else DecDisagreed)"
  shows "qc_t_min c \<le> elapsed_since now t0 \<and>
    (\<exists>ss. distinct (map (jv_verifier \<circ> sv_verification) ss) \<and> unat (qc_m c) \<le> length ss \<and>
      (\<forall>s \<in> set ss. (if b then is_agreed else is_disagreed) s \<and>
         (sv_verification s, sv_reputation s) \<in> set es \<and>
         jv_result_hash (sv_verification s) = rh \<and>
         verification_verify_signature P (sv_verification s) (keys (jv_verifier (sv_verification s))) = Inr ()))"
proof -
  let ?q = "run_steps (add_step P keys) (quorum_new c sh rh t0) es"
  have inv: "quorum_inv P keys ?q" by (rule quorum_ts.run_inv [OF quorum_inv_new])
  have dec: "decision_of (try_finalise P ?q now t ob k) = (if b then DecAgreed else DecDisagreed)"
    using assms by (simp add: decision_of_def)
  note backed = decision_backed [OF inv dec]
  have "unat (qc_m c) \<le> votes (if b then is_agreed else is_disagreed) (stored ?q)"
    using backed(1) by (simp add: quorum_new_def)
  from backing_exists [OF this] backed(2) show ?thesis by (simp add: quorum_new_def)
qed

theorem decision_is_backed_by_quorum_witness:
  "\<exists>ss :: stored_verification list. distinct (map (jv_verifier \<circ> sv_verification) ss) \<and> 2 \<le> length ss \<and>
     (\<Union>s \<in> set ss. {sv_verification s}) \<subseteq> fst ` set demo_votes"
proof -
  let ?q = "run_steps (add_step demo_prims demo_keys) demo_quorum demo_votes"
  have "decision_of (try_finalise demo_prims ?q 6000000000 9 (PeerId [9]) [9]) = DecAgreed"
    using finalise_rule [of demo_full demo_prims 6000000000 9 "PeerId [9]" "[9]"]
    by (simp add: demo_full_facts quorum_rule_def demo_config_facts elapsed_since_def flip: demo_full_def)
  then obtain f where "try_finalise demo_prims ?q 6000000000 9 (PeerId [9]) [9] = Some f"
      "fq_decision f = (if True then DecAgreed else DecDisagreed)"
    by (auto simp: decision_of_def split: option.splits)
  moreover have m: "qc_m (quorum_standard\<lparr>qc_m := 2\<rparr>) = 2" by simp
  ultimately
  have "\<exists>ss :: stored_verification list. distinct (map (jv_verifier \<circ> sv_verification) ss) \<and> unat (2 :: u32) \<le> length ss \<and>
    (\<forall>s \<in> set ss. (sv_verification s, sv_reputation s) \<in> set demo_votes)"
    using decision_is_backed_by_quorum [of demo_prims demo_keys "quorum_standard\<lparr>qc_m := 2\<rparr>" zero_hash zero_hash 0
        demo_votes 6000000000 9 "PeerId [9]" "[9]" f True]
    unfolding demo_quorum_def m by blast
  then obtain ss :: "stored_verification list" where "distinct (map (jv_verifier \<circ> sv_verification) ss)" "2 \<le> length ss"
    "\<forall>s \<in> set ss. (sv_verification s, sv_reputation s) \<in> set demo_votes" by force
  then show ?thesis by (intro exI [of _ ss]) force
qed

section \<open>Liveness\<close>

text \<open>
  C19. The window always closes and never early: \<open>try_finalise\<close> returns nothing before the minimum
  window, whatever votes are in, and it returns a finalised quorum at every moment after the
  maximum window, whatever votes are missing.
\<close>

theorem quorum_window_closes:
  "(elapsed_since now (q_started_at q) < qc_t_min (q_config q) \<longrightarrow> try_finalise P q now t ob k = None) \<and>
   (qc_t_min (q_config q) \<le> elapsed_since now (q_started_at q) \<and>
    qc_t_max (q_config q) \<le> elapsed_since now (q_started_at q) \<longrightarrow>
      (\<exists>f. try_finalise P q now t ob k = Some f \<and> fq_decision f \<noteq> StillOpen))"
  by (cases "tally q") (auto simp: try_finalise_def Let_def)

theorem quorum_window_closes_witness:
  "\<exists>f. try_finalise demo_prims demo_quorum 30000000000 9 (PeerId [9]) [9] = Some f \<and> fq_decision f \<noteq> StillOpen"
  using quorum_window_closes [of 30000000000 demo_quorum demo_prims 9 "PeerId [9]" "[9]"]
  by (simp add: demo_quorum_def quorum_new_def demo_config_facts elapsed_since_def)

section \<open>Arrival order\<close>

lemma run_distinct_verifiers:
  assumes "distinct (map (jv_verifier \<circ> fst) es)"
    and "\<forall>e \<in> set es. map_of (q_by_verifier q) (jv_verifier (fst e)) = None"
  shows "q_by_verifier (run_steps (add_step P keys) q es) = q_by_verifier q @
    map (\<lambda>e. (jv_verifier (fst e), \<lparr>sv_verification = fst e, sv_reputation = snd e\<rparr>))
      (filter (\<lambda>e. jv_result_hash (fst e) = q_result_hash q \<and>
         verification_verify_signature P (fst e) (keys (jv_verifier (fst e))) = Inr ()) es)"
  using assms
proof (induction es arbitrary: q)
  case (Cons e es)
  obtain v r where e: "e = (v, r)" by fastforce
  have "map_of (q_by_verifier (add_step P keys q e)) (jv_verifier (fst e')) = None" if "e' \<in> set es" for e'
  proof -
    have "jv_verifier (fst e') \<noteq> jv_verifier v" using Cons.prems(1) that by (force simp: e)
    with Cons.prems(2) that show ?thesis by (simp add: e add_step_eq map_add_def split: option.split)
  qed
  then have IH: "q_by_verifier (run_steps (add_step P keys) (add_step P keys q e) es) =
    q_by_verifier (add_step P keys q e) @
    map (\<lambda>e. (jv_verifier (fst e), \<lparr>sv_verification = fst e, sv_reputation = snd e\<rparr>))
      (filter (\<lambda>e'. jv_result_hash (fst e') = q_result_hash (add_step P keys q e) \<and>
         verification_verify_signature P (fst e') (keys (jv_verifier (fst e'))) = Inr ()) es)"
    using Cons.prems(1) by (intro Cons.IH) auto
  have "map_of (q_by_verifier q) (jv_verifier v) = None" using Cons.prems(2) by (simp add: e)
  with IH show ?case by (simp add: e add_step_eq admissible_def)
qed simp

text \<open>What observers can agree on: the finalised quorum without who signs it, when, and the signature.\<close>

definition unattributed :: "finalised_quorum \<Rightarrow> finalised_quorum" where
  "unattributed f = f\<lparr>fq_outcome := (fq_outcome f)\<lparr>jo_observed_by := PeerId [], jo_finalised_at := 0, jo_signature := []\<rparr>\<rparr>"

lemma unattributed_signed:
  "unattributed \<lparr>fq_decision = d, fq_outcome = fst (outcome_new_signed_at P sh rh hs v t ob k), fq_agreements = a,
     fq_disagreements = b, fq_abstentions = c, fq_reputation_weighted = w\<rparr> =
   \<lparr>fq_decision = d, fq_outcome = \<lparr>jo_wire_version = WIRE_VERSION, jo_spec_hash = sh, jo_result_hash = rh,
      jo_verification_hashes = hs, jo_verdict = v, jo_finalised_at = 0, jo_observed_by = PeerId [], jo_signature = []\<rparr>,
     fq_agreements = a, fq_disagreements = b, fq_abstentions = c, fq_reputation_weighted = w\<rparr>"
  by (simp add: unattributed_def outcome_new_signed_at_def Let_def)

lemma same_votes_same_content:
  assumes "mset (q_by_verifier q) = mset (q_by_verifier q')" "q_config q = q_config q'"
    "q_result_hash q = q_result_hash q'" "q_spec_hash q = q_spec_hash q'"
    and "elapsed_since now (q_started_at q) < qc_t_min (q_config q') \<longleftrightarrow>
      elapsed_since now' (q_started_at q') < qc_t_min (q_config q')"
    and "qc_t_max (q_config q') \<le> elapsed_since now (q_started_at q) \<longleftrightarrow>
      qc_t_max (q_config q') \<le> elapsed_since now' (q_started_at q')"
  shows "map_option unattributed (try_finalise P q now t ob k) = map_option unattributed (try_finalise P q' now' t' ob' k')"
proof -
  have h: "sort_key hash_bytes (map (\<lambda>e. verification_content_hash P (sv_verification (snd e))) (q_by_verifier q)) =
      sort_key hash_bytes (map (\<lambda>e. verification_content_hash P (sv_verification (snd e))) (q_by_verifier q'))"
    by (intro sort_hashes_cong) (simp add: assms(1))
  show ?thesis
    unfolding try_finalise_def assms(2-4) same_votes_same_tally [OF assms(1)]
      same_votes_same_disputers [OF assms(1)] h Let_def assms(5,6)
    by (cases "tally q'") (simp add: unattributed_signed)
qed

lemma finalised_observer: "try_finalise P q now t ob k = Some f \<Longrightarrow> jo_observed_by (fq_outcome f) = ob"
  by (auto dest!: try_finalise_outcome)

lemma same_arrivals_same_votes:
  assumes "mset es = mset es'" and "distinct (map (jv_verifier \<circ> fst) es)"
  shows "mset (q_by_verifier (run_steps (add_step P keys) (quorum_new c sh rh t0) es)) =
    mset (q_by_verifier (run_steps (add_step P keys) (quorum_new c sh rh t0') es'))"
proof -
  have d': "distinct (map (jv_verifier \<circ> fst) es')"
    using assms mset_eq_imp_distinct_iff [of "map (jv_verifier \<circ> fst) es" "map (jv_verifier \<circ> fst) es'"] by simp
  have e: "q_by_verifier (quorum_new c sh rh t) = []" for t by (simp add: quorum_new_def)
  show ?thesis
    using assms(1) run_distinct_verifiers [OF assms(2), of "quorum_new c sh rh t0" P keys]
      run_distinct_verifiers [OF d', of "quorum_new c sh rh t0'" P keys] by (simp add: e) (simp add: quorum_new_def)
qed

text \<open>
  C18. Two observers, each with its own id, signing key, clock and start of the window, that receive
  the same verifications with the same weights under the same keys, one per verifier, in different
  orders, and ask at moments of the same phase of their windows, come to the same result: both stay
  open, or both finalise with the same decision, counts and weight and with outcomes that differ at
  most in observer, time and signature. The outcomes are not identical: each names its own observer
  and time, so that two observers never produce the same one.
\<close>

theorem quorum_order_independent:
  fixes P :: prims and keys :: "peer_id \<Rightarrow> bytes" and sh rh :: chash and t t' :: u64 and ob ob' :: peer_id and k k' :: bytes
  assumes "mset es = mset es'" and "distinct (map (jv_verifier \<circ> fst) es)"
    and "elapsed_since now t0 < qc_t_min c \<longleftrightarrow> elapsed_since now' t0' < qc_t_min c"
    and "qc_t_max c \<le> elapsed_since now t0 \<longleftrightarrow> qc_t_max c \<le> elapsed_since now' t0'"
  defines "r \<equiv> try_finalise P (run_steps (add_step P keys) (quorum_new c sh rh t0) es) now t ob k"
    and "r' \<equiv> try_finalise P (run_steps (add_step P keys) (quorum_new c sh rh t0') es') now' t' ob' k'"
  shows "map_option unattributed r = map_option unattributed r' \<and>
    (\<forall>f f'. r = Some f \<and> r' = Some f' \<and> ob \<noteq> ob' \<longrightarrow> fq_outcome f \<noteq> fq_outcome f')"
proof
  show "map_option unattributed r = map_option unattributed r'"
    unfolding r_def r'_def
    by (rule same_votes_same_content [OF same_arrivals_same_votes [OF assms(1,2)]])
      (use assms(3,4) in \<open>simp_all add: quorum_new_def\<close>)
  show "\<forall>f f'. r = Some f \<and> r' = Some f' \<and> ob \<noteq> ob' \<longrightarrow> fq_outcome f \<noteq> fq_outcome f'"
    unfolding r_def r'_def by (metis finalised_observer)
qed

theorem quorum_order_independent_witness:
  "map_option unattributed (try_finalise demo_prims (run_steps (add_step demo_prims demo_keys)
      (quorum_new (quorum_standard\<lparr>qc_m := 2\<rparr>) zero_hash zero_hash 0) demo_votes) 6000000000 9 (PeerId [9]) [9]) =
   map_option unattributed (try_finalise demo_prims (run_steps (add_step demo_prims demo_keys)
      (quorum_new (quorum_standard\<lparr>qc_m := 2\<rparr>) zero_hash zero_hash 1000000000) (rev demo_votes)) 8000000000 11 (PeerId [8]) [8])"
  by (rule quorum_order_independent [THEN conjunct1])
    (simp_all add: demo_votes_def demo_config_facts elapsed_since_def)

section \<open>The signed outcome\<close>

lemma distinct_remdups_adj: "sorted xs \<Longrightarrow> distinct (remdups_adj xs)"
  by (induction xs rule: remdups_adj.induct) auto

lemma remdups_adj_sorted_hashes:
  "distinct (remdups_adj (sort_key hash_bytes hs)) \<and>
   sorted (map hash_bytes (remdups_adj (sort_key hash_bytes hs)))"
proof -
  have inj: "inj hash_bytes" by (simp add: inj_def chash.expand)
  have "map hash_bytes (remdups_adj (sort_key hash_bytes hs)) = remdups_adj (map hash_bytes (sort_key hash_bytes hs))"
    by (simp add: remdups_adj_map_injective inj)
  moreover have "distinct (remdups_adj (map hash_bytes (sort_key hash_bytes hs)))"
    by (rule distinct_remdups_adj) simp
  ultimately show ?thesis by (metis distinct_map sorted_remdups_adj sorted_sort_key)
qed

lemma set_collect_disputers:
  assumes "quorum_len q < 2 ^ 32"
  shows "set (collect_disputers q) = (\<lambda>s. jv_verifier (sv_verification s)) `
      {s \<in> set (stored q). (if votes is_disagreed (stored q) \<le> votes is_agreed (stored q)
         then is_disagreed s else is_agreed s)}"
    and "distinct (collect_disputers q)"
proof -
  have v: "votes p (stored q) < 2 ^ 32" for p
    using votes_bound [of p q] assms by simp
  have le: "(of_nat (votes is_disagreed (stored q)) :: u32) \<le> of_nat (votes is_agreed (stored q)) \<longleftrightarrow>
      votes is_disagreed (stored q) \<le> votes is_agreed (stored q)"
    using v [of is_disagreed] v [of is_agreed] by (simp add: u32_le_of_nat unat_of_nat)
  have m: "(\<lambda>s. case jv_verdict (sv_verification s) of Agreed \<Rightarrow> \<not> b | Disagreed e \<Rightarrow> b | Abstained \<Rightarrow> False) =
      (if b then is_disagreed else is_agreed)" for b
    by (auto simp: is_agreed_def is_disagreed_def fun_eq_iff split: verifier_verdict.splits)
  show "set (collect_disputers q) = (\<lambda>s. jv_verifier (sv_verification s)) `
      {s \<in> set (stored q). (if votes is_disagreed (stored q) \<le> votes is_agreed (stored q)
         then is_disagreed s else is_agreed s)}"
    unfolding collect_disputers_def tally_closed Let_def prod.case m le stored_def [symmetric] by auto
  show "distinct (collect_disputers q)"
    unfolding collect_disputers_def tally_closed Let_def prod.case by simp
qed

lemma try_finalise_SomeD:
  assumes "try_finalise P q now t ob k = Some f"
  shows "fq_outcome f = fst (outcome_new_signed_at P (q_spec_hash q) (q_result_hash q)
      (remdups_adj (sort_key hash_bytes
        (map (\<lambda>s. verification_content_hash P (sv_verification s)) (stored q))))
      (case fq_decision f of DecDisputed \<Rightarrow> Disputed (collect_disputers q)
       | DecIndeterminate \<Rightarrow> Indeterminate
       | _ \<Rightarrow> Valid (fst (tally q)) (fst (snd (tally q))) (fst (snd (snd (tally q)))) (snd (snd (snd (tally q)))))
      t ob k)" (is ?shape)
    and "fq_decision f = DecDisputed \<Longrightarrow> 0 < votes is_agreed (stored q) \<and> 0 < votes is_disagreed (stored q)"
proof -
  show ?shape
    using assms
    by (cases "tally q") (auto simp: try_finalise_def Let_def stored_def comp_def split: if_splits)
  assume "fq_decision f = DecDisputed"
  then have "decision_of (try_finalise P q now t ob k) = DecDisputed"
    by (simp add: assms decision_of_def)
  then have "max (qc_m (q_config q) div 2) 1 \<le> (of_nat (votes is_agreed (stored q)) :: u32)"
      "max (qc_m (q_config q) div 2) 1 \<le> (of_nat (votes is_disagreed (stored q)) :: u32)"
    unfolding decision_of_try_finalise tally_closed by (simp_all add: Let_def split: if_splits)
  then show "0 < votes is_agreed (stored q) \<and> 0 < votes is_disagreed (stored q)"
    by (auto dest!: u32_le_of_natD simp: unat_half)
qed

text \<open>
  C20. The finalised outcome says what was decided: it is signed by the observer, names the spec and
  result of the quorum, lists the hashes of exactly the accepted verifications in ascending order
  without repetition, carries the counts for \<open>Agreed\<close> and \<open>Disagreed\<close> decisions alike under the
  verdict \<open>Valid\<close>, and names the voters of the smaller side, of which there is at least one, for a
  \<open>Disputed\<close> one.
\<close>

theorem finalised_outcome_sound:
  assumes "ed25519_ok P" and "try_finalise P q now t ob k = Some f" and "quorum_len q < 2 ^ 32"
  shows "outcome_verify_signature P (fq_outcome f) (ed_public P k) = Inr () \<and>
    jo_spec_hash (fq_outcome f) = q_spec_hash q \<and> jo_result_hash (fq_outcome f) = q_result_hash q \<and>
    set (jo_verification_hashes (fq_outcome f)) =
      (\<lambda>s. verification_content_hash P (sv_verification s)) ` set (stored q) \<and>
    distinct (jo_verification_hashes (fq_outcome f)) \<and>
    sorted (map hash_bytes (jo_verification_hashes (fq_outcome f))) \<and>
    (case fq_decision f of
       DecIndeterminate \<Rightarrow> jo_verdict (fq_outcome f) = Indeterminate
     | DecDisputed \<Rightarrow> \<exists>ps. jo_verdict (fq_outcome f) = Disputed ps \<and> ps \<noteq> [] \<and> distinct ps \<and>
         set ps = (\<lambda>s. jv_verifier (sv_verification s)) `
           {s \<in> set (stored q). (if votes is_disagreed (stored q) \<le> votes is_agreed (stored q)
              then is_disagreed s else is_agreed s)}
     | _ \<Rightarrow> \<exists>r. jo_verdict (fq_outcome f) =
         Valid (of_nat (votes is_agreed (stored q))) (of_nat (votes is_disagreed (stored q)))
           (of_nat (votes is_abstained (stored q))) r)"
proof -
  note shape = try_finalise_SomeD(1) [OF assms(2)]
  note disputers = set_collect_disputers [OF assms(3)]
  have disputed: "collect_disputers q \<noteq> []" if "fq_decision f = DecDisputed"
  proof -
    have "filter is_agreed (stored q) \<noteq> []" "filter is_disagreed (stored q) \<noteq> []"
      using try_finalise_SomeD(2) [OF assms(2) that] by (auto simp: votes_def)
    then have "set (collect_disputers q) \<noteq> {}"
      unfolding disputers(1) by (auto simp: filter_empty_conv)
    then show ?thesis by auto
  qed
  show ?thesis
    unfolding shape
    using outcome_new_signed_verifies [OF assms(1)] remdups_adj_sorted_hashes disputed disputers
    by (auto simp: tally_closed split: quorum_decision.splits)
qed

theorem finalised_outcome_sound_witness:
  "\<exists>f. try_finalise demo_prims demo_full 6000000000 9 (PeerId [9]) [9] = Some f \<and>
     outcome_verify_signature demo_prims (fq_outcome f) [9] = Inr () \<and>
     distinct (jo_verification_hashes (fq_outcome f)) \<and>
     (\<exists>r. jo_verdict (fq_outcome f) = Valid 2 1 0 r)"
proof -
  have "decision_of (try_finalise demo_prims demo_full 6000000000 9 (PeerId [9]) [9]) = DecAgreed"
    using finalise_rule [of demo_full demo_prims 6000000000 9 "PeerId [9]" "[9]"]
    by (simp add: demo_full_facts quorum_rule_def demo_config_facts elapsed_since_def)
  then obtain f where f: "try_finalise demo_prims demo_full 6000000000 9 (PeerId [9]) [9] = Some f"
      "fq_decision f = DecAgreed"
    by (auto simp: decision_of_def split: option.splits)
  have "votes is_abstained (stored demo_full) = 0"
    unfolding demo_full_def demo_run by (simp add: votes_def stored_def is_abstained_def)
  then show ?thesis
    using finalised_outcome_sound [OF demo_ok(1) f(1)] f by (simp add: demo_full_facts) (simp add: demo_prims_def)
qed

text \<open>
  Votes without reputation decide one way only: when every voter has reputation zero the ratio
  is taken as 0, so no number of agreeing votes finalises as \<open>Agreed\<close>, while M disagreeing votes
  finalise as \<open>Disagreed\<close> as soon as the minimum window has passed.
\<close>

theorem zero_reputation_decides_disagreed:
  assumes "qc_rep_weighted_threshold (q_config q) = REP_WEIGHTED_THRESHOLD"
    and "quorum_len q < 2 ^ 32" and "\<forall>s \<in> set (stored q). sv_reputation s = 0"
  shows "decision_of (try_finalise P q now t ob k) \<noteq> DecAgreed \<and>
    (decision_of (try_finalise P q now t ob k) = DecDisagreed \<longleftrightarrow>
       qc_t_min (q_config q) \<le> elapsed_since now (q_started_at q) \<and>
       unat (qc_m (q_config q)) \<le> votes is_disagreed (stored q))"
proof -
  have "rep_sum p (stored q) = 0" for p using assms(3) by (auto simp: rep_sum_def)
  then show ?thesis using finalise_rule [OF assms(1,2)] by (auto simp: quorum_rule_def not_less)
qed

theorem zero_reputation_decides_disagreed_witness:
  "decision_of (try_finalise demo_prims (demo_quorum\<lparr>q_by_verifier :=
      map (\<lambda>p. (PeerId [p], \<lparr>sv_verification = demo_vote p (Disagreed zero_hash), sv_reputation = 0\<rparr>)) [1, 2]\<rparr>)
      6000000000 9 (PeerId [9]) [9]) = DecDisagreed"
  using zero_reputation_decides_disagreed [of "demo_quorum\<lparr>q_by_verifier :=
      map (\<lambda>p. (PeerId [p], \<lparr>sv_verification = demo_vote p (Disagreed zero_hash), sv_reputation = 0\<rparr>)) [1, 2]\<rparr>"
      demo_prims 6000000000 9 "PeerId [9]" "[9]"]
  by (simp add: demo_quorum_def quorum_new_def demo_config_facts quorum_len_def stored_def votes_def
      is_disagreed_def elapsed_since_def)

end
