(* ===== verification/Delta.thy ===== *)
theory Delta
  imports Outcome
begin

text \<open>
  The signed state delta of \<open>server/parseh-shared-state/src/delta.rs\<close>: the envelope propagated on
  the state-deltas topic, with its payload kinds, its signing and its verification.
\<close>

definition DELTA_WIRE_VERSION :: u32 where
  "DELTA_WIRE_VERSION = 1"

datatype delta_sign_error =
    WireVersion (expected: u32) (actual: u32)
  | DeltaVerify verify_cause
  | InvalidSignatureLength nat
  | DeltaCborEncode
  | InnerOutcomeSignature sign_error

datatype delta_kind =
    DeltaOutcome job_outcome
  | DeltaReputation peer_id i32 string "chash option"
  | DeltaGovernanceRule string string peer_id "peer_id list"

record state_delta =
  sd_wire_version :: u32
  sd_kind :: delta_kind
  sd_observer :: peer_id
  sd_observed_at :: u64
  sd_signature :: bytes

section \<open>CBOR shape\<close>

definition wr_delta_kind :: "delta_kind \<Rightarrow> cbor" where
  "wr_delta_kind d = (case d of
     DeltaOutcome x \<Rightarrow> CMap [(''Outcome'', wr_job_outcome x)]
   | DeltaReputation p n r h \<Rightarrow> CMap [(''Reputation'', CMap
       [(''peer'', wr_peer p), (''delta'', wr_i32 n), (''reason'', CText r),
        (''related_hash'', wr_option wr_hash h)])]
   | DeltaGovernanceRule n v p ps \<Rightarrow> CMap [(''GovernanceRule'', CMap
       [(''rule_name'', CText n), (''rule_value'', CText v), (''proposer'', wr_peer p),
        (''approvers'', wr_list wr_peer ps)])])"

definition rd_delta_kind :: "cbor \<Rightarrow> delta_kind option" where
  "rd_delta_kind c = (case c of CMap [(n, b)] \<Rightarrow>
      (if n = ''Outcome'' then map_option DeltaOutcome (rd_job_outcome b)
       else if n = ''Reputation'' then do {
         m \<leftarrow> map_fields b;
         p \<leftarrow> field ''peer'' rd_peer m;
         d \<leftarrow> field ''delta'' rd_i32 m;
         r \<leftarrow> field ''reason'' rd_text m;
         h \<leftarrow> field_default ''related_hash'' None (rd_option rd_hash) m;
         Some (DeltaReputation p d r h) }
       else if n = ''GovernanceRule'' then do {
         m \<leftarrow> map_fields b;
         k \<leftarrow> field ''rule_name'' rd_text m;
         v \<leftarrow> field ''rule_value'' rd_text m;
         p \<leftarrow> field ''proposer'' rd_peer m;
         ps \<leftarrow> field ''approvers'' (rd_list rd_peer) m;
         Some (DeltaGovernanceRule k v p ps) }
       else None)
   | _ \<Rightarrow> None)"

fun wf_delta_kind :: "delta_kind \<Rightarrow> bool" where
  "wf_delta_kind (DeltaOutcome x) = wf_outcome x"
| "wf_delta_kind (DeltaReputation p n r h) = (\<forall>x \<in> set_option h. wf_hash x)"
| "wf_delta_kind (DeltaGovernanceRule n v p ps) = True"

lemma rd_wr_option_hash:
  "(\<forall>x \<in> set_option h. wf_hash x) \<Longrightarrow> rd_option rd_hash (wr_option wr_hash h) = Some h"
  by (rule rd_option_wr_option) (auto simp: wr_hash_def [of x for x] rd_hash_wr_hash [unfolded wr_hash_def])

lemma rd_wr_delta_kind [wire_simps]: "wf_delta_kind d \<Longrightarrow> rd_delta_kind (wr_delta_kind d) = Some d"
  by (cases d) (simp_all add: rd_delta_kind_def wr_delta_kind_def read_defs wire_simps rd_wr_option_hash)

definition wr_delta :: "state_delta \<Rightarrow> cbor" where
  "wr_delta d = CMap
     [(''wire_version'', wr_u (sd_wire_version d)), (''kind'', wr_delta_kind (sd_kind d)),
      (''observer'', wr_peer (sd_observer d)), (''observed_at'', wr_u (sd_observed_at d)),
      (''signature'', CBytes (sd_signature d))]"

definition rd_delta :: "cbor \<Rightarrow> state_delta option" where
  "rd_delta c = do {
     m \<leftarrow> map_fields c;
     w \<leftarrow> field ''wire_version'' rd_u m;
     k \<leftarrow> field ''kind'' rd_delta_kind m;
     p \<leftarrow> field ''observer'' rd_peer m;
     t \<leftarrow> field ''observed_at'' rd_u m;
     sg \<leftarrow> field ''signature'' rd_bytes m;
     Some \<lparr>sd_wire_version = w, sd_kind = k, sd_observer = p, sd_observed_at = t, sd_signature = sg\<rparr>
   }"

lemma rd_wr_delta [wire_simps]: "wf_delta_kind (sd_kind d) \<Longrightarrow> rd_delta (wr_delta d) = Some d"
  by (simp add: rd_delta_def wr_delta_def read_defs wire_simps)

section \<open>Signing and verification\<close>

definition delta_unsigned :: "delta_kind \<Rightarrow> peer_id \<Rightarrow> u64 \<Rightarrow> state_delta" where
  "delta_unsigned kind observer observed_at =
     \<lparr>sd_wire_version = DELTA_WIRE_VERSION, sd_kind = kind, sd_observer = observer,
      sd_observed_at = observed_at, sd_signature = []\<rparr>"

definition sign_delta :: "prims \<Rightarrow> state_delta \<Rightarrow> bytes \<Rightarrow> state_delta" where
  "sign_delta P d k =
     (let unsigned = to_cbor_bytes P (wr_delta (d\<lparr>sd_signature := []\<rparr>))
      in d\<lparr>sd_signature := ed_sign P k unsigned\<rparr>)"

definition delta_decode_cbor :: "prims \<Rightarrow> bytes \<Rightarrow> state_delta option" where
  "delta_decode_cbor P b = from_cbor_bytes P rd_delta b"

definition delta_encode_cbor :: "prims \<Rightarrow> state_delta \<Rightarrow> bytes" where
  "delta_encode_cbor P d = to_cbor_bytes P (wr_delta d)"

definition verify_delta :: "prims \<Rightarrow> state_delta \<Rightarrow> bytes \<Rightarrow> delta_sign_error + unit" where
  "verify_delta P d vk =
     (if sd_wire_version d \<noteq> DELTA_WIRE_VERSION
      then Inl (WireVersion DELTA_WIRE_VERSION (sd_wire_version d))
      else if length (sd_signature d) \<noteq> 64 then Inl (InvalidSignatureLength (length (sd_signature d)))
      else if ed_verify P vk (to_cbor_bytes P (wr_delta (d\<lparr>sd_signature := []\<rparr>))) (sd_signature d)
      then Inr () else Inl (DeltaVerify BadEquation))"

interpretation delta_env: signed_envelope wr_delta rd_delta "\<lambda>d. wf_delta_kind (sd_kind d)"
  sd_signature "\<lambda>s x. x\<lparr>sd_signature := s\<rparr>" "\<lambda>x. x\<lparr>sd_signature := []\<rparr>"
  "\<lambda>x. sd_wire_version x = DELTA_WIRE_VERSION" "\<lambda>P vk x. verify_delta P x vk = Inr ()"
  by unfold_locales (simp_all add: rd_wr_delta verify_delta_def)

lemma sign_delta_verifies:
  "ed25519_ok P \<Longrightarrow> verify_delta P (sign_delta P (delta_unsigned kind ob t) k) (ed_public P k) = Inr ()"
  using delta_env.signed_accepted [of P "delta_unsigned kind ob t" k]
  by (simp add: sign_delta_def sign_bytes_def delta_unsigned_def Let_def)

lemma sign_delta_kind [simp]: "sd_kind (sign_delta P (delta_unsigned kind ob t) k) = kind"
  by (simp add: sign_delta_def delta_unsigned_def Let_def)

end
