(* ===== verification/Store.thy ===== *)
theory Store
  imports Delta
begin

text \<open>
  The shared-state store of \<open>server/parseh-shared-state/src/store.rs\<close> over the tables of
  \<open>schema.rs\<close>. A table is the list of its rows in rowid order, which is also the order in which
  rows that compare equal under an \<open>ORDER BY\<close> come out; an \<open>INTEGER\<close> column is an \<open>int\<close>, into
  which a \<open>u64\<close> goes as the signed value of its bits (\<open>as i64\<close>). The clock of \<open>now_unix\<close> is an
  argument. I/O failures of SQLite are not modelled; constraint failures are.
\<close>

section \<open>Tables\<close>

record task_row =
  tr_spec_hash :: chash
  tr_submitter :: peer_id
  tr_kind :: string
  tr_sensitive :: int
  tr_submitted_at :: int
  tr_spec_cbor :: bytes
  tr_observed_at :: int

record result_row =
  rr_result_hash :: chash
  rr_spec_hash :: chash
  rr_executor :: peer_id
  rr_executed_at :: int
  rr_result_cbor :: bytes
  rr_observed_at :: int

record verification_row =
  vf_verification_hash :: chash
  vf_result_hash :: chash
  vf_verifier :: peer_id
  vf_verdict_name :: string
  vf_method_name :: string
  vf_verified_at :: int
  vf_verification_cbor :: bytes
  vf_observed_at :: int

record outcome_row =
  or_outcome_hash :: chash
  or_spec_hash :: chash
  or_result_hash :: chash
  or_verdict :: string
  or_finalised_at :: int
  or_observed_by :: peer_id
  or_outcome_cbor :: bytes
  or_observed_at :: int

record reputation_row =
  pr_peer :: peer_id
  pr_delta :: int
  pr_reason :: string
  pr_related_hash :: "bytes option"
  pr_applied_at :: int

record rule_row =
  gr_rule_name :: string
  gr_rule_value :: string
  gr_proposed_at :: int
  gr_activated_at :: int
  gr_proposer :: peer_id
  gr_approvers :: bytes

record store =
  st_tasks :: "task_row list"
  st_results :: "result_row list"
  st_verifications :: "verification_row list"
  st_outcomes :: "outcome_row list"
  st_reputation_log :: "reputation_row list"
  st_governance_rules :: "rule_row list"

definition empty_store :: store where
  "empty_store = \<lparr>st_tasks = [], st_results = [], st_verifications = [], st_outcomes = [],
     st_reputation_log = [], st_governance_rules = []\<rparr>"

datatype sqlite_error = ConstraintViolation | IntegerOverflow

datatype store_error =
    SqliteErr sqlite_error
  | CborEncode
  | CborDecode
  | ForeignKey
  | BadSignature delta_sign_error

definition map_fk_err :: "sqlite_error \<Rightarrow> store_error" where
  "map_fk_err e = (case e of ConstraintViolation \<Rightarrow> ForeignKey | _ \<Rightarrow> SqliteErr e)"

text \<open>
  \<open>INSERT OR IGNORE\<close>: a primary key that is already there makes the statement a no-op; the
  foreign keys of a row that would go in are checked, and \<open>OR IGNORE\<close> does not cover them.
\<close>

definition insert_or_ignore ::
    "('r \<Rightarrow> 'k) \<Rightarrow> bool \<Rightarrow> 'r \<Rightarrow> 'r list \<Rightarrow> sqlite_error + 'r list" where
  "insert_or_ignore key fk_ok row t =
     (if key row \<in> set (map key t) then Inr t
      else if fk_ok then Inr (t @ [row])
      else Inl ConstraintViolation)"

definition map_err :: "('e \<Rightarrow> 'f) \<Rightarrow> 'e + 'a \<Rightarrow> 'f + 'a" where
  "map_err f r = (case r of Inl e \<Rightarrow> Inl (f e) | Inr x \<Rightarrow> Inr x)"

definition as_i64 :: "u64 \<Rightarrow> int" where
  "as_i64 w = sint w"

lemma as_i64_small: "unat w < 2 ^ 63 \<Longrightarrow> as_i64 w = int (unat w)"
proof -
  assume "unat w < 2 ^ 63"
  then have "int (unat w) < 2 ^ 63" by (simp flip: of_nat_less_iff [where ?'a = int])
  moreover have "- (2 ^ 63) \<le> int (unat w)" by (rule order_trans [of _ 0]) simp_all
  ultimately show ?thesis
    using signed_take_bit_int_eq_self [of 63 "uint w"] by (simp add: as_i64_def sint_uint)
qed

section \<open>Recording\<close>

definition record_spec :: "prims \<Rightarrow> int \<Rightarrow> store \<Rightarrow> job_spec \<Rightarrow> store_error + store" where
  "record_spec P now st spec =
     (let row = \<lparr>tr_spec_hash = spec_content_hash P spec, tr_submitter = js_submitter spec,
            tr_kind = job_kind_name (js_kind spec), tr_sensitive = (if js_sensitive spec then 1 else 0),
            tr_submitted_at = as_i64 (js_submitted_at spec),
            tr_spec_cbor = to_cbor_bytes P (wr_job_spec spec), tr_observed_at = now\<rparr>
      in bind_result (map_err SqliteErr (insert_or_ignore tr_spec_hash True row (st_tasks st)))
           (\<lambda>t. Inr (st\<lparr>st_tasks := t\<rparr>)))"

definition record_result :: "prims \<Rightarrow> int \<Rightarrow> store \<Rightarrow> job_result \<Rightarrow> store_error + store" where
  "record_result P now st result =
     (let row = \<lparr>rr_result_hash = result_content_hash P result, rr_spec_hash = jr_spec_hash result,
            rr_executor = jr_executor result, rr_executed_at = as_i64 (jr_executed_at result),
            rr_result_cbor = to_cbor_bytes P (wr_job_result result), rr_observed_at = now\<rparr>
      in bind_result (map_err map_fk_err (insert_or_ignore rr_result_hash
             (jr_spec_hash result \<in> set (map tr_spec_hash (st_tasks st))) row (st_results st)))
           (\<lambda>t. Inr (st\<lparr>st_results := t\<rparr>)))"

definition verdict_name :: "verifier_verdict \<Rightarrow> string" where
  "verdict_name v = (case v of Agreed \<Rightarrow> ''Agreed'' | Disagreed e \<Rightarrow> ''Disagreed'' | Abstained \<Rightarrow> ''Abstained'')"

definition record_verification :: "prims \<Rightarrow> int \<Rightarrow> store \<Rightarrow> job_verification \<Rightarrow> store_error + store" where
  "record_verification P now st v =
     (let row = \<lparr>vf_verification_hash = verification_content_hash P v, vf_result_hash = jv_result_hash v,
            vf_verifier = jv_verifier v, vf_verdict_name = verdict_name (jv_verdict v),
            vf_method_name = method_name (jv_method_used v),
            vf_verified_at = as_i64 (jv_verified_at v),
            vf_verification_cbor = to_cbor_bytes P (wr_job_verification v), vf_observed_at = now\<rparr>
      in bind_result (map_err map_fk_err (insert_or_ignore vf_verification_hash
             (jv_result_hash v \<in> set (map rr_result_hash (st_results st))) row (st_verifications st)))
           (\<lambda>t. Inr (st\<lparr>st_verifications := t\<rparr>)))"

definition outcome_verdict_name :: "outcome_verdict \<Rightarrow> string" where
  "outcome_verdict_name v =
     (case v of Valid a d b r \<Rightarrow> ''Valid'' | Disputed ps \<Rightarrow> ''Disputed'' | Indeterminate \<Rightarrow> ''Indeterminate'')"

definition outcome_row_of :: "prims \<Rightarrow> int \<Rightarrow> job_outcome \<Rightarrow> outcome_row" where
  "outcome_row_of P now x =
     \<lparr>or_outcome_hash = outcome_content_hash P x, or_spec_hash = jo_spec_hash x,
      or_result_hash = jo_result_hash x, or_verdict = outcome_verdict_name (jo_verdict x),
      or_finalised_at = as_i64 (jo_finalised_at x), or_observed_by = jo_observed_by x,
      or_outcome_cbor = to_cbor_bytes P (wr_job_outcome x), or_observed_at = now\<rparr>"

definition record_outcome :: "prims \<Rightarrow> int \<Rightarrow> store \<Rightarrow> job_outcome \<Rightarrow> store_error + store" where
  "record_outcome P now st x =
     bind_result (map_err map_fk_err (insert_or_ignore or_outcome_hash
         (jo_spec_hash x \<in> set (map tr_spec_hash (st_tasks st)) \<and>
          jo_result_hash x \<in> set (map rr_result_hash (st_results st)))
         (outcome_row_of P now x) (st_outcomes st)))
       (\<lambda>t. Inr (st\<lparr>st_outcomes := t\<rparr>))"

definition record_synced_outcome :: "prims \<Rightarrow> int \<Rightarrow> store \<Rightarrow> job_outcome \<Rightarrow> store_error + store" where
  "record_synced_outcome P now st x =
     (let stub_task = \<lparr>tr_spec_hash = jo_spec_hash x, tr_submitter = jo_observed_by x,
            tr_kind = ''SyncedStub'', tr_sensitive = 0, tr_submitted_at = as_i64 (jo_finalised_at x),
            tr_spec_cbor = [], tr_observed_at = as_i64 (jo_finalised_at x)\<rparr>;
          stub_result = \<lparr>rr_result_hash = jo_result_hash x, rr_spec_hash = jo_spec_hash x,
            rr_executor = jo_observed_by x, rr_executed_at = as_i64 (jo_finalised_at x),
            rr_result_cbor = [], rr_observed_at = as_i64 (jo_finalised_at x)\<rparr>
      in bind_result (map_err SqliteErr (insert_or_ignore tr_spec_hash True stub_task (st_tasks st)))
        (\<lambda>ts. bind_result (map_err SqliteErr (insert_or_ignore rr_result_hash
             (jo_spec_hash x \<in> set (map tr_spec_hash ts)) stub_result (st_results st)))
        (\<lambda>rs. bind_result (map_err map_fk_err (insert_or_ignore or_outcome_hash
             (jo_spec_hash x \<in> set (map tr_spec_hash ts) \<and>
              jo_result_hash x \<in> set (map rr_result_hash rs))
             (outcome_row_of P now x) (st_outcomes st)))
        (\<lambda>os. Inr (st\<lparr>st_tasks := ts, st_results := rs, st_outcomes := os\<rparr>)))))"

definition apply_reputation_delta ::
    "int \<Rightarrow> store \<Rightarrow> peer_id \<Rightarrow> i32 \<Rightarrow> string \<Rightarrow> chash option \<Rightarrow> store_error + store" where
  "apply_reputation_delta now st peer delta reason related_hash =
     Inr (st\<lparr>st_reputation_log := st_reputation_log st @
       [\<lparr>pr_peer = peer, pr_delta = sint delta, pr_reason = reason,
         pr_related_hash = map_option hash_bytes related_hash, pr_applied_at = now\<rparr>]\<rparr>)"

definition upsert_governance_rule ::
    "prims \<Rightarrow> int \<Rightarrow> store \<Rightarrow> string \<Rightarrow> string \<Rightarrow> peer_id \<Rightarrow> peer_id list \<Rightarrow> store_error + store" where
  "upsert_governance_rule P now st rule_name rule_value proposer approvers =
     (let approvers_cbor = to_cbor_bytes P (CArray (map (\<lambda>p. CArray (map wr_u (peer_bytes p))) approvers));
          rules = st_governance_rules st
      in Inr (st\<lparr>st_governance_rules :=
           (if rule_name \<in> set (map gr_rule_name rules)
            then map (\<lambda>r. if gr_rule_name r = rule_name
              then r\<lparr>gr_rule_value := rule_value, gr_activated_at := now, gr_proposer := proposer,
                gr_approvers := approvers_cbor\<rparr> else r) rules
            else rules @ [\<lparr>gr_rule_name = rule_name, gr_rule_value = rule_value, gr_proposed_at = now,
              gr_activated_at = now, gr_proposer = proposer, gr_approvers = approvers_cbor\<rparr>])\<rparr>))"

section \<open>Queries\<close>

text \<open>SQLite's \<open>SUM\<close> over integers fails when a partial sum leaves the \<open>i64\<close> range.\<close>

fun sql_sum :: "int \<Rightarrow> int list \<Rightarrow> sqlite_error + int" where
  "sql_sum acc [] = Inr acc"
| "sql_sum acc (d # ds) =
     (if - (2 ^ 63) \<le> acc + d \<and> acc + d < 2 ^ 63 then sql_sum (acc + d) ds else Inl IntegerOverflow)"

definition deltas_of :: "store \<Rightarrow> peer_id \<Rightarrow> int list" where
  "deltas_of st p = map pr_delta (filter (\<lambda>r. pr_peer r = p) (st_reputation_log st))"

definition reputation_of :: "store \<Rightarrow> peer_id \<Rightarrow> store_error + int" where
  "reputation_of st p = map_err SqliteErr (sql_sum 0 (deltas_of st p))"

text \<open>\<open>GROUP BY peer\<close> walks the groups in the order of the peer bytes.\<close>

definition established_peers :: "store \<Rightarrow> int \<Rightarrow> store_error + peer_id list" where
  "established_peers st min_rep =
     bind_result (map_results (\<lambda>p. bind_result (map_err SqliteErr (sql_sum 0 (deltas_of st p))) (\<lambda>n. Inr (p, n)))
         (sort_key peer_bytes (remdups (map pr_peer (st_reputation_log st)))))
       (\<lambda>groups. Inr (map fst (filter (\<lambda>(p, n). min_rep \<le> n) groups)))"

definition decode_rows :: "prims \<Rightarrow> (cbor \<Rightarrow> 'a option) \<Rightarrow> bytes list \<Rightarrow> store_error + 'a list" where
  "decode_rows P rd = map_results (\<lambda>b. case from_cbor_bytes P rd b of None \<Rightarrow> Inl CborDecode | Some x \<Rightarrow> Inr x)"

definition recent_tasks :: "prims \<Rightarrow> store \<Rightarrow> u64 \<Rightarrow> store_error + job_spec list" where
  "recent_tasks P st since_unix =
     decode_rows P rd_job_spec (map tr_spec_cbor
       (sort_key tr_submitted_at (filter (\<lambda>r. as_i64 since_unix \<le> tr_submitted_at r) (st_tasks st))))"

definition outcome_for_spec :: "prims \<Rightarrow> store \<Rightarrow> chash \<Rightarrow> store_error + job_outcome option" where
  "outcome_for_spec P st spec_hash =
     (case sort_key (\<lambda>r. - or_observed_at r) (filter (\<lambda>r. or_spec_hash r = spec_hash) (st_outcomes st)) of
        [] \<Rightarrow> Inr None
      | r # _ \<Rightarrow> (case from_cbor_bytes P rd_job_outcome (or_outcome_cbor r) of
          None \<Rightarrow> Inl CborDecode | Some x \<Rightarrow> Inr (Some x)))"

text \<open>A negative \<open>LIMIT\<close> is no limit.\<close>

definition sql_limit :: "u64 \<Rightarrow> 'a list \<Rightarrow> 'a list" where
  "sql_limit n xs = (if as_i64 n < 0 then xs else take (nat (as_i64 n)) xs)"

definition newest_first :: "outcome_row list \<Rightarrow> outcome_row list" where
  "newest_first rs = sort_key (\<lambda>r. - or_finalised_at r) (sort_key (\<lambda>r. hash_bytes (or_outcome_hash r)) rs)"

definition outcomes_since :: "prims \<Rightarrow> store \<Rightarrow> u64 \<Rightarrow> u64 \<Rightarrow> store_error + job_outcome list" where
  "outcomes_since P st since_unix limit =
     decode_rows P rd_job_outcome (map or_outcome_cbor
       (sql_limit limit (newest_first
         (filter (\<lambda>r. as_i64 since_unix \<le> or_finalised_at r) (st_outcomes st)))))"

definition verifications_for_result :: "prims \<Rightarrow> store \<Rightarrow> chash \<Rightarrow> store_error + job_verification list" where
  "verifications_for_result P st result_hash =
     decode_rows P rd_job_verification (map vf_verification_cbor
       (sort_key vf_verified_at (filter (\<lambda>r. vf_result_hash r = result_hash) (st_verifications st))))"

definition governance_rule :: "store \<Rightarrow> string \<Rightarrow> store_error + string option" where
  "governance_rule st name =
     Inr (case filter (\<lambda>r. gr_rule_name r = name) (st_governance_rules st) of
       [] \<Rightarrow> None | r # _ \<Rightarrow> Some (gr_rule_value r))"

definition i64_saturating_sub :: "int \<Rightarrow> int \<Rightarrow> int" where
  "i64_saturating_sub a b = max (- (2 ^ 63)) (min (2 ^ 63 - 1) (a - b))"

definition agreeing_rows :: "store \<Rightarrow> int \<Rightarrow> (peer_id \<times> chash \<times> peer_id) list" where
  "agreeing_rows st cutoff =
     [(tr_submitter t, or_outcome_hash x, vf_verifier v).
        x \<leftarrow> st_outcomes st, t \<leftarrow> st_tasks st, r \<leftarrow> st_results st, v \<leftarrow> st_verifications st,
        tr_spec_hash t = or_spec_hash x, rr_result_hash r = or_result_hash x,
        vf_result_hash v = rr_result_hash r,
        or_verdict x = ''Valid'', vf_verdict_name v = ''Agreed'', cutoff \<le> or_finalised_at x]"

definition per_outcome :: "(peer_id \<times> chash \<times> peer_id) list \<Rightarrow> (peer_id \<times> peer_id list) list" where
  "per_outcome rows =
     map (\<lambda>h. let mine = filter (\<lambda>(s, h', v). h' = h) rows
               in (fst (hd mine), sort_key peer_bytes (remdups (map (\<lambda>(s, h', v). v) mine))))
       (sort_key hash_bytes (remdups (map (\<lambda>(s, h, v). h) rows)))"

definition detect_repeating_verifier_sets ::
    "int \<Rightarrow> store \<Rightarrow> u64 \<Rightarrow> u32 \<Rightarrow> store_error + (peer_id \<times> peer_id list \<times> u32) list" where
  "detect_repeating_verifier_sets now st window_secs min_count =
     (let cutoff = i64_saturating_sub now (as_i64 window_secs);
          keys = per_outcome (agreeing_rows st cutoff);
          groups = map (\<lambda>k. (k, of_nat (length (filter (\<lambda>k'. k' = k) keys)) :: u32))
            (sort_key (\<lambda>(s, vs). map peer_bytes (s # vs)) (remdups keys))
      in Inr (map (\<lambda>((s, vs), n). (s, vs, n)) (filter (\<lambda>(k, n). min_count \<le> n) groups)))"

section \<open>Deltas\<close>

definition apply_delta :: "prims \<Rightarrow> int \<Rightarrow> store \<Rightarrow> state_delta \<Rightarrow> bytes \<Rightarrow> store_error + store" where
  "apply_delta P now st d signer_pubkey =
     (case verify_delta P d signer_pubkey of
        Inl e \<Rightarrow> Inl (BadSignature e)
      | Inr _ \<Rightarrow>
        (case sd_kind d of
           DeltaOutcome x \<Rightarrow> record_outcome P now st x
         | DeltaReputation peer n reason related_hash \<Rightarrow> apply_reputation_delta now st peer n reason related_hash
         | DeltaGovernanceRule rule_name rule_value proposer approvers \<Rightarrow>
             upsert_governance_rule P now st rule_name rule_value proposer approvers))"

definition deltas_since :: "prims \<Rightarrow> store \<Rightarrow> u64 \<Rightarrow> store_error + state_delta list" where
  "deltas_since P st observed_at_after =
     map_results (\<lambda>r. case from_cbor_bytes P rd_job_outcome (or_outcome_cbor r) of
         None \<Rightarrow> Inl CborDecode
       | Some x \<Rightarrow> Inr (delta_unsigned (DeltaOutcome x) (jo_observed_by x) (word_of_int (max 0 (or_observed_at r)))))
       (sort_key or_observed_at (filter (\<lambda>r. as_i64 observed_at_after < or_observed_at r) (st_outcomes st)))"

end
