(* ===== verification/Store_Invariant.thy ===== *)
theory Store_Invariant
  imports Store
begin

text \<open>
  The state machine of the shared-state store and its invariant: primary keys are unique, foreign
  keys resolve, rule names are unique, reputation deltas are 32-bit values, and every outcome row
  holds the encoding of the outcome whose content hash is its key.
\<close>

section \<open>Operations as events\<close>

datatype store_op =
    OpSpec job_spec
  | OpResult job_result
  | OpVerification job_verification
  | OpOutcome job_outcome
  | OpSynced job_outcome
  | OpReputation peer_id i32 string "chash option"
  | OpRule string string peer_id "peer_id list"
  | OpDelta state_delta bytes

fun store_exec :: "prims \<Rightarrow> int \<Rightarrow> store \<Rightarrow> store_op \<Rightarrow> store_error + store" where
  "store_exec P now st (OpSpec x) = record_spec P now st x"
| "store_exec P now st (OpResult x) = record_result P now st x"
| "store_exec P now st (OpVerification x) = record_verification P now st x"
| "store_exec P now st (OpOutcome x) = record_outcome P now st x"
| "store_exec P now st (OpSynced x) = record_synced_outcome P now st x"
| "store_exec P now st (OpReputation p d r h) = apply_reputation_delta now st p d r h"
| "store_exec P now st (OpRule n v p ps) = upsert_governance_rule P now st n v p ps"
| "store_exec P now st (OpDelta d vk) = apply_delta P now st d vk"

definition store_step :: "prims \<Rightarrow> store \<Rightarrow> int \<times> store_op \<Rightarrow> store" where
  "store_step P st e = (case store_exec P (fst e) st (snd e) of Inl _ \<Rightarrow> st | Inr st' \<Rightarrow> st')"

text \<open>The outcomes an event carries; their hashes have 32 bytes by their type in the code.\<close>

fun op_outcomes :: "store_op \<Rightarrow> job_outcome set" where
  "op_outcomes (OpOutcome x) = {x}"
| "op_outcomes (OpSynced x) = {x}"
| "op_outcomes (OpDelta d vk) = (case sd_kind d of DeltaOutcome x \<Rightarrow> {x} | _ \<Rightarrow> {})"
| "op_outcomes _ = {}"

definition ok_event :: "int \<times> store_op \<Rightarrow> bool" where
  "ok_event e \<longleftrightarrow> (\<forall>x \<in> op_outcomes (snd e). wf_outcome x)"

section \<open>The invariant\<close>

definition keys_ok :: "store \<Rightarrow> bool" where
  "keys_ok st \<longleftrightarrow> distinct (map tr_spec_hash (st_tasks st)) \<and> distinct (map rr_result_hash (st_results st)) \<and>
     distinct (map vf_verification_hash (st_verifications st)) \<and> distinct (map or_outcome_hash (st_outcomes st)) \<and>
     distinct (map gr_rule_name (st_governance_rules st))"

definition refs_ok :: "store \<Rightarrow> bool" where
  "refs_ok st \<longleftrightarrow> rr_spec_hash ` set (st_results st) \<subseteq> tr_spec_hash ` set (st_tasks st) \<and>
     vf_result_hash ` set (st_verifications st) \<subseteq> rr_result_hash ` set (st_results st) \<and>
     or_spec_hash ` set (st_outcomes st) \<subseteq> tr_spec_hash ` set (st_tasks st) \<and>
     or_result_hash ` set (st_outcomes st) \<subseteq> rr_result_hash ` set (st_results st)"

definition outcomes_ok :: "prims \<Rightarrow> store \<Rightarrow> bool" where
  "outcomes_ok P st \<longleftrightarrow> (\<forall>r \<in> set (st_outcomes st). \<exists>x now. wf_outcome x \<and> r = outcome_row_of P now x)"

definition deltas_ok :: "store \<Rightarrow> bool" where
  "deltas_ok st \<longleftrightarrow> (\<forall>r \<in> set (st_reputation_log st). - (2 ^ 31) \<le> pr_delta r \<and> pr_delta r < 2 ^ 31)"

definition store_inv :: "prims \<Rightarrow> store \<Rightarrow> bool" where
  "store_inv P st \<longleftrightarrow> keys_ok st \<and> refs_ok st \<and> outcomes_ok P st \<and> deltas_ok st"

lemmas store_inv_defs = store_inv_def keys_ok_def refs_ok_def outcomes_ok_def deltas_ok_def

lemma store_inv_empty: "store_inv P empty_store"
  by (simp add: store_inv_defs empty_store_def)

section \<open>Inserting rows\<close>

lemma insert_or_ignore_Inr:
  "insert_or_ignore key ok row t = Inr t' \<longleftrightarrow>
     (if key row \<in> set (map key t) then t' = t else ok \<and> t' = t @ [row])"
  by (auto simp: insert_or_ignore_def)

lemma insert_keeps_distinct:
  "insert_or_ignore key ok row t = Inr t' \<Longrightarrow> distinct (map key t) \<Longrightarrow> distinct (map key t')"
  by (auto simp: insert_or_ignore_Inr split: if_splits)

lemma insert_grows: "insert_or_ignore key ok row t = Inr t' \<Longrightarrow> set t \<subseteq> set t' \<and> set t' \<subseteq> insert row (set t)"
  by (auto simp: insert_or_ignore_Inr split: if_splits)

lemma insert_has_key: "insert_or_ignore key ok row t = Inr t' \<Longrightarrow> key row \<in> key ` set t'"
  by (auto simp: insert_or_ignore_Inr split: if_splits)

lemma insert_again: "insert_or_ignore key ok row t = Inr t' \<Longrightarrow> key row' = key row \<Longrightarrow>
    insert_or_ignore key ok' row' t' = Inr t'"
  by (auto simp: insert_or_ignore_def split: if_splits)

lemma insert_True: "\<exists>t'. insert_or_ignore key True row t = Inr t'"
  by (simp add: insert_or_ignore_def)

lemma map_err_Inr [simp]: "map_err f r = Inr x \<longleftrightarrow> r = Inr x"
  by (cases r) (simp_all add: map_err_def)

lemma map_err_of_Inr [simp]: "map_err f (Inr x) = Inr x"
  by (simp add: map_err_def)

section \<open>Every operation keeps the invariant\<close>

lemma add_task_inv:
  "store_inv P st \<Longrightarrow> insert_or_ignore tr_spec_hash ok row (st_tasks st) = Inr t \<Longrightarrow>
   store_inv P (st\<lparr>st_tasks := t\<rparr>)"
  using insert_keeps_distinct [of tr_spec_hash ok row "st_tasks st" t] insert_grows [of tr_spec_hash ok row "st_tasks st" t]
  unfolding store_inv_defs by simp (meson image_mono order_trans)

lemma add_result_inv:
  assumes "store_inv P st" and "insert_or_ignore rr_result_hash ok row (st_results st) = Inr t"
    and "ok \<Longrightarrow> rr_spec_hash row \<in> tr_spec_hash ` set (st_tasks st)"
  shows "store_inv P (st\<lparr>st_results := t\<rparr>)"
proof -
  have t: "t = st_results st \<or> t = st_results st @ [row] \<and> rr_spec_hash row \<in> tr_spec_hash ` set (st_tasks st)"
    using assms(2,3) by (simp add: insert_or_ignore_Inr split: if_splits)
  then have "rr_spec_hash ` set t \<subseteq> tr_spec_hash ` set (st_tasks st)"
    using assms(1) unfolding store_inv_def refs_ok_def by (elim disjE) simp_all
  moreover have "distinct (map rr_result_hash t)"
    using assms(1) insert_keeps_distinct [OF assms(2)] by (simp add: store_inv_def keys_ok_def)
  moreover have "set (st_results st) \<subseteq> set t" using t by auto
  then have "rr_result_hash ` set (st_results st) \<subseteq> rr_result_hash ` set t" by (rule image_mono)
  ultimately show ?thesis using assms(1) unfolding store_inv_defs by simp (meson order_trans)
qed

lemma add_verification_inv:
  assumes "store_inv P st" and "insert_or_ignore vf_verification_hash ok row (st_verifications st) = Inr t"
    and "ok \<Longrightarrow> vf_result_hash row \<in> rr_result_hash ` set (st_results st)"
  shows "store_inv P (st\<lparr>st_verifications := t\<rparr>)"
proof -
  have "vf_result_hash ` set t \<subseteq> rr_result_hash ` set (st_results st)"
    using assms by (auto simp: store_inv_def refs_ok_def insert_or_ignore_Inr split: if_splits)
  moreover have "distinct (map vf_verification_hash t)"
    using assms(1) insert_keeps_distinct [OF assms(2)] by (simp add: store_inv_def keys_ok_def)
  ultimately show ?thesis using assms(1) unfolding store_inv_defs by simp
qed

lemma add_outcome_inv:
  assumes "store_inv P st" and "wf_outcome x"
    and "insert_or_ignore or_outcome_hash ok (outcome_row_of P now x) (st_outcomes st) = Inr t"
    and "ok \<Longrightarrow> jo_spec_hash x \<in> tr_spec_hash ` set (st_tasks st) \<and>
      jo_result_hash x \<in> rr_result_hash ` set (st_results st)"
  shows "store_inv P (st\<lparr>st_outcomes := t\<rparr>)"
proof -
  have refs: "or_spec_hash ` set t \<subseteq> tr_spec_hash ` set (st_tasks st)"
      "or_result_hash ` set t \<subseteq> rr_result_hash ` set (st_results st)"
    using assms by (auto simp: store_inv_def refs_ok_def insert_or_ignore_Inr outcome_row_of_def split: if_splits)
  have rows: "\<forall>r \<in> set t. \<exists>x now. wf_outcome x \<and> r = outcome_row_of P now x"
    using assms(1,2) insert_grows [OF assms(3)] unfolding store_inv_def outcomes_ok_def by blast
  have "distinct (map or_outcome_hash t)"
    using assms(1) insert_keeps_distinct [OF assms(3)] by (simp add: store_inv_def keys_ok_def)
  with refs rows show ?thesis using assms(1) unfolding store_inv_defs by simp
qed

lemma add_reputation_inv:
  "store_inv P st \<Longrightarrow> - (2 ^ 31) \<le> pr_delta row \<Longrightarrow> pr_delta row < 2 ^ 31 \<Longrightarrow>
   store_inv P (st\<lparr>st_reputation_log := st_reputation_log st @ [row]\<rparr>)"
  unfolding store_inv_defs by simp

lemma record_spec_inv: "store_inv P st \<Longrightarrow> record_spec P now st x = Inr st' \<Longrightarrow> store_inv P st'"
  by (auto simp: record_spec_def Let_def bind_result_eq_Inr intro: add_task_inv)

lemma record_result_inv: "store_inv P st \<Longrightarrow> record_result P now st x = Inr st' \<Longrightarrow> store_inv P st'"
  by (auto simp: record_result_def Let_def bind_result_eq_Inr elim!: add_result_inv)

lemma record_verification_inv: "store_inv P st \<Longrightarrow> record_verification P now st x = Inr st' \<Longrightarrow> store_inv P st'"
  by (auto simp: record_verification_def Let_def bind_result_eq_Inr elim!: add_verification_inv)

lemma record_outcome_inv:
  "store_inv P st \<Longrightarrow> wf_outcome x \<Longrightarrow> record_outcome P now st x = Inr st' \<Longrightarrow> store_inv P st'"
  by (auto simp: record_outcome_def bind_result_eq_Inr elim!: add_outcome_inv)

lemma record_synced_outcome_inv:
  assumes "store_inv P st" and "wf_outcome x" and "record_synced_outcome P now st x = Inr st'"
  shows "store_inv P st'"
proof -
  let ?t = "as_i64 (jo_finalised_at x)"
  let ?task = "\<lparr>tr_spec_hash = jo_spec_hash x, tr_submitter = jo_observed_by x,
     tr_kind = ''SyncedStub'', tr_sensitive = 0, tr_submitted_at = ?t, tr_spec_cbor = [], tr_observed_at = ?t\<rparr>"
  let ?result = "\<lparr>rr_result_hash = jo_result_hash x, rr_spec_hash = jo_spec_hash x,
     rr_executor = jo_observed_by x, rr_executed_at = ?t, rr_result_cbor = [], rr_observed_at = ?t\<rparr>"
  obtain ts rs ys where ts: "insert_or_ignore tr_spec_hash True ?task (st_tasks st) = Inr ts"
    and rs: "insert_or_ignore rr_result_hash (jo_spec_hash x \<in> set (map tr_spec_hash ts)) ?result (st_results st) = Inr rs"
    and ys: "insert_or_ignore or_outcome_hash (jo_spec_hash x \<in> set (map tr_spec_hash ts) \<and>
       jo_result_hash x \<in> set (map rr_result_hash rs)) (outcome_row_of P now x) (st_outcomes st) = Inr ys"
    and st': "st' = st\<lparr>st_tasks := ts, st_results := rs, st_outcomes := ys\<rparr>"
    using assms(3) by (auto simp: record_synced_outcome_def Let_def bind_result_eq_Inr)
  let ?s1 = "st\<lparr>st_tasks := ts\<rparr>" let ?s2 = "?s1\<lparr>st_results := rs\<rparr>"
  have "store_inv P ?s1" using assms(1) ts by (rule add_task_inv)
  moreover have "insert_or_ignore rr_result_hash (jo_spec_hash x \<in> set (map tr_spec_hash ts)) ?result (st_results ?s1) = Inr rs"
    using rs by simp
  ultimately have "store_inv P ?s2" by (rule add_result_inv) simp
  moreover have "insert_or_ignore or_outcome_hash (jo_spec_hash x \<in> set (map tr_spec_hash ts) \<and>
       jo_result_hash x \<in> set (map rr_result_hash rs)) (outcome_row_of P now x) (st_outcomes ?s2) = Inr ys"
    using ys by simp
  ultimately have "store_inv P (?s2\<lparr>st_outcomes := ys\<rparr>)" using assms(2) by (elim add_outcome_inv) simp_all
  then show ?thesis by (simp add: st')
qed

lemma apply_reputation_delta_inv:
  "store_inv P st \<Longrightarrow> apply_reputation_delta now st p d r h = Inr st' \<Longrightarrow> store_inv P st'"
  using sint_range_size [of d]
  by (auto simp: apply_reputation_delta_def word_size intro!: add_reputation_inv)

lemma upsert_names:
  "upsert_governance_rule P now st n v p ps = Inr st' \<Longrightarrow>
   map gr_rule_name (st_governance_rules st') =
     (if n \<in> set (map gr_rule_name (st_governance_rules st)) then map gr_rule_name (st_governance_rules st)
      else map gr_rule_name (st_governance_rules st) @ [n]) \<and>
   st' = st\<lparr>st_governance_rules := st_governance_rules st'\<rparr>"
  by (auto simp: upsert_governance_rule_def Let_def)

lemma upsert_governance_rule_inv:
  assumes "store_inv P st" and "upsert_governance_rule P now st n v p ps = Inr st'"
  shows "store_inv P st'"
proof -
  obtain rs where st': "st' = st\<lparr>st_governance_rules := rs\<rparr>"
    and names: "map gr_rule_name rs =
     (if n \<in> set (map gr_rule_name (st_governance_rules st)) then map gr_rule_name (st_governance_rules st)
      else map gr_rule_name (st_governance_rules st) @ [n])"
    using upsert_names [OF assms(2)] by metis
  from assms(1) have "distinct (map gr_rule_name rs)"
    unfolding names store_inv_def keys_ok_def by (auto split: if_splits)
  with assms(1) show ?thesis unfolding st' store_inv_defs by simp
qed

lemma store_exec_inv:
  assumes "store_inv P st" and "\<forall>x \<in> op_outcomes op. wf_outcome x" and "store_exec P now st op = Inr st'"
  shows "store_inv P st'"
proof (cases op)
  case (OpDelta d vk)
  with assms show ?thesis
    by (auto simp: apply_delta_def split: sum.splits delta_kind.splits
        intro: record_outcome_inv apply_reputation_delta_inv upsert_governance_rule_inv)
qed (use assms in \<open>auto intro: record_spec_inv record_result_inv record_verification_inv record_outcome_inv
    record_synced_outcome_inv apply_reputation_delta_inv upsert_governance_rule_inv\<close>)

interpretation store_ts: typed_transition_system "store_step P" "store_inv P" ok_event for P
proof
  fix st e
  assume "store_inv P st" "ok_event e"
  then show "store_inv P (store_step P st e)"
    by (auto simp: store_step_def ok_event_def intro: store_exec_inv split: sum.split)
qed

end
