(* ===== verification/Store_Properties.thy ===== *)
theory Store_Properties
  imports Store_Invariant
begin

text \<open>
  What the shared-state store promises: its invariant over whole histories, idempotent recording,
  what the anti-entropy query returns, reputation as the sum of the log, last-write-wins rules;
  and two behaviours of the code that its documentation describes otherwise.
\<close>

section \<open>Histories\<close>

text \<open>
  C23. Over every history of recordings, synced outcomes, deltas, reputation changes and rule
  updates, whatever fails in between, the store keeps unique primary keys, resolved foreign keys,
  unique rule names and decodable outcome rows.
\<close>

theorem store_history_inv:
  assumes "\<forall>e \<in> set es. ok_event e"
  shows "store_inv P (run_steps (store_step P) empty_store es)"
  by (rule store_ts.typed_run_inv [OF store_inv_empty]) (use assms in blast)

definition demo_history :: "(int \<times> store_op) list" where
  "demo_history = [(10, OpSynced (demo_outcome 5)), (11, OpReputation (PeerId [1]) 5 ''verification_agreed'' None),
     (12, OpOutcome (demo_outcome 6))]"

lemma demo_history_ok: "\<forall>e \<in> set demo_history. ok_event e"
  by (simp add: demo_history_def ok_event_def wf_demo_outcome)

theorem store_history_inv_witness:
  "store_inv demo_prims (run_steps (store_step demo_prims) empty_store demo_history)"
  by (rule store_history_inv [OF demo_history_ok])

section \<open>Idempotence\<close>

fun is_recording :: "store_op \<Rightarrow> bool" where
  "is_recording (OpReputation p d r h) = False"
| "is_recording (OpRule n v p ps) = False"
| "is_recording (OpDelta d vk) = False"
| "is_recording _ = True"

lemma synced_again:
  assumes "record_synced_outcome P now st x = Inr st'"
  shows "record_synced_outcome P now' st' x = Inr st'"
proof -
  let ?t = "as_i64 (jo_finalised_at x)"
  let ?task = "\<lparr>tr_spec_hash = jo_spec_hash x, tr_submitter = jo_observed_by x,
     tr_kind = ''SyncedStub'', tr_sensitive = 0, tr_submitted_at = ?t, tr_spec_cbor = [], tr_observed_at = ?t\<rparr>"
  let ?result = "\<lparr>rr_result_hash = jo_result_hash x, rr_spec_hash = jo_spec_hash x,
     rr_executor = jo_observed_by x, rr_executed_at = ?t, rr_result_cbor = [], rr_observed_at = ?t\<rparr>"
  obtain ts rs ys ok ok' where ins: "insert_or_ignore tr_spec_hash True ?task (st_tasks st) = Inr ts"
      "insert_or_ignore rr_result_hash ok ?result (st_results st) = Inr rs"
      "insert_or_ignore or_outcome_hash ok' (outcome_row_of P now x) (st_outcomes st) = Inr ys"
    and st': "st' = st\<lparr>st_tasks := ts, st_results := rs, st_outcomes := ys\<rparr>"
    using assms by (auto simp: record_synced_outcome_def Let_def bind_result_eq_Inr)
  have "insert_or_ignore or_outcome_hash b (outcome_row_of P now' x) ys = Inr ys" for b
    by (rule insert_again [OF ins(3)]) (simp add: outcome_row_of_def)
  then show ?thesis
    using insert_again [OF ins(1) refl] insert_again [OF ins(2) refl]
    by (simp add: record_synced_outcome_def Let_def st')
qed

text \<open>
  Recording is idempotent: a spec, result, verification or outcome, gossiped or synced, that was
  recorded once is accepted again at any later time without any change to the store.
\<close>

theorem recording_idempotent:
  assumes "is_recording op" and "store_exec P now st op = Inr st'"
  shows "store_exec P now' st' op = Inr st'"
proof (cases op)
  case (OpSpec x)
  with assms show ?thesis
    by (auto simp: record_spec_def Let_def bind_result_eq_Inr insert_or_ignore_def split: if_splits)
next
  case (OpResult x)
  with assms show ?thesis
    by (auto simp: record_result_def Let_def bind_result_eq_Inr insert_or_ignore_def split: if_splits)
next
  case (OpVerification x)
  with assms show ?thesis
    by (auto simp: record_verification_def Let_def bind_result_eq_Inr insert_or_ignore_def split: if_splits)
next
  case (OpOutcome x)
  with assms show ?thesis
    by (auto simp: record_outcome_def bind_result_eq_Inr insert_or_ignore_def outcome_row_of_def split: if_splits)
next
  case (OpSynced x)
  with assms show ?thesis by (auto intro: synced_again)
qed (use assms(1) in simp_all)

lemma synced_succeeds: "\<exists>st'. record_synced_outcome P now st x = Inr st'"
  by (auto simp: record_synced_outcome_def Let_def bind_result_def map_err_def insert_or_ignore_def)

theorem recording_idempotent_witness:
  "\<exists>st. store_exec demo_prims 1 empty_store (OpSynced (demo_outcome 5)) = Inr st \<and>
        store_exec demo_prims 2 st (OpSynced (demo_outcome 5)) = Inr st"
proof -
  obtain st where "store_exec demo_prims 1 empty_store (OpSynced (demo_outcome 5)) = Inr st"
    using synced_succeeds by fastforce
  with recording_idempotent [OF _ this, of 2] show ?thesis by auto
qed

section \<open>The anti-entropy query\<close>

definition row_outcome :: "prims \<Rightarrow> outcome_row \<Rightarrow> job_outcome" where
  "row_outcome P r = the (from_cbor_bytes P rd_job_outcome (or_outcome_cbor r))"

definition recorded :: "prims \<Rightarrow> store \<Rightarrow> job_outcome \<Rightarrow> bool" where
  "recorded P st x \<longleftrightarrow> (\<exists>r \<in> set (st_outcomes st). from_cbor_bytes P rd_job_outcome (or_outcome_cbor r) = Some x)"

lemma outcome_row_decodes:
  "cbor_ok P \<Longrightarrow> wf_outcome x \<Longrightarrow>
   from_cbor_bytes P rd_job_outcome (or_outcome_cbor (outcome_row_of P now x)) = Some x"
  by (simp add: outcome_row_of_def outcome_env.roundtrip)

lemma stored_row:
  assumes "cbor_ok P" and "store_inv P st" and "r \<in> set (st_outcomes st)"
  shows "from_cbor_bytes P rd_job_outcome (or_outcome_cbor r) = Some (row_outcome P r)"
    and "or_outcome_hash r = outcome_content_hash P (row_outcome P r)"
    and "or_finalised_at r = as_i64 (jo_finalised_at (row_outcome P r))"
proof -
  obtain x now where x: "wf_outcome x" "r = outcome_row_of P now x"
    using assms(2,3) unfolding store_inv_def outcomes_ok_def by blast
  then have "row_outcome P r = x" using outcome_row_decodes [OF assms(1)] by (simp add: row_outcome_def)
  with x show "from_cbor_bytes P rd_job_outcome (or_outcome_cbor r) = Some (row_outcome P r)"
    "or_outcome_hash r = outcome_content_hash P (row_outcome P r)"
    "or_finalised_at r = as_i64 (jo_finalised_at (row_outcome P r))"
    using outcome_row_decodes [OF assms(1), of x now] by (simp_all add: outcome_row_of_def)
qed

lemma recorded_image:
  "cbor_ok P \<Longrightarrow> store_inv P st \<Longrightarrow> recorded P st x \<longleftrightarrow> x \<in> row_outcome P ` set (st_outcomes st)"
  unfolding recorded_def by (auto simp: stored_row image_iff)

lemma row_outcome_inj:
  assumes "cbor_ok P" and "store_inv P st"
  shows "inj_on (row_outcome P) (set (st_outcomes st))"
proof (rule inj_onI)
  fix r r'
  assume r: "r \<in> set (st_outcomes st)" "r' \<in> set (st_outcomes st)" "row_outcome P r = row_outcome P r'"
  then have "or_outcome_hash r = or_outcome_hash r'" using stored_row(2) [OF assms] by metis
  with r assms(2) show "r = r'"
    by (auto simp: store_inv_def keys_ok_def distinct_map inj_on_def)
qed

lemma decode_stored_rows:
  assumes "cbor_ok P" and "store_inv P st" and "set rs \<subseteq> set (st_outcomes st)"
  shows "decode_rows P rd_job_outcome (map or_outcome_cbor rs) = Inr (map (row_outcome P) rs)"
proof -
  have "map_results (\<lambda>b. case from_cbor_bytes P rd_job_outcome b of None \<Rightarrow> Inl CborDecode | Some x \<Rightarrow> Inr x)
      (map or_outcome_cbor rs) =
    Inr (map (\<lambda>b. the (from_cbor_bytes P rd_job_outcome b)) (map or_outcome_cbor rs))"
    by (rule map_results_Inr) (use assms in \<open>auto simp: stored_row subset_iff\<close>)
  then show ?thesis by (simp add: decode_rows_def row_outcome_def comp_def)
qed

lemma newest_first_facts:
  "set (newest_first rs) = set rs" "length (newest_first rs) = length rs"
  "distinct (newest_first rs) \<longleftrightarrow> distinct rs" "sorted (map (\<lambda>r. - or_finalised_at r) (newest_first rs))"
  by (simp_all add: newest_first_def)

text \<open>
  The query behind state sync answers exactly: on every reachable store it succeeds, returns
  without repetition the recorded outcomes finalised at or after \<open>since\<close>, newest first, as many as
  the limit admits, and what it leaves out is not newer than anything it returns.
\<close>

lemma outcomes_since_spec:
  assumes "cbor_ok P" and "store_inv P st" and "unat limit < 2 ^ 63"
  shows "\<exists>xs. outcomes_since P st since limit = Inr xs \<and> distinct xs \<and>
    sorted (map (\<lambda>x. - as_i64 (jo_finalised_at x)) xs) \<and>
    set xs \<subseteq> {x. recorded P st x \<and> as_i64 since \<le> as_i64 (jo_finalised_at x)} \<and>
    length xs = min (unat limit) (card {x. recorded P st x \<and> as_i64 since \<le> as_i64 (jo_finalised_at x)}) \<and>
    (\<forall>x y. recorded P st x \<and> as_i64 since \<le> as_i64 (jo_finalised_at x) \<and> x \<notin> set xs \<and> y \<in> set xs \<longrightarrow>
       as_i64 (jo_finalised_at x) \<le> as_i64 (jo_finalised_at y))"
proof -
  let ?f = "row_outcome P" and ?t = "\<lambda>x. - as_i64 (jo_finalised_at x)"
  let ?rs = "newest_first (filter (\<lambda>r. as_i64 since \<le> or_finalised_at r) (st_outcomes st))"
  let ?M = "{x. recorded P st x \<and> as_i64 since \<le> as_i64 (jo_finalised_at x)}"
  have lim: "sql_limit limit ?rs = take (unat limit) ?rs"
    using assms(3) by (simp add: sql_limit_def as_i64_small)
  have sub: "set ?rs \<subseteq> set (st_outcomes st)" by (auto simp: newest_first_facts)
  have M: "?M = ?f ` set ?rs"
    unfolding recorded_image [OF assms(1,2)] newest_first_facts using stored_row(3) [OF assms(1,2)] by auto
  have inj: "inj_on ?f (set ?rs)" using row_outcome_inj [OF assms(1,2)] sub by (rule inj_on_subset)
  have "distinct (st_outcomes st)" using assms(2) by (auto simp: store_inv_def keys_ok_def distinct_map)
  then have dist: "distinct (map ?f ?rs)" using inj by (simp add: distinct_map newest_first_facts)
  have "?t (?f r) = - or_finalised_at r" if "r \<in> set ?rs" for r
    using stored_row(3) [OF assms(1,2), of r] that sub by auto
  then have "map ?t (map ?f ?rs) = map (\<lambda>r. - or_finalised_at r) ?rs"
    unfolding map_map by (intro map_cong [OF refl]) (simp only: comp_apply)
  then have srt: "sorted (map ?t (map ?f ?rs))" by (simp only: newest_first_facts(4))
  show ?thesis
  proof (intro exI conjI allI impI)
    show "outcomes_since P st since limit = Inr (take (unat limit) (map ?f ?rs))"
      unfolding outcomes_since_def lim take_map
      by (rule decode_stored_rows [OF assms(1,2)]) (rule order_trans [OF set_take_subset sub])
    show "distinct (take (unat limit) (map ?f ?rs))" using dist by (rule distinct_take)
    show "sorted (map ?t (take (unat limit) (map ?f ?rs)))"
      using srt by (metis sorted_wrt_take take_map)
    show "set (take (unat limit) (map ?f ?rs)) \<subseteq> ?M" 
      unfolding M using set_take_subset [of "unat limit" "map ?f ?rs"] by (simp only: set_map)
    show "length (take (unat limit) (map ?f ?rs)) = min (unat limit) (card ?M)"
      unfolding M using distinct_card [OF dist] by simp
  next
    fix x y
    assume a: "recorded P st x \<and> as_i64 since \<le> as_i64 (jo_finalised_at x) \<and>
      x \<notin> set (take (unat limit) (map ?f ?rs)) \<and> y \<in> set (take (unat limit) (map ?f ?rs))"
    then have "x \<in> set (map ?f ?rs)" using M by auto
    with sorted_take_le [OF srt] a show "as_i64 (jo_finalised_at x) \<le> as_i64 (jo_finalised_at y)" by fastforce
  qed
qed

definition demo_store :: store where
  "demo_store = run_steps (store_step demo_prims) empty_store demo_history"

lemma demo_store_inv: "store_inv demo_prims demo_store"
  unfolding demo_store_def
  by (rule store_ts.typed_run_inv [OF store_inv_empty]) (use demo_history_ok in blast)

section \<open>Synced outcomes\<close>

lemma recorded_mono:
  "set (st_outcomes st) \<subseteq> set (st_outcomes st') \<Longrightarrow> recorded P st x \<Longrightarrow> recorded P st' x"
  by (auto simp: recorded_def)

text \<open>An outcome can only be kept out of the table by another one with the same content hash.\<close>

definition displaced :: "prims \<Rightarrow> store \<Rightarrow> job_outcome \<Rightarrow> bool" where
  "displaced P st x \<longleftrightarrow> (\<exists>y. recorded P st y \<and> y \<noteq> x \<and> outcome_content_hash P y = outcome_content_hash P x)"

text \<open>
  Recording a synced outcome always succeeds, whether or not the node ever saw its task and result,
  keeps the invariant and every outcome recorded before, and the outcome itself is recorded unless
  another one holds its content hash.
\<close>

lemma synced_recorded:
  assumes "cbor_ok P" and "store_inv P st" and "wf_outcome x"
  shows "\<exists>st'. record_synced_outcome P now st x = Inr st' \<and> store_inv P st' \<and>
    {y. recorded P st y} \<subseteq> {y. recorded P st' y} \<and> (recorded P st' x \<or> displaced P st' x)"
proof -
  obtain st' where st': "record_synced_outcome P now st x = Inr st'" using synced_succeeds by blast
  then obtain ok where ins:
    "insert_or_ignore or_outcome_hash ok (outcome_row_of P now x) (st_outcomes st) = Inr (st_outcomes st')"
    by (auto simp: record_synced_outcome_def Let_def bind_result_eq_Inr)
  have inv: "store_inv P st'" using assms(2,3) st' by (rule record_synced_outcome_inv)
  have "or_outcome_hash (outcome_row_of P now x) \<in> or_outcome_hash ` set (st_outcomes st')"
    by (rule insert_has_key [OF ins])
  then obtain r where r: "r \<in> set (st_outcomes st')" "or_outcome_hash r = outcome_content_hash P x"
    by (auto simp: outcome_row_of_def)
  then obtain y now' where y: "wf_outcome y" "r = outcome_row_of P now' y"
    using inv unfolding store_inv_def outcomes_ok_def by blast
  then have "outcome_content_hash P y = outcome_content_hash P x" using r(2) by (simp add: outcome_row_of_def)
  moreover have "recorded P st' y"
    using r(1) y outcome_row_decodes [OF assms(1) y(1)] by (auto simp: recorded_def)
  moreover have "{y. recorded P st y} \<subseteq> {y. recorded P st' y}"
    using insert_grows [OF ins] recorded_mono by blast
  ultimately show ?thesis using st' inv unfolding displaced_def by blast
qed

text \<open>
  C24. A synced outcome for an unknown task disables the task listing: the stub row it leaves has an
  empty body, so \<open>recent_tasks\<close> fails as a whole for every window that contains the outcome, and
  the real spec, when it arrives, is ignored because the stub owns its key.
\<close>

theorem synced_stub_breaks_recent_tasks:
  assumes "cbor_ok P" and "jo_spec_hash x \<notin> tr_spec_hash ` set (st_tasks st)"
    and "record_synced_outcome P now st x = Inr st'" and "as_i64 since \<le> as_i64 (jo_finalised_at x)"
  shows "(\<exists>e. recent_tasks P st' since = Inl e) \<and>
    (\<forall>spec now'. spec_content_hash P spec = jo_spec_hash x \<longrightarrow> record_spec P now' st' spec = Inr st')"
proof -
  let ?t = "as_i64 (jo_finalised_at x)"
  let ?stub = "\<lparr>tr_spec_hash = jo_spec_hash x, tr_submitter = jo_observed_by x,
     tr_kind = ''SyncedStub'', tr_sensitive = 0, tr_submitted_at = ?t, tr_spec_cbor = [], tr_observed_at = ?t\<rparr>"
  have ts: "st_tasks st' = st_tasks st @ [?stub]"
    using assms(2,3)
    by (auto simp: record_synced_outcome_def Let_def bind_result_eq_Inr insert_or_ignore_Inr split: if_splits)
  have "[] \<in> set (map tr_spec_cbor (sort_key tr_submitted_at
      (filter (\<lambda>r. as_i64 since \<le> tr_submitted_at r) (st_tasks st'))))"
    using assms(4) by (simp add: ts image_iff)
  then have "\<exists>e. recent_tasks P st' since = Inl e"
    unfolding recent_tasks_def decode_rows_def
    by (rule map_results_Inl [where e = CborDecode]) (simp add: from_cbor_bytes_Nil [OF assms(1)])
  moreover have "record_spec P now' st' spec = Inr st'" if "spec_content_hash P spec = jo_spec_hash x" for spec now'
    using that ts by (simp add: record_spec_def Let_def insert_or_ignore_def)
  ultimately show ?thesis by blast
qed

theorem synced_stub_breaks_recent_tasks_witness:
  "\<exists>st e. record_synced_outcome demo_prims 1 empty_store (demo_outcome 5) = Inr st \<and>
     recent_tasks demo_prims st 0 = Inl e"
proof -
  obtain st where st: "record_synced_outcome demo_prims 1 empty_store (demo_outcome 5) = Inr st"
    using synced_succeeds by blast
  have "as_i64 0 \<le> as_i64 (jo_finalised_at (demo_outcome 5))"
    by (simp add: demo_outcome_def as_i64_def)
  with synced_stub_breaks_recent_tasks [OF demo_ok(3) _ st, of 0] st show ?thesis
    by (auto simp: empty_store_def)
qed

section \<open>Reputation\<close>

lemma sql_sum_exact:
  assumes "\<forall>d \<in> set ds. - (2 ^ 31) \<le> d \<and> d < 2 ^ 31"
    and "\<bar>acc\<bar> + 2 ^ 31 * int (length ds) < 2 ^ 63"
  shows "sql_sum acc ds = Inr (acc + sum_list ds)"
  using assms
proof (induction ds arbitrary: acc)
  case (Cons d ds)
  have d: "\<bar>d\<bar> \<le> 2 ^ 31" using Cons.prems(1) by auto
  have "\<bar>acc + d\<bar> + 2 ^ 31 * int (length ds) < 2 ^ 63"
    using Cons.prems(2) d abs_triangle_ineq [of acc d] by simp
  moreover from this have "- (2 ^ 63) \<le> acc + d \<and> acc + d < 2 ^ 63" by (simp add: abs_if split: if_splits)
  ultimately show ?case using Cons.IH [of "acc + d"] Cons.prems(1) by simp
qed simp

lemma deltas_of_bounds:
  "deltas_ok st \<Longrightarrow> \<forall>d \<in> set (deltas_of st p). - (2 ^ 31) \<le> d \<and> d < 2 ^ 31"
  by (auto simp: deltas_ok_def deltas_of_def)

lemma reputation_sum:
  assumes "deltas_ok st" and "length (st_reputation_log st) < 2 ^ 32"
  shows "sql_sum 0 (deltas_of st p) = Inr (sum_list (deltas_of st p))"
proof -
  have "length (deltas_of st p) < 2 ^ 32"
    unfolding deltas_of_def length_map by (rule order_le_less_trans [OF length_filter_le assms(2)])
  then have "\<bar>0\<bar> + 2 ^ 31 * int (length (deltas_of st p)) < 2 ^ 63" by simp
  from sql_sum_exact [OF deltas_of_bounds [OF assms(1)] this] show ?thesis by simp
qed

text \<open>
  Reputation is the sum of the log: while the log has fewer than \<open>2^32\<close> entries the query never
  overflows, it returns the exact sum of the peer's deltas, and applying a delta adds it to its
  peer and to no one else.
\<close>

theorem reputation_is_log_sum:
  assumes "store_inv P st" and "Suc (length (st_reputation_log st)) < 2 ^ 32"
    and "apply_reputation_delta now st p d reason h = Inr st'"
  shows "reputation_of st q = Inr (sum_list (deltas_of st q)) \<and>
    reputation_of st' q = Inr (sum_list (deltas_of st q) + (if q = p then sint d else 0))"
proof -
  have ok: "deltas_ok st" "deltas_ok st'"
    using assms(1) apply_reputation_delta_inv [OF assms(1,3)] by (simp_all add: store_inv_def)
  have log: "st_reputation_log st' = st_reputation_log st @ [\<lparr>pr_peer = p, pr_delta = sint d, pr_reason = reason,
      pr_related_hash = map_option hash_bytes h, pr_applied_at = now\<rparr>]"
    using assms(3) by (auto simp: apply_reputation_delta_def)
  then have "deltas_of st' q = deltas_of st q @ (if q = p then [sint d] else [])" by (auto simp: deltas_of_def)
  moreover have "length (st_reputation_log st') < 2 ^ 32" using assms(2) log by simp
  ultimately show ?thesis
    using reputation_sum [OF ok(1), of q] reputation_sum [OF ok(2), of q] assms(2)
    by (simp add: reputation_of_def)
qed

theorem reputation_is_log_sum_witness:
  "\<exists>st'. apply_reputation_delta 5 empty_store (PeerId [1]) 7 ''vouched'' None = Inr st' \<and>
     reputation_of st' (PeerId [1]) = Inr 7"
proof -
  obtain st' where st': "apply_reputation_delta 5 empty_store (PeerId [1]) 7 ''vouched'' None = Inr st'"
    by (simp add: apply_reputation_delta_def)
  have "Suc (length (st_reputation_log empty_store)) < 2 ^ 32" by (simp add: empty_store_def)
  from reputation_is_log_sum [OF store_inv_empty this st', of "PeerId [1]"] st' show ?thesis
    by (simp add: deltas_of_def empty_store_def)
qed

text \<open>
  The established-peer query is exact: it lists, once each and in byte order, exactly the peers
  with a log entry whose reputation is at least the threshold.
\<close>

theorem established_peers_exact:
  assumes "store_inv P st" and "length (st_reputation_log st) < 2 ^ 32"
  shows "\<exists>ps. established_peers st min_rep = Inr ps \<and> distinct ps \<and> sorted (map peer_bytes ps) \<and>
    set ps = {p \<in> pr_peer ` set (st_reputation_log st). min_rep \<le> sum_list (deltas_of st p)}"
proof -
  let ?ks = "sort_key peer_bytes (remdups (map pr_peer (st_reputation_log st)))"
  let ?sum = "\<lambda>p. sum_list (deltas_of st p)"
  have "deltas_ok st" using assms(1) by (simp add: store_inv_def)
  then have "map_results (\<lambda>p. bind_result (map_err SqliteErr (sql_sum 0 (deltas_of st p))) (\<lambda>n. Inr (p, n))) ?ks =
      Inr (map (\<lambda>p. (p, ?sum p)) ?ks)"
    by (intro map_results_Inr) (simp add: reputation_sum [OF _ assms(2)])
  then have e: "established_peers st min_rep = Inr (filter (\<lambda>p. min_rep \<le> ?sum p) ?ks)"
    by (simp add: established_peers_def filter_map comp_def)
  have "sorted (map peer_bytes (filter (\<lambda>p. min_rep \<le> ?sum p) ?ks))" by (rule sorted_filter) simp
  then show ?thesis
    by (intro exI [of _ "filter (\<lambda>p. min_rep \<le> ?sum p) ?ks"] conjI e) auto
qed

theorem established_peers_exact_witness:
  "\<exists>ps. established_peers empty_store 10 = Inr ps \<and> set ps = {}"
  using established_peers_exact [OF store_inv_empty, of 10] by (auto simp: empty_store_def)

section \<open>Governance rules and deltas\<close>

text \<open>
  Governance rules are last-write-wins by name: after an update the rule reads back the new
  value and every other rule reads as before.
\<close>

theorem governance_last_write_wins:
  assumes "upsert_governance_rule P now st name v p ps = Inr st'"
  shows "governance_rule st' name' = (if name' = name then Inr (Some v) else governance_rule st name')"
proof -
  let ?up = "\<lambda>r. if gr_rule_name r = name then r\<lparr>gr_rule_value := v, gr_activated_at := now,
    gr_proposer := p, gr_approvers := to_cbor_bytes P (CArray (map (\<lambda>p. CArray (map wr_u (peer_bytes p))) ps))\<rparr> else r"
  have upd: "filter (\<lambda>r. gr_rule_name r = name') (map ?up rs) = map ?up (filter (\<lambda>r. gr_rule_name r = name') rs)" for rs
    by (induction rs) auto
  have same: "map ?up (filter (\<lambda>r. gr_rule_name r = name') rs) = filter (\<lambda>r. gr_rule_name r = name') rs" if "name' \<noteq> name" for rs
    using that by (auto intro: map_idI)
  show ?thesis
  proof (cases "name \<in> set (map gr_rule_name (st_governance_rules st))")
    case True
    then have st': "st_governance_rules st' = map ?up (st_governance_rules st)"
      using assms by (auto simp: upsert_governance_rule_def Let_def)
    from True have ne: "filter (\<lambda>r. gr_rule_name r = name) (st_governance_rules st) \<noteq> []"
      by (auto simp: filter_empty_conv)
    show ?thesis
    proof (cases "name' = name")
      case True
      with ne obtain r rs where r: "filter (\<lambda>r. gr_rule_name r = name') (st_governance_rules st) = r # rs"
        by (cases "filter (\<lambda>r. gr_rule_name r = name) (st_governance_rules st)") auto
      then have "r \<in> set (filter (\<lambda>r. gr_rule_name r = name') (st_governance_rules st))" by simp
      then have "gr_rule_name r = name'" by simp
      with r True show ?thesis unfolding governance_rule_def st' upd by simp
    next
      case False
      then show ?thesis unfolding governance_rule_def st' upd by (simp add: same)
    qed
  next
    case False
    then have "filter (\<lambda>r. gr_rule_name r = name) (st_governance_rules st) = []" by (auto simp: filter_empty_conv)
    moreover have "st_governance_rules st' = st_governance_rules st @ [\<lparr>gr_rule_name = name, gr_rule_value = v,
        gr_proposed_at = now, gr_activated_at = now, gr_proposer = p,
        gr_approvers = to_cbor_bytes P (CArray (map (\<lambda>p. CArray (map wr_u (peer_bytes p))) ps))\<rparr>]"
      using assms False by (auto simp: upsert_governance_rule_def Let_def)
    ultimately show ?thesis by (simp add: governance_rule_def)
  qed
qed

theorem governance_last_write_wins_witness:
  "\<exists>st. upsert_governance_rule demo_prims 3 empty_store ''quorum'' ''5'' (PeerId [1]) [] = Inr st \<and>
     governance_rule st ''quorum'' = Inr (Some ''5'')"
proof -
  obtain st where st: "upsert_governance_rule demo_prims 3 empty_store ''quorum'' ''5'' (PeerId [1]) [] = Inr st"
    by (simp add: upsert_governance_rule_def Let_def)
  from governance_last_write_wins [OF st, of "''quorum''"] st show ?thesis by simp
qed

text \<open>
  A delta is applied on its envelope signature alone: an outcome inside a correctly signed
  delta is recorded as a local one would be, whatever its own signature says.
\<close>

theorem delta_inner_signature_unchecked:
  assumes "ed25519_ok P"
  shows "apply_delta P now st (sign_delta P (delta_unsigned (DeltaOutcome (x\<lparr>jo_signature := s\<rparr>)) ob t) k) (ed_public P k)
    = record_outcome P now st (x\<lparr>jo_signature := s\<rparr>)"
  by (simp add: apply_delta_def sign_delta_verifies [OF assms])

theorem delta_inner_signature_unchecked_witness:
  "apply_delta demo_prims 4 demo_store (sign_delta demo_prims
     (delta_unsigned (DeltaOutcome (demo_outcome 5\<lparr>jo_signature := []\<rparr>)) (PeerId [2]) 3) [7]) [7]
   = record_outcome demo_prims 4 demo_store (demo_outcome 5\<lparr>jo_signature := []\<rparr>) \<and>
   outcome_verify_signature demo_prims (demo_outcome 5\<lparr>jo_signature := []\<rparr>) [7] = Inl InvalidSignatureBytes"
  using delta_inner_signature_unchecked [OF demo_ok(1), where now = 4 and st = demo_store and x = "demo_outcome 5"
      and s = "[]" and ob = "PeerId [2]" and t = 3 and k = "[7]"]
  by (simp add: outcome_verify_signature_def verify_bytes_def demo_prims_def)

end
