(* ===== verification/Registry.thy ===== *)
theory Registry
  imports Task Demo_Prims
begin

text \<open>
  The peer registry of \<open>server/core/src/peer_registry.rs\<close>: capability advertisements with their
  cross-version decoding, readiness and reputation bands, the advertisement cache with its TTL, the
  peer-key directory, and the matchmaking queries. The two hash maps are association lists in
  iteration order; the locks make each operation atomic. A \<open>Multiaddr\<close> is its byte form.
\<close>

unbundle bit_operations_syntax

section \<open>Advertisements\<close>

type_synonym multiaddr = bytes

record inference_capability =
  ic_models :: "string list"
  ic_context_size :: u32
  ic_estimated_tokens_per_sec :: u32

record relay_capability =
  rc_bandwidth_mbps :: u32
  rc_transport_kinds :: "string list"

record storage_capability =
  sc_free_mb :: u64
  sc_persistence_guarantee :: string

datatype readiness_state = Initialised | Connected | Listening | Ready | Active | Degraded | Stopped

definition is_eligible :: "readiness_state \<Rightarrow> bool" where
  "is_eligible r = (case r of Ready \<Rightarrow> True | Active \<Rightarrow> True | _ \<Rightarrow> False)"

datatype reputation_band = New | Probationary | Established | Trusted | Slashed

definition from_score :: "int \<Rightarrow> reputation_band" where
  "from_score score =
     (if score \<le> 9 then New else if 10 \<le> score \<and> score \<le> 99 then Probationary
      else if 100 \<le> score \<and> score \<le> 999 then Established else Trusted)"

record peer_identity =
  id_peer_id :: peer_id
  id_verifying_key :: bytes
  id_reachable_addrs :: "multiaddr list"
  id_first_seen :: u64
  id_last_seen :: u64
  id_readiness :: readiness_state

record advertisement =
  ad_peer_id :: peer_id
  ad_version :: u32
  ad_services :: "service_kind list"
  ad_inference :: "inference_capability option"
  ad_relay :: "relay_capability option"
  ad_storage :: "storage_capability option"
  ad_network_address :: multiaddr
  ad_signed_at :: u64
  ad_ttl_seconds :: u32
  ad_verifying_key_bytes :: bytes
  ad_reachable_addrs :: "multiaddr list"
  ad_readiness :: readiness_state
  ad_has_external_internet :: bool
  ad_bandwidth_mbps_external :: "u32 option"

definition CAPS_WIRE_VERSION :: u32 where
  "CAPS_WIRE_VERSION = 2"

definition default_readiness_state :: readiness_state where
  "default_readiness_state = Ready"

definition zero_key :: bytes where
  "zero_key = replicate 32 0"

section \<open>CBOR shape\<close>

definition readiness_name :: "readiness_state \<Rightarrow> string" where
  "readiness_name r = (case r of Initialised \<Rightarrow> ''Initialised'' | Connected \<Rightarrow> ''Connected''
     | Listening \<Rightarrow> ''Listening'' | Ready \<Rightarrow> ''Ready'' | Active \<Rightarrow> ''Active''
     | Degraded \<Rightarrow> ''Degraded'' | Stopped \<Rightarrow> ''Stopped'')"

definition rd_readiness :: "cbor \<Rightarrow> readiness_state option" where
  "rd_readiness c = (case c of CText s \<Rightarrow>
     List.find (\<lambda>r. readiness_name r = s) [Initialised, Connected, Listening, Ready, Active, Degraded, Stopped]
   | _ \<Rightarrow> None)"

definition wr_key :: "bytes \<Rightarrow> cbor" where
  "wr_key b = CBytes b"

definition rd_key :: "cbor \<Rightarrow> bytes option" where
  "rd_key c = (case c of CBytes b \<Rightarrow>
      (if length b \<noteq> 32 then (if b = [] then Some zero_key else None) else Some b)
    | _ \<Rightarrow> None)"

definition wr_inference :: "inference_capability \<Rightarrow> cbor" where
  "wr_inference i = CMap [(''models'', wr_list CText (ic_models i)), (''context_size'', wr_u (ic_context_size i)),
     (''estimated_tokens_per_sec'', wr_u (ic_estimated_tokens_per_sec i))]"

definition rd_inference :: "cbor \<Rightarrow> inference_capability option" where
  "rd_inference c = do {
     m \<leftarrow> map_fields c;
     ms \<leftarrow> field ''models'' (rd_list rd_text) m;
     s \<leftarrow> field ''context_size'' rd_u m;
     t \<leftarrow> field ''estimated_tokens_per_sec'' rd_u m;
     Some \<lparr>ic_models = ms, ic_context_size = s, ic_estimated_tokens_per_sec = t\<rparr>
   }"

definition wr_relay :: "relay_capability \<Rightarrow> cbor" where
  "wr_relay r = CMap [(''bandwidth_mbps'', wr_u (rc_bandwidth_mbps r)),
     (''transport_kinds'', wr_list CText (rc_transport_kinds r))]"

definition rd_relay :: "cbor \<Rightarrow> relay_capability option" where
  "rd_relay c = do {
     m \<leftarrow> map_fields c;
     b \<leftarrow> field ''bandwidth_mbps'' rd_u m;
     k \<leftarrow> field ''transport_kinds'' (rd_list rd_text) m;
     Some \<lparr>rc_bandwidth_mbps = b, rc_transport_kinds = k\<rparr>
   }"

definition wr_storage :: "storage_capability \<Rightarrow> cbor" where
  "wr_storage s = CMap [(''free_mb'', wr_u (sc_free_mb s)),
     (''persistence_guarantee'', CText (sc_persistence_guarantee s))]"

definition rd_storage :: "cbor \<Rightarrow> storage_capability option" where
  "rd_storage c = do {
     m \<leftarrow> map_fields c;
     f \<leftarrow> field ''free_mb'' rd_u m;
     g \<leftarrow> field ''persistence_guarantee'' rd_text m;
     Some \<lparr>sc_free_mb = f, sc_persistence_guarantee = g\<rparr>
   }"

definition v1_fields :: "advertisement \<Rightarrow> (string \<times> cbor) list" where
  "v1_fields a =
     [(''peer_id'', wr_peer (ad_peer_id a)), (''version'', wr_u (ad_version a)),
      (''services'', wr_list wr_service (ad_services a)),
      (''inference'', wr_option wr_inference (ad_inference a)),
      (''relay'', wr_option wr_relay (ad_relay a)), (''storage'', wr_option wr_storage (ad_storage a)),
      (''network_address'', CBytes (ad_network_address a)), (''signed_at'', wr_u (ad_signed_at a)),
      (''ttl_seconds'', wr_u (ad_ttl_seconds a))]"

definition wr_advertisement :: "advertisement \<Rightarrow> cbor" where
  "wr_advertisement a = CMap (v1_fields a @
     [(''verifying_key_bytes'', wr_key (ad_verifying_key_bytes a)),
      (''reachable_addrs'', wr_list CBytes (ad_reachable_addrs a)),
      (''readiness'', CText (readiness_name (ad_readiness a))),
      (''has_external_internet'', CBool (ad_has_external_internet a)),
      (''bandwidth_mbps_external'', wr_option wr_u (ad_bandwidth_mbps_external a))])"

definition rd_advertisement :: "cbor \<Rightarrow> advertisement option" where
  "rd_advertisement c = do {
     m \<leftarrow> map_fields c;
     p \<leftarrow> field ''peer_id'' rd_peer m;
     v \<leftarrow> field ''version'' rd_u m;
     s \<leftarrow> field ''services'' (rd_list rd_service) m;
     i \<leftarrow> field_default ''inference'' None (rd_option rd_inference) m;
     r \<leftarrow> field_default ''relay'' None (rd_option rd_relay) m;
     st \<leftarrow> field_default ''storage'' None (rd_option rd_storage) m;
     n \<leftarrow> field ''network_address'' rd_bytes m;
     t \<leftarrow> field ''signed_at'' rd_u m;
     l \<leftarrow> field ''ttl_seconds'' rd_u m;
     k \<leftarrow> field_default ''verifying_key_bytes'' zero_key rd_key m;
     as \<leftarrow> field_default ''reachable_addrs'' [] (rd_list rd_bytes) m;
     rd \<leftarrow> field_default ''readiness'' default_readiness_state rd_readiness m;
     e \<leftarrow> field_default ''has_external_internet'' False rd_bool m;
     b \<leftarrow> field_default ''bandwidth_mbps_external'' None (rd_option rd_u) m;
     Some \<lparr>ad_peer_id = p, ad_version = v, ad_services = s, ad_inference = i, ad_relay = r, ad_storage = st,
       ad_network_address = n, ad_signed_at = t, ad_ttl_seconds = l, ad_verifying_key_bytes = k,
       ad_reachable_addrs = as, ad_readiness = rd, ad_has_external_internet = e,
       ad_bandwidth_mbps_external = b\<rparr>
   }"

definition decode_advertisement :: "prims \<Rightarrow> bytes \<Rightarrow> advertisement option" where
  "decode_advertisement P b = from_cbor_bytes P rd_advertisement b"

definition encode_advertisement :: "prims \<Rightarrow> advertisement \<Rightarrow> bytes" where
  "encode_advertisement P a = to_cbor_bytes P (wr_advertisement a)"

lemma rd_readiness_name [wire_simps]: "rd_readiness (CText (readiness_name r)) = Some r"
  by (cases r) (simp_all add: rd_readiness_def readiness_name_def)

lemma rd_wr_capabilities [wire_simps]:
  "rd_inference (wr_inference i) = Some i" "rd_relay (wr_relay r) = Some r" "rd_storage (wr_storage s) = Some s"
  by (simp_all add: rd_inference_def wr_inference_def rd_relay_def wr_relay_def rd_storage_def wr_storage_def
      read_defs wire_simps)

lemma wr_capabilities_not_null [wire_simps]:
  "wr_inference i \<noteq> CNull" "wr_relay r \<noteq> CNull" "wr_storage s \<noteq> CNull"
  by (simp_all add: wr_inference_def wr_relay_def wr_storage_def)

lemma rd_wr_advertisement:
  "length (ad_verifying_key_bytes a) = 32 \<Longrightarrow> rd_advertisement (wr_advertisement a) = Some a"
  by (simp add: rd_advertisement_def wr_advertisement_def v1_fields_def read_defs wire_simps rd_key_def wr_key_def)

lemma rd_v1_advertisement:
  "rd_advertisement (CMap (v1_fields a)) =
     Some (a\<lparr>ad_verifying_key_bytes := zero_key, ad_reachable_addrs := [], ad_readiness := Ready,
       ad_has_external_internet := False, ad_bandwidth_mbps_external := None\<rparr>)"
  by (simp add: rd_advertisement_def v1_fields_def read_defs wire_simps default_readiness_state_def)

section \<open>Advertisement checks\<close>

definition is_expired :: "advertisement \<Rightarrow> u64 \<Rightarrow> bool" where
  "is_expired a now \<longleftrightarrow> saturating_add (ad_signed_at a) (ucast (ad_ttl_seconds a)) < now"

definition ad_verifying_key :: "prims \<Rightarrow> advertisement \<Rightarrow> bytes option" where
  "ad_verifying_key P a =
     (if ad_verifying_key_bytes a = zero_key then None
      else if ed_valid_key P (ad_verifying_key_bytes a) then Some (ad_verifying_key_bytes a)
      else None)"

section \<open>The registry\<close>

record registry =
  rg_ads :: "(peer_id \<times> advertisement) list"
  rg_identities :: "(peer_id \<times> peer_identity) list"

definition registry_new :: registry where
  "registry_new = \<lparr>rg_ads = [], rg_identities = []\<rparr>"

definition record_identity :: "registry \<Rightarrow> peer_identity \<Rightarrow> registry" where
  "record_identity g i =
     (let put = (\<lambda>j. g\<lparr>rg_identities := AList.update (id_peer_id i) j (rg_identities g)\<rparr>)
      in case map_of (rg_identities g) (id_peer_id i) of
        Some existing \<Rightarrow>
          (if id_verifying_key existing \<noteq> id_verifying_key i then put i
           else put \<lparr>id_peer_id = id_peer_id i, id_verifying_key = id_verifying_key i,
             id_reachable_addrs = id_reachable_addrs i, id_first_seen = id_first_seen existing,
             id_last_seen = max (id_last_seen i) (id_last_seen existing), id_readiness = id_readiness i\<rparr>)
      | None \<Rightarrow> put i)"

definition upsert :: "prims \<Rightarrow> registry \<Rightarrow> advertisement \<Rightarrow> registry \<times> bool" where
  "upsert P g a =
     (let g = (case ad_verifying_key P a of
            None \<Rightarrow> g
          | Some vk \<Rightarrow> record_identity g
              \<lparr>id_peer_id = ad_peer_id a, id_verifying_key = vk, id_reachable_addrs = ad_reachable_addrs a,
               id_first_seen = ad_signed_at a, id_last_seen = ad_signed_at a, id_readiness = ad_readiness a\<rparr>)
      in (g\<lparr>rg_ads := AList.update (ad_peer_id a) a (rg_ads g)\<rparr>, map_of (rg_ads g) (ad_peer_id a) = None))"

definition prune_expired :: "registry \<Rightarrow> u64 \<Rightarrow> registry \<times> nat" where
  "prune_expired g now =
     (let kept = filter (\<lambda>e. \<not> is_expired (snd e) now) (rg_ads g)
      in (g\<lparr>rg_ads := kept\<rparr>, length (rg_ads g) - length kept))"

definition registry_count :: "registry \<Rightarrow> nat" where
  "registry_count g = length (rg_ads g)"

definition registry_snapshot :: "registry \<Rightarrow> advertisement list" where
  "registry_snapshot g = map snd (rg_ads g)"

text \<open>\<open>sort_by_key(Reverse(k))\<close> is the stable descending sort.\<close>

definition sort_desc :: "('a \<Rightarrow> nat) \<Rightarrow> 'a list \<Rightarrow> 'a list" where
  "sort_desc k xs = sort_key (\<lambda>x. - int (k x)) xs"

definition peers_with_service :: "registry \<Rightarrow> service_kind \<Rightarrow> advertisement list" where
  "peers_with_service g kind =
     sort_desc (\<lambda>a. unat (ad_signed_at a)) (filter (\<lambda>a. kind \<in> set (ad_services a)) (map snd (rg_ads g)))"

fun is_substring :: "string \<Rightarrow> string \<Rightarrow> bool" where
  "is_substring p [] = (p = [])"
| "is_substring p (c # cs) = (take (length p) (c # cs) = p \<or> is_substring p cs)"

text \<open>\<open>Iterator::max_by_key\<close> returns the last of several maximal elements.\<close>

fun max_by_key :: "('a \<Rightarrow> nat) \<Rightarrow> 'a list \<Rightarrow> 'a option" where
  "max_by_key k [] = None"
| "max_by_key k (x # xs) =
     (case max_by_key k xs of None \<Rightarrow> Some x | Some y \<Rightarrow> Some (if k x \<le> k y then y else x))"

definition tokens_per_sec :: "advertisement \<Rightarrow> nat" where
  "tokens_per_sec a = (case ad_inference a of None \<Rightarrow> 0 | Some i \<Rightarrow> unat (ic_estimated_tokens_per_sec i))"

definition best_inference_peer :: "registry \<Rightarrow> string \<Rightarrow> advertisement option" where
  "best_inference_peer g required_model =
     max_by_key tokens_per_sec (filter (\<lambda>a. case ad_inference a of None \<Rightarrow> False
       | Some i \<Rightarrow> \<exists>m \<in> set (ic_models i). is_substring required_model m) (map snd (rg_ads g)))"

definition verifying_key :: "registry \<Rightarrow> peer_id \<Rightarrow> bytes option" where
  "verifying_key g p = map_option id_verifying_key (map_of (rg_identities g) p)"

definition known_identities :: "registry \<Rightarrow> peer_identity list" where
  "known_identities g = map snd (rg_identities g)"

definition identity_count :: "registry \<Rightarrow> nat" where
  "identity_count g = length (rg_identities g)"

definition pair_identities :: "registry \<Rightarrow> advertisement list \<Rightarrow> (peer_identity \<times> advertisement) list" where
  "pair_identities g as = List.map_filter (\<lambda>a. map_option (\<lambda>i. (i, a)) (map_of (rg_identities g) (ad_peer_id a))) as"

definition service_rank :: "service_kind \<Rightarrow> advertisement \<Rightarrow> nat" where
  "service_rank kind a = (case kind of
     SvcInference \<Rightarrow> tokens_per_sec a
   | SvcRelay \<Rightarrow> (case ad_relay a of None \<Rightarrow> 0 | Some r \<Rightarrow> unat (rc_bandwidth_mbps r))
   | SvcStorage \<Rightarrow> (case ad_storage a of None \<Rightarrow> 0 | Some r \<Rightarrow> unat (sc_free_mb r))
   | SvcWallet \<Rightarrow> 0)"

definition ready_peers_for_service :: "registry \<Rightarrow> service_kind \<Rightarrow> peer_identity list" where
  "ready_peers_for_service g kind =
     map fst (sort_desc (\<lambda>(i, a). service_rank kind a)
       (pair_identities g (filter (\<lambda>a. is_eligible (ad_readiness a))
         (filter (\<lambda>a. kind \<in> set (ad_services a)) (map snd (rg_ads g))))))"

definition ready_peers_with_external_internet :: "registry \<Rightarrow> peer_identity list" where
  "ready_peers_with_external_internet g =
     map fst (sort_desc (\<lambda>(i, a). case ad_bandwidth_mbps_external a of None \<Rightarrow> 0 | Some n \<Rightarrow> unat n)
       (pair_identities g (filter (\<lambda>a. is_eligible (ad_readiness a))
         (filter ad_has_external_internet (map snd (rg_ads g))))))"

definition byte_from_end :: "bytes \<Rightarrow> nat \<Rightarrow> u8" where
  "byte_from_end a i = (if a = [] then 0 else a ! (length a - 1 - min i (length a - 1)))"

definition xor_distance :: "bytes \<Rightarrow> bytes \<Rightarrow> bytes" where
  "xor_distance a b =
     (let len = max (length a) (length b)
      in map (\<lambda>j. let i = len - 1 - j in xor (byte_from_end a i) (byte_from_end b i)) [0..<len])"

definition closest_peers :: "registry \<Rightarrow> peer_id \<Rightarrow> nat \<Rightarrow> peer_identity list" where
  "closest_peers g target k =
     (if k = 0 then []
      else take k (sort_key (\<lambda>i. xor_distance (peer_bytes (id_peer_id i)) (peer_bytes target))
        (filter (\<lambda>i. case map_of (rg_ads g) (id_peer_id i) of None \<Rightarrow> False
            | Some a \<Rightarrow> is_eligible (ad_readiness a)) (map snd (rg_identities g)))))"

end
