(* ===== verification/Registry_Properties.thy ===== *)
theory Registry_Properties
  imports Registry
begin

text \<open>
  What the peer registry promises: the invariant of its two maps, the key directory as the last
  advertised key of each peer, exact expiry, and matchmaking queries that return exactly the
  eligible peers in the documented order.
\<close>

section \<open>Events and invariant\<close>

datatype registry_op = RegUpsert advertisement | RegPrune u64

fun registry_step :: "prims \<Rightarrow> registry \<Rightarrow> registry_op \<Rightarrow> registry" where
  "registry_step P g (RegUpsert a) = fst (upsert P g a)"
| "registry_step P g (RegPrune now) = fst (prune_expired g now)"

definition registry_inv :: "prims \<Rightarrow> registry \<Rightarrow> bool" where
  "registry_inv P g \<longleftrightarrow> distinct (map fst (rg_ads g)) \<and> distinct (map fst (rg_identities g)) \<and>
     (\<forall>(p, a) \<in> set (rg_ads g). ad_peer_id a = p) \<and>
     (\<forall>(p, i) \<in> set (rg_identities g). id_peer_id i = p \<and> id_first_seen i \<le> id_last_seen i \<and>
        id_verifying_key i \<noteq> zero_key \<and> ed_valid_key P (id_verifying_key i))"

lemma set_update: "set (AList.update k v m) \<subseteq> insert (k, v) (set m)"
  by (induction m) auto

lemma update_all:
  "(\<forall>(k, v) \<in> set m. Q k v) \<Longrightarrow> Q k v \<Longrightarrow> \<forall>(k, v) \<in> set (AList.update k v m). Q k v"
  using set_update [of k v m] by blast

lemma map_of_all: "(\<forall>(k, v) \<in> set m. Q k v) \<Longrightarrow> map_of m k = Some v \<Longrightarrow> Q k v"
  by (auto dest: map_of_SomeD)

lemma record_identity_inv:
  assumes "registry_inv P g" and "id_first_seen i \<le> id_last_seen i"
    and "id_verifying_key i \<noteq> zero_key" and "ed_valid_key P (id_verifying_key i)"
  shows "registry_inv P (record_identity g i)"
proof -
  let ?Q = "\<lambda>p i. id_peer_id i = p \<and> id_first_seen i \<le> id_last_seen i \<and>
        id_verifying_key i \<noteq> zero_key \<and> ed_valid_key P (id_verifying_key i)"
  have put: "registry_inv P (g\<lparr>rg_identities := AList.update (id_peer_id i) j (rg_identities g)\<rparr>)"
    if "?Q (id_peer_id i) j" for j
    using assms(1) that update_all [where Q = ?Q and m = "rg_identities g" and k = "id_peer_id i" and v = j]
    unfolding registry_inv_def by (simp add: distinct_update)
  show ?thesis
  proof (cases "map_of (rg_identities g) (id_peer_id i)")
    case None
    with put [of i] assms show ?thesis by (simp add: record_identity_def Let_def)
  next
    case (Some e)
    have "\<forall>(p, i) \<in> set (rg_identities g). ?Q p i" using assms(1) unfolding registry_inv_def by (elim conjE)
    from map_of_all [where Q = ?Q, OF this Some] have "?Q (id_peer_id i) e" .
    then have "id_first_seen e \<le> max (id_last_seen i) (id_last_seen e)" by (simp add: max.coboundedI2)
    with Some assms put show ?thesis by (simp add: record_identity_def Let_def)
  qed
qed

lemma record_identity_ads [simp]: "rg_ads (record_identity g i) = rg_ads g"
  by (simp add: record_identity_def Let_def split: option.split)

interpretation registry_ts: transition_system "registry_step P" "registry_inv P" for P
proof
  fix g e
  assume inv: "registry_inv P g"
  show "registry_inv P (registry_step P g e)"
  proof (cases e)
    case (RegUpsert a)
    let ?g = "case ad_verifying_key P a of None \<Rightarrow> g
        | Some vk \<Rightarrow> record_identity g
            \<lparr>id_peer_id = ad_peer_id a, id_verifying_key = vk, id_reachable_addrs = ad_reachable_addrs a,
             id_first_seen = ad_signed_at a, id_last_seen = ad_signed_at a, id_readiness = ad_readiness a\<rparr>"
    have g: "registry_inv P ?g"
    proof (cases "ad_verifying_key P a")
      case (Some vk)
      then have "vk \<noteq> zero_key" "ed_valid_key P vk" by (auto simp: ad_verifying_key_def split: if_splits)
      with Some inv show ?thesis by (simp add: record_identity_inv)
    qed (simp add: inv)
    then have "\<forall>(p, b) \<in> set (AList.update (ad_peer_id a) a (rg_ads ?g)). ad_peer_id b = p"
      unfolding registry_inv_def by (intro update_all) simp_all
    with g show ?thesis unfolding registry_inv_def RegUpsert by (simp add: upsert_def Let_def distinct_update)
  next
    case (RegPrune now)
    with inv show ?thesis
      by (auto simp: registry_inv_def prune_expired_def Let_def distinct_map inj_on_def)
  qed
qed

lemma registry_inv_new: "registry_inv P registry_new"
  by (simp add: registry_inv_def registry_new_def)

text \<open>
  Over every history of advertisements and prunings each peer has at most one advertisement and
  one identity, both filed under its own id; every stored key is a valid, non-zero ed25519 key and
  no identity was last seen before it was first seen.
\<close>

theorem registry_history_inv: "registry_inv P (run_steps (registry_step P) registry_new es)"
  by (rule registry_ts.run_inv) (rule registry_inv_new)

section \<open>The key directory\<close>

text \<open>
  The contract the message handlers rely on: a store whose lookup after a step is the key that
  step advertises for the peer, if any, and what it was before otherwise.
\<close>

locale key_directory =
  fixes put :: "'g \<Rightarrow> 'e \<Rightarrow> 'g"
    and look :: "'g \<Rightarrow> 'p \<Rightarrow> 'k option"
    and key_for :: "'e \<Rightarrow> 'p \<Rightarrow> 'k option"
    and fresh :: 'g
  assumes look_put: "look (put g e) p = (case key_for e p of None \<Rightarrow> look g p | Some k \<Rightarrow> Some k)"
    and look_fresh: "look fresh p = None"
begin

lemma look_run:
  "look (run_steps put g es) p =
     (case List.map_filter (\<lambda>e. key_for e p) (rev es) of [] \<Rightarrow> look g p | k # _ \<Rightarrow> Some k)"
proof (induction es rule: rev_induct)
  case (snoc e es)
  then show ?case
    by (cases "key_for e p") (simp_all add: look_put List.map_filter_simps)
qed (simp add: List.map_filter_simps)

lemma look_history:
  "look (run_steps put fresh es) p =
     (case List.map_filter (\<lambda>e. key_for e p) (rev es) of [] \<Rightarrow> None | k # _ \<Rightarrow> Some k)"
  by (simp add: look_run look_fresh split: list.split)

end

fun advertised_key :: "prims \<Rightarrow> registry_op \<Rightarrow> peer_id \<Rightarrow> bytes option" where
  "advertised_key P (RegUpsert a) p = (if ad_peer_id a = p then ad_verifying_key P a else None)"
| "advertised_key P (RegPrune now) p = None"

lemma verifying_key_record:
  "verifying_key (record_identity g i) p = (if p = id_peer_id i then Some (id_verifying_key i) else verifying_key g p)"
  by (simp add: verifying_key_def record_identity_def Let_def split: option.split)

lemma verifying_key_ads [simp]: "verifying_key (g\<lparr>rg_ads := x\<rparr>) p = verifying_key g p"
  by (simp add: verifying_key_def)

interpretation registry_dir: key_directory "registry_step P" verifying_key "advertised_key P" registry_new for P
proof
  fix g e p
  show "verifying_key (registry_step P g e) p =
      (case advertised_key P e p of None \<Rightarrow> verifying_key g p | Some k \<Rightarrow> Some k)"
    by (cases e) (auto simp: upsert_def prune_expired_def Let_def verifying_key_record split: option.splits)
  show "verifying_key registry_new p = None" by (simp add: verifying_key_def registry_new_def)
qed

text \<open>
  C25. The key directory holds, for every peer, the key of the last advertisement that carried a
  valid one, over every history: expiry of advertisements never loses a key, and any later
  advertisement under the peer's id replaces it.
\<close>

theorem verifying_key_is_last_advertised:
  "verifying_key (run_steps (registry_step P) registry_new es) p =
     (case List.map_filter (\<lambda>e. advertised_key P e p) (rev es) of [] \<Rightarrow> None | k # _ \<Rightarrow> Some k)"
  by (rule registry_dir.look_history)

section \<open>Expiry\<close>

text \<open>
  Pruning is exact: an advertisement survives exactly when \<open>signed_at + ttl_seconds\<close>, taken
  without overflow, has not passed, the number reported is the number removed, and no identity is
  touched.
\<close>

theorem prune_exact:
  "set (rg_ads (fst (prune_expired g now))) =
     {e \<in> set (rg_ads g). unat now \<le> unat (ad_signed_at (snd e)) + unat (ad_ttl_seconds (snd e))} \<and>
   snd (prune_expired g now) + length (rg_ads (fst (prune_expired g now))) = length (rg_ads g) \<and>
   rg_identities (fst (prune_expired g now)) = rg_identities g"
proof -
  have e: "is_expired a now \<longleftrightarrow> \<not> unat now \<le> unat (ad_signed_at a) + unat (ad_ttl_seconds a)" for a
  proof -
    have t: "unat (ucast (ad_ttl_seconds a) :: u64) = unat (ad_ttl_seconds a)"
      using unsigned_less [of "ad_ttl_seconds a", where ?'a = nat]
      by (simp add: unsigned_ucast_eq take_bit_nat_eq_self)
    have "unat now < 2 ^ 64" using unsigned_less [of now, where ?'a = nat] by simp
    with t show ?thesis
      unfolding is_expired_def word_less_nat_alt unat_saturating_add by auto
  qed
  show ?thesis by (auto simp: prune_expired_def Let_def e)
qed

section \<open>Matchmaking\<close>

lemma sort_desc_facts [simp]:
  "set (sort_desc k xs) = set xs" "length (sort_desc k xs) = length xs" "mset (sort_desc k xs) = mset xs"
  "sorted (map (\<lambda>x. - int (k x)) (sort_desc k xs))" "distinct (sort_desc k xs) \<longleftrightarrow> distinct xs"
  by (simp_all add: sort_desc_def)

lemma set_map_filter: "set (List.map_filter f xs) = {y. \<exists>x \<in> set xs. f x = Some y}"
  by (induction xs) (auto simp: List.map_filter_simps split: option.splits)

lemma ad_lookup:
  "registry_inv P g \<Longrightarrow> a \<in> set (map snd (rg_ads g)) \<longleftrightarrow> map_of (rg_ads g) (ad_peer_id a) = Some a"
  unfolding registry_inv_def by (force simp: image_iff)

lemma identity_lookup:
  "registry_inv P g \<Longrightarrow> i \<in> set (map snd (rg_identities g)) \<longleftrightarrow> map_of (rg_identities g) (id_peer_id i) = Some i"
  unfolding registry_inv_def by (force simp: image_iff)

lemma pair_identities_iff:
  assumes "registry_inv P g"
  shows "(i, a) \<in> set (pair_identities g (filter f (map snd (rg_ads g)))) \<longleftrightarrow>
    map_of (rg_ads g) (id_peer_id i) = Some a \<and> map_of (rg_identities g) (id_peer_id i) = Some i \<and> f a"
proof -
  have own: "id_peer_id j = p" if "map_of (rg_identities g) p = Some j" for p j
    using that assms by (auto simp: registry_inv_def dest: map_of_SomeD)
  have own': "ad_peer_id b = p" if "map_of (rg_ads g) p = Some b" for p b
    using that assms by (auto simp: registry_inv_def dest: map_of_SomeD)
  have "(i, a) \<in> set (pair_identities g (filter f (map snd (rg_ads g)))) \<longleftrightarrow>
      a \<in> set (map snd (rg_ads g)) \<and> f a \<and> map_of (rg_identities g) (ad_peer_id a) = Some i"
    unfolding pair_identities_def set_map_filter by auto
  also have "\<dots> \<longleftrightarrow> map_of (rg_ads g) (id_peer_id i) = Some a \<and> map_of (rg_identities g) (id_peer_id i) = Some i \<and> f a"
    unfolding ad_lookup [OF assms] using own own' by metis
  finally show ?thesis .
qed

text \<open>
  Matchmaking is exact: \<open>ready_peers_for_service\<close> returns exactly the identities of peers whose
  cached advertisement offers the service and is in an eligible state, fastest first (by the rank
  of the service kind).
\<close>

theorem ready_peers_exact:
  assumes "registry_inv P g"
  shows "set (ready_peers_for_service g kind) =
      {i. map_of (rg_identities g) (id_peer_id i) = Some i \<and>
        (\<exists>a. map_of (rg_ads g) (id_peer_id i) = Some a \<and> kind \<in> set (ad_services a) \<and>
          (ad_readiness a = Ready \<or> ad_readiness a = Active))} \<and>
    sorted (map (\<lambda>i. - int (service_rank kind (the (map_of (rg_ads g) (id_peer_id i)))))
      (ready_peers_for_service g kind))"
proof -
  let ?ps = "pair_identities g (filter (\<lambda>a. is_eligible (ad_readiness a))
         (filter (\<lambda>a. kind \<in> set (ad_services a)) (map snd (rg_ads g))))"
  let ?qs = "sort_desc (\<lambda>(i, a). service_rank kind a) ?ps"
  have elig: "is_eligible r \<longleftrightarrow> r = Ready \<or> r = Active" for r
    by (cases r) (simp_all add: is_eligible_def)
  have ps: "(i, a) \<in> set ?ps \<longleftrightarrow> map_of (rg_ads g) (id_peer_id i) = Some a \<and>
      map_of (rg_identities g) (id_peer_id i) = Some i \<and> is_eligible (ad_readiness a) \<and> kind \<in> set (ad_services a)" for i a
    using pair_identities_iff [OF assms, of i a "\<lambda>a. is_eligible (ad_readiness a) \<and> kind \<in> set (ad_services a)"]
    by (simp only: filter_filter conj_commute)
  have "sorted (map (\<lambda>x. - int (case x of (i, a) \<Rightarrow> service_rank kind a)) ?qs)"
    by (rule sort_desc_facts(4))
  moreover have "map (\<lambda>x. - int (case x of (i, a) \<Rightarrow> service_rank kind a)) ?qs =
      map (\<lambda>i. - int (service_rank kind (the (map_of (rg_ads g) (id_peer_id i))))) (map fst ?qs)"
    unfolding map_map by (intro map_cong refl) (auto simp: ps simp del: filter_filter)
  ultimately have srt: "sorted (map (\<lambda>i. - int (service_rank kind (the (map_of (rg_ads g) (id_peer_id i))))) (map fst ?qs))"
    by (simp only:)
  have "set (map fst ?qs) = fst ` set ?ps" by (simp only: set_map sort_desc_facts)
  also have "\<dots> = {i. map_of (rg_identities g) (id_peer_id i) = Some i \<and>
      (\<exists>a. map_of (rg_ads g) (id_peer_id i) = Some a \<and> kind \<in> set (ad_services a) \<and>
        (ad_readiness a = Ready \<or> ad_readiness a = Active))}"
    unfolding elig [symmetric] using ps by (auto simp only: image_iff fst_conv) force+
  finally show ?thesis using srt by (simp only: ready_peers_for_service_def)
qed

definition demo_ad :: "u8 \<Rightarrow> advertisement" where
  "demo_ad p = \<lparr>ad_peer_id = PeerId [p], ad_version = CAPS_WIRE_VERSION, ad_services = [SvcRelay],
     ad_inference = None, ad_relay = Some \<lparr>rc_bandwidth_mbps = 5, rc_transport_kinds = []\<rparr>, ad_storage = None,
     ad_network_address = [], ad_signed_at = 4, ad_ttl_seconds = 300,
     ad_verifying_key_bytes = p # replicate 31 0, ad_reachable_addrs = [], ad_readiness = Ready,
     ad_has_external_internet = False, ad_bandwidth_mbps_external = None\<rparr>"

definition demo_registry :: registry where
  "demo_registry = run_steps (registry_step demo_prims) registry_new [RegUpsert (demo_ad 1), RegUpsert (demo_ad 2)]"

definition demo_identity :: "u8 \<Rightarrow> peer_identity" where
  "demo_identity p = \<lparr>id_peer_id = PeerId [p], id_verifying_key = p # replicate 31 0, id_reachable_addrs = [],
     id_first_seen = 4, id_last_seen = 4, id_readiness = Ready\<rparr>"

lemma demo_registry_maps:
  "rg_identities demo_registry = [(PeerId [1], demo_identity 1), (PeerId [2], demo_identity 2)]"
  "rg_ads demo_registry = [(PeerId [1], demo_ad 1), (PeerId [2], demo_ad 2)]"
proof -
  have key: "ad_verifying_key demo_prims (demo_ad p) = Some (p # replicate 31 0)" if "p \<noteq> 0" for p
    using that by (simp add: ad_verifying_key_def demo_ad_def zero_key_def demo_prims_def numeral_eq_Suc)
  show "rg_identities demo_registry = [(PeerId [1], demo_identity 1), (PeerId [2], demo_identity 2)]"
      "rg_ads demo_registry = [(PeerId [1], demo_ad 1), (PeerId [2], demo_ad 2)]"
    by (simp_all add: demo_registry_def upsert_def Let_def key record_identity_def registry_new_def)
      (simp_all add: demo_ad_def demo_identity_def)
qed

lemma demo_registry_inv: "registry_inv demo_prims demo_registry"
  unfolding demo_registry_def by (rule registry_ts.run_inv) (rule registry_inv_new)

theorem ready_peers_exact_witness:
  "\<exists>i. i \<in> set (ready_peers_for_service demo_registry SvcRelay) \<and> id_peer_id i = PeerId [2]"
  using ready_peers_exact [OF demo_registry_inv, of SvcRelay]
  by (intro exI [of _ "demo_identity 2"]) (simp add: demo_registry_maps demo_ad_def demo_identity_def)

definition eligible_pool :: "registry \<Rightarrow> peer_identity list" where
  "eligible_pool g = filter (\<lambda>i. case map_of (rg_ads g) (id_peer_id i) of None \<Rightarrow> False
     | Some a \<Rightarrow> is_eligible (ad_readiness a)) (known_identities g)"

definition distance_to :: "peer_id \<Rightarrow> peer_identity \<Rightarrow> bytes" where
  "distance_to target i = xor_distance (peer_bytes (id_peer_id i)) (peer_bytes target)"

lemma closest_peers_eq: "closest_peers g target k = take k (sort_key (distance_to target) (eligible_pool g))"
  by (simp add: closest_peers_def eligible_pool_def known_identities_def distance_to_def [abs_def])

text \<open>
  \<open>closest_peers\<close> returns at most \<open>k\<close> eligible known peers in order of their distance to the
  target, and no eligible peer it leaves out is closer than one it returns.
\<close>

theorem closest_peers_nearest:
  "length (closest_peers g target k) = min k (length (eligible_pool g)) \<and>
   set (closest_peers g target k) \<subseteq> set (eligible_pool g) \<and>
   sorted (map (distance_to target) (closest_peers g target k)) \<and>
   (\<forall>i j. i \<in> set (eligible_pool g) \<and> i \<notin> set (closest_peers g target k) \<and>
      j \<in> set (closest_peers g target k) \<longrightarrow> distance_to target j \<le> distance_to target i)"
proof (intro conjI allI impI)
  let ?xs = "sort_key (distance_to target) (eligible_pool g)"
  have srt: "sorted (map (distance_to target) ?xs)" by simp
  show "length (closest_peers g target k) = min k (length (eligible_pool g))" by (simp add: closest_peers_eq)
  show "set (closest_peers g target k) \<subseteq> set (eligible_pool g)"
    unfolding closest_peers_eq using set_take_subset [of k ?xs] by simp
  show "sorted (map (distance_to target) (closest_peers g target k))"
    unfolding closest_peers_eq take_map [symmetric] by (rule sorted_wrt_take) simp
  fix i j
  assume "i \<in> set (eligible_pool g) \<and> i \<notin> set (closest_peers g target k) \<and> j \<in> set (closest_peers g target k)"
  then show "distance_to target j \<le> distance_to target i"
    unfolding closest_peers_eq by (intro sorted_take_le [OF srt, where n = k]) simp_all
qed

lemma demo_pool: "eligible_pool demo_registry = [demo_identity 1, demo_identity 2]"
  by (simp add: eligible_pool_def known_identities_def demo_registry_maps is_eligible_def demo_ad_def demo_identity_def)

lemma demo_distance: "distance_to (PeerId [2]) (demo_identity p) = [xor p 2]"
  by (simp add: distance_to_def demo_identity_def xor_distance_def byte_from_end_def Let_def)

theorem closest_peers_nearest_witness:
  "closest_peers demo_registry (PeerId [2]) 1 = [demo_identity 2] \<and>
   distance_to (PeerId [2]) (demo_identity 2) \<le> distance_to (PeerId [2]) (demo_identity 1)"
proof -
  have c: "closest_peers demo_registry (PeerId [2]) 1 = [demo_identity 2]"
    by (simp add: closest_peers_eq demo_pool demo_distance)
  moreover have "demo_identity 1 \<noteq> demo_identity 2" by (simp add: demo_identity_def)
  ultimately show ?thesis
    using closest_peers_nearest [of demo_registry "PeerId [2]" 1] by (simp add: demo_pool)
qed

text \<open>
  On ids of equal length (all ed25519 peer ids have one length) the distance is the Kademlia
  XOR metric: the bytewise XOR, zero exactly for the id itself, and symmetric.
\<close>

theorem xor_distance_is_kad_metric:
  assumes "length a = length b"
  shows "xor_distance a b = map2 (XOR) a b \<and>
    (xor_distance a b = replicate (length a) 0 \<longleftrightarrow> a = b) \<and> xor_distance a b = xor_distance b a"
proof -
  have e: "xor_distance a b = map2 (XOR) a b"
    using assms by (intro nth_equalityI) (auto simp: xor_distance_def byte_from_end_def Let_def)
  have z: "(x XOR y = 0) = (x = y)" for x y :: u8
    by (metis bit.xor_self xor.assoc xor.left_neutral xor.right_neutral)
  have "map2 (XOR) a b = replicate (length a) 0 \<longleftrightarrow> a = b"
    using assms by (induction a b rule: list_induct2) (simp_all add: z)
  moreover have "map2 (XOR) a b = map2 (XOR) b a"
    using assms by (induction a b rule: list_induct2) (simp_all add: xor.commute)
  moreover have "xor_distance b a = map2 (XOR) b a"
    using assms by (intro nth_equalityI) (auto simp: xor_distance_def byte_from_end_def Let_def)
  ultimately show ?thesis using e by simp
qed

theorem xor_distance_is_kad_metric_witness:
  "xor_distance [1, 2] [1, 3] = [0, 1]"
  using xor_distance_is_kad_metric [of "[1, 2]" "[1, 3]"] by simp

text \<open>
  On ids of different lengths the shorter one is extended on the left by repeating its first
  byte, not by zero bytes: the one-byte id 1 is at distance \<open>[1, 0]\<close> from the two-byte id \<open>[0, 1]\<close>
  that it equals when padded with zero.
\<close>

theorem xor_distance_padding:
  "xor_distance [1] [0, 1] = [1, 0] \<and> map2 (XOR) ([0] @ [1]) [0, 1 :: u8] = [0, 0]"
  by code_simp

section \<open>Cross-version decoding\<close>

text \<open>
  Both wire versions are read: an advertisement survives encoding and decoding unchanged, and
  one written without the newer fields decodes to the same advertisement in state \<open>Ready\<close>, without
  a verifying key and without external internet.
\<close>

theorem advertisement_roundtrip:
  assumes "cbor_ok P" and "length (ad_verifying_key_bytes a) = 32"
  shows "decode_advertisement P (encode_advertisement P a) = Some a \<and>
    (\<exists>b. decode_advertisement P (to_cbor_bytes P (CMap (v1_fields a))) = Some b \<and>
      ad_readiness b = Ready \<and> ad_verifying_key P b = None \<and> \<not> ad_has_external_internet b \<and>
      ad_peer_id b = ad_peer_id a \<and> ad_services b = ad_services a \<and> ad_relay b = ad_relay a \<and>
      ad_inference b = ad_inference a \<and> ad_signed_at b = ad_signed_at a \<and> ad_ttl_seconds b = ad_ttl_seconds a)"
proof -
  have "cbor_read P (cbor_write P v) = Some v" for v using assms(1) by (simp add: cbor_ok_def)
  then show ?thesis
    using rd_wr_advertisement [OF assms(2)] rd_v1_advertisement [of a]
    by (simp add: decode_advertisement_def encode_advertisement_def from_cbor_bytes_def to_cbor_bytes_def
        ad_verifying_key_def)
qed

theorem advertisement_roundtrip_witness:
  "decode_advertisement demo_prims (encode_advertisement demo_prims (demo_ad 1)) = Some (demo_ad 1)"
  using advertisement_roundtrip [OF demo_ok(3), of "demo_ad 1"] by (simp add: demo_ad_def)

end
