(* ===== verification/Buffer.thy ===== *)
theory Buffer
  imports Outcome
begin

text \<open>
  The miner's buffer for messages whose publisher key is not known yet
  (\<open>server/miner/src/verify_buffer.rs\<close>). The LRU cache it counts publishers in is a package of its
  own (\<open>lru\<close>): a parameter of type \<open>lru_ops\<close> with the documented laws \<open>lru_ok\<close>. An \<open>Instant\<close> is a
  count of nanoseconds.
\<close>

section \<open>The LRU cache as a parameter\<close>

text \<open>
  \<open>lru_get\<close> is \<open>get\<close> and \<open>get_mut\<close> (both refresh the entry), \<open>lru_write\<close> the assignment through the
  reference they or \<open>iter_mut\<close> return, \<open>lru_put\<close> may evict other entries.
\<close>

record ('c, 'k, 'v) lru_ops =
  lru_new :: "nat \<Rightarrow> 'c"
  lru_cap :: "'c \<Rightarrow> nat"
  lru_iter :: "'c \<Rightarrow> ('k \<times> 'v) list"
  lru_get :: "'k \<Rightarrow> 'c \<Rightarrow> 'v option \<times> 'c"
  lru_put :: "'k \<Rightarrow> 'v \<Rightarrow> 'c \<Rightarrow> 'c"
  lru_write :: "'k \<Rightarrow> 'v \<Rightarrow> 'c \<Rightarrow> 'c"
  lru_pop :: "'k \<Rightarrow> 'c \<Rightarrow> 'c"

definition lru_view :: "('c, 'k, 'v) lru_ops \<Rightarrow> 'c \<Rightarrow> 'k \<Rightarrow> 'v option" where
  "lru_view L c = map_of (lru_iter L c)"

definition lru_keys :: "('c, 'k, 'v) lru_ops \<Rightarrow> 'c \<Rightarrow> bool" where
  "lru_keys L c \<longleftrightarrow> distinct (map fst (lru_iter L c))"

definition lru_ok :: "('c, 'k, 'v) lru_ops \<Rightarrow> bool" where
  "lru_ok L \<longleftrightarrow>
     (\<forall>n. lru_iter L (lru_new L n) = [] \<and> lru_cap L (lru_new L n) = n) \<and>
     (\<forall>k c. fst (lru_get L k c) = lru_view L c k \<and> lru_view L (snd (lru_get L k c)) = lru_view L c \<and>
        lru_cap L (snd (lru_get L k c)) = lru_cap L c \<and>
        length (lru_iter L (snd (lru_get L k c))) \<le> length (lru_iter L c)) \<and>
     (\<forall>k v c. 0 < lru_cap L c \<longrightarrow> lru_view L (lru_put L k v c) k = Some v \<and>
        lru_view L (lru_put L k v c) \<subseteq>\<^sub>m (lru_view L c)(k \<mapsto> v) \<and>
        lru_cap L (lru_put L k v c) = lru_cap L c \<and>
        length (lru_iter L (lru_put L k v c)) \<le> lru_cap L c) \<and>
     (\<forall>k v c. lru_view L c k \<noteq> None \<longrightarrow> lru_view L (lru_write L k v c) = (lru_view L c)(k \<mapsto> v) \<and>
        lru_cap L (lru_write L k v c) = lru_cap L c \<and>
        length (lru_iter L (lru_write L k v c)) = length (lru_iter L c)) \<and>
     (\<forall>k c. lru_view L (lru_pop L k c) = (lru_view L c)(k := None) \<and>
        lru_cap L (lru_pop L k c) = lru_cap L c \<and>
        length (lru_iter L (lru_pop L k c)) \<le> length (lru_iter L c)) \<and>
     (\<forall>k v c. lru_keys L c \<longrightarrow> lru_keys L (snd (lru_get L k c)) \<and> lru_keys L (lru_put L k v c) \<and>
        lru_keys L (lru_write L k v c) \<and> lru_keys L (lru_pop L k c))"

lemma lru_okD:
  assumes "lru_ok L"
  shows "lru_iter L (lru_new L n) = []" "lru_cap L (lru_new L n) = n"
    "fst (lru_get L k c) = lru_view L c k" "lru_view L (snd (lru_get L k c)) = lru_view L c"
    "lru_cap L (snd (lru_get L k c)) = lru_cap L c"
    "length (lru_iter L (snd (lru_get L k c))) \<le> length (lru_iter L c)"
    "lru_view L (lru_pop L k c) = (lru_view L c)(k := None)" "lru_cap L (lru_pop L k c) = lru_cap L c"
    "length (lru_iter L (lru_pop L k c)) \<le> length (lru_iter L c)"
    "0 < lru_cap L c \<Longrightarrow> lru_view L (lru_put L k v c) k = Some v"
    "0 < lru_cap L c \<Longrightarrow> lru_view L (lru_put L k v c) \<subseteq>\<^sub>m (lru_view L c)(k \<mapsto> v)"
    "0 < lru_cap L c \<Longrightarrow> lru_cap L (lru_put L k v c) = lru_cap L c"
    "0 < lru_cap L c \<Longrightarrow> length (lru_iter L (lru_put L k v c)) \<le> lru_cap L c"
    "lru_view L c k \<noteq> None \<Longrightarrow> lru_view L (lru_write L k v c) = (lru_view L c)(k \<mapsto> v)"
    "lru_view L c k \<noteq> None \<Longrightarrow> lru_cap L (lru_write L k v c) = lru_cap L c"
    "lru_view L c k \<noteq> None \<Longrightarrow> length (lru_iter L (lru_write L k v c)) = length (lru_iter L c)"
    "lru_keys L c \<Longrightarrow> lru_keys L (snd (lru_get L k c))" "lru_keys L c \<Longrightarrow> lru_keys L (lru_put L k v c)"
    "lru_keys L c \<Longrightarrow> lru_keys L (lru_write L k v c)" "lru_keys L c \<Longrightarrow> lru_keys L (lru_pop L k c)"
  using assms unfolding lru_ok_def by (simp_all)

text \<open>A concrete cache, most recent entry first, that obeys the laws.\<close>

definition list_lru :: "(nat \<times> ('k \<times> 'v) list, 'k, 'v) lru_ops" where
  "list_lru = \<lparr>
     lru_new = (\<lambda>n. (n, [])),
     lru_cap = fst,
     lru_iter = snd,
     lru_get = (\<lambda>k (n, m). case map_of m k of None \<Rightarrow> (None, (n, m))
       | Some v \<Rightarrow> (Some v, (n, (k, v) # filter (\<lambda>e. fst e \<noteq> k) m))),
     lru_put = (\<lambda>k v (n, m). (n, take n ((k, v) # filter (\<lambda>e. fst e \<noteq> k) m))),
     lru_write = (\<lambda>k v (n, m). (n, map (\<lambda>e. if fst e = k then (k, v) else e) m)),
     lru_pop = (\<lambda>k (n, m). (n, filter (\<lambda>e. fst e \<noteq> k) m))\<rparr>"

lemma map_of_take_le: "map_of (take n m) \<subseteq>\<^sub>m map_of m"
proof (induction m arbitrary: n)
  case (Cons e m)
  have "map_of (take n' m) a = Some y \<Longrightarrow> map_of m a = Some y" for n' a y
    using Cons.IH [of n'] by (metis domI map_le_def)
  then show ?case by (cases n) (auto simp: map_le_def)
qed simp

lemma map_of_write: "map_of m k \<noteq> None \<Longrightarrow> map_of (map (\<lambda>e. if fst e = k then (k, v) else e) m) = (map_of m)(k \<mapsto> v)"
proof -
  have "map_of (map (\<lambda>e. if fst e = k then (k, v) else e) m) x =
      (if x = k then (if map_of m k = None then None else Some v) else map_of m x)" for x
    by (induction m) auto
  then show "map_of m k \<noteq> None \<Longrightarrow> ?thesis" by (auto simp: fun_eq_iff)
qed

lemma length_filter_key: "map_of m k = Some v \<Longrightarrow> Suc (length (filter (\<lambda>e. fst e \<noteq> k) m)) \<le> length m"
  by (induction m) (auto split: if_splits simp: le_SucI)

lemma list_lru_ok: "lru_ok list_lru"
  unfolding lru_ok_def
proof (intro conjI allI impI)
  fix k :: 'a and v :: 'b and c :: "nat \<times> ('a \<times> 'b) list"
  obtain n m where c: "c = (n, m)" by fastforce
  show "fst (lru_get list_lru k c) = lru_view list_lru c k"
    "lru_view list_lru (snd (lru_get list_lru k c)) = lru_view list_lru c"
    "lru_cap list_lru (snd (lru_get list_lru k c)) = lru_cap list_lru c"
    "length (lru_iter list_lru (snd (lru_get list_lru k c))) \<le> length (lru_iter list_lru c)"
    by (auto simp: c list_lru_def lru_view_def map_of_filter_key fun_eq_iff dest: length_filter_key split: option.splits)
  show "lru_view list_lru (lru_pop list_lru k c) = (lru_view list_lru c)(k := None)"
    "lru_cap list_lru (lru_pop list_lru k c) = lru_cap list_lru c"
    "length (lru_iter list_lru (lru_pop list_lru k c)) \<le> length (lru_iter list_lru c)"
    by (simp_all add: c list_lru_def lru_view_def map_of_filter_key)
  { assume "0 < lru_cap list_lru c"
    then obtain n' where n: "n = Suc n'" by (cases n) (auto simp: c list_lru_def)
    have "map_of (take n ((k, v) # filter (\<lambda>e. fst e \<noteq> k) m)) \<subseteq>\<^sub>m map_of ((k, v) # filter (\<lambda>e. fst e \<noteq> k) m)"
      by (rule map_of_take_le)
    then show "lru_view list_lru (lru_put list_lru k v c) \<subseteq>\<^sub>m (lru_view list_lru c)(k \<mapsto> v)"
      by (simp add: c list_lru_def lru_view_def map_of_filter_key)
    show "lru_view list_lru (lru_put list_lru k v c) k = Some v" by (simp add: c n list_lru_def lru_view_def)
    show "lru_cap list_lru (lru_put list_lru k v c) = lru_cap list_lru c"
      "length (lru_iter list_lru (lru_put list_lru k v c)) \<le> lru_cap list_lru c"
      by (simp_all add: c list_lru_def) }
  { assume "lru_view list_lru c k \<noteq> None"
    then show "lru_view list_lru (lru_write list_lru k v c) = (lru_view list_lru c)(k \<mapsto> v)"
      using map_of_write [of m k v] by (simp add: c list_lru_def lru_view_def)
    show "lru_cap list_lru (lru_write list_lru k v c) = lru_cap list_lru c"
      "length (lru_iter list_lru (lru_write list_lru k v c)) = length (lru_iter list_lru c)"
      by (simp_all add: c list_lru_def) }
  { assume "lru_keys list_lru c"
    then have d: "distinct (map fst m)" by (simp add: c list_lru_def lru_keys_def)
    then have f: "distinct (map fst (filter (\<lambda>e. fst e \<noteq> k) m))" by (simp add: distinct_map inj_on_def)
    then have "distinct (map fst (take n ((k, v) # filter (\<lambda>e. fst e \<noteq> k) m)))"
      unfolding take_map [symmetric] by (intro distinct_take) auto
    then show "lru_keys list_lru (snd (lru_get list_lru k c))" "lru_keys list_lru (lru_put list_lru k v c)"
      "lru_keys list_lru (lru_pop list_lru k c)"
      using d f by (auto simp: c list_lru_def lru_keys_def split: option.split)
    have "map fst (map (\<lambda>e. if fst e = k then (k, v) else e) m) = map fst m" by simp
    then show "lru_keys list_lru (lru_write list_lru k v c)"
      using d by (simp add: c list_lru_def lru_keys_def del: map_map) }
qed (simp_all add: list_lru_def)

section \<open>The buffer\<close>

type_synonym instant = nat

definition BUFFER_TTL_MS :: nat where
  "BUFFER_TTL_MS = 10000"

definition BUFFER_CAP :: nat where
  "BUFFER_CAP = 100"

record pending_message =
  pm_publisher :: peer_id
  pm_payload :: bytes
  pm_tag :: "u8 option"
  pm_received_at :: instant

definition pending_expired :: "pending_message \<Rightarrow> instant \<Rightarrow> bool" where
  "pending_expired m now \<longleftrightarrow> BUFFER_TTL_MS * 10 ^ 6 \<le> now - pm_received_at m"

record 'c verify_buffer =
  vb_counts :: 'c
  vb_queue :: "pending_message list"

type_synonym 'c counts_ops = "('c, peer_id, nat) lru_ops"

definition buffer_new :: "'c counts_ops \<Rightarrow> 'c verify_buffer" where
  "buffer_new L = \<lparr>vb_counts = lru_new L BUFFER_CAP, vb_queue = []\<rparr>"

text \<open>\<open>if let Some(c) = counts.get_mut(p) { *c = c.saturating_sub(1) }\<close>\<close>

definition decrement :: "'c counts_ops \<Rightarrow> peer_id \<Rightarrow> 'c \<Rightarrow> 'c" where
  "decrement L p c =
     (case lru_get L p c of (None, c') \<Rightarrow> c' | (Some n, c') \<Rightarrow> lru_write L p (n - 1) c')"

definition enqueue :: "'c counts_ops \<Rightarrow> 'c verify_buffer \<Rightarrow> pending_message \<Rightarrow> 'c verify_buffer \<times> bool" where
  "enqueue L b msg =
     (let b = (if BUFFER_CAP \<le> length (vb_queue b)
            then (case vb_queue b of [] \<Rightarrow> b
              | dropped # rest \<Rightarrow> \<lparr>vb_counts = decrement L (pm_publisher dropped) (vb_counts b), vb_queue = rest\<rparr>)
            else b);
          (found, c) = lru_get L (pm_publisher msg) (vb_counts b);
          existing = (case found of None \<Rightarrow> 0 | Some n \<Rightarrow> n)
      in if BUFFER_CAP \<le> existing then (b\<lparr>vb_counts := c\<rparr>, False)
         else (\<lparr>vb_counts = lru_put L (pm_publisher msg) (existing + 1) c, vb_queue = vb_queue b @ [msg]\<rparr>, True))"

fun drain_loop ::
    "'c counts_ops \<Rightarrow> instant \<Rightarrow> (peer_id \<Rightarrow> bool) \<Rightarrow> 'c \<Rightarrow> pending_message list
     \<Rightarrow> 'c \<times> pending_message list \<times> nat \<times> pending_message list" where
  "drain_loop L now is_known c [] = (c, [], 0, [])"
| "drain_loop L now is_known c (msg # q) =
     (if pending_expired msg now
      then (let (c', ready, expired, remaining) = drain_loop L now is_known (decrement L (pm_publisher msg) c) q
            in (c', ready, expired + 1, remaining))
      else if is_known (pm_publisher msg)
      then (let (c', ready, expired, remaining) = drain_loop L now is_known (decrement L (pm_publisher msg) c) q
            in (c', msg # ready, expired, remaining))
      else (let (c', ready, expired, remaining) = drain_loop L now is_known c q
            in (c', ready, expired, msg # remaining)))"

definition drain_ready ::
    "'c counts_ops \<Rightarrow> 'c verify_buffer \<Rightarrow> instant \<Rightarrow> (peer_id \<Rightarrow> bool)
     \<Rightarrow> 'c verify_buffer \<times> pending_message list \<times> nat" where
  "drain_ready L b now is_known =
     (let (c, ready, expired, remaining) = drain_loop L now is_known (vb_counts b) (vb_queue b)
      in (\<lparr>vb_counts = c, vb_queue = remaining\<rparr>, ready, expired))"

definition buffer_len :: "'c verify_buffer \<Rightarrow> nat" where
  "buffer_len b = length (vb_queue b)"

section \<open>Invariant\<close>

definition queued :: "peer_id \<Rightarrow> pending_message list \<Rightarrow> nat" where
  "queued p q = length (filter (\<lambda>m. pm_publisher m = p) q)"

definition counts_le :: "'c counts_ops \<Rightarrow> 'c \<Rightarrow> pending_message list \<Rightarrow> bool" where
  "counts_le L c q \<longleftrightarrow> (\<forall>p n. lru_view L c p = Some n \<longrightarrow> n \<le> queued p q)"

definition buffer_inv :: "'c counts_ops \<Rightarrow> 'c verify_buffer \<Rightarrow> bool" where
  "buffer_inv L b \<longleftrightarrow> length (vb_queue b) \<le> BUFFER_CAP \<and> counts_le L (vb_counts b) (vb_queue b) \<and>
     lru_cap L (vb_counts b) = BUFFER_CAP"

lemma queued_le: "queued p q \<le> length q"
  by (simp add: queued_def)

lemma queued_simps [simp]:
  "queued p [] = 0" "queued p (m # q) = (if pm_publisher m = p then 1 else 0) + queued p q"
  "queued p (q @ [m]) = queued p q + (if pm_publisher m = p then 1 else 0)"
  by (simp_all add: queued_def)

lemma decrement_view:
  "lru_ok L \<Longrightarrow> lru_view L (decrement L p c) = (case lru_view L c p of None \<Rightarrow> lru_view L c
     | Some n \<Rightarrow> (lru_view L c)(p \<mapsto> n - 1))"
  using lru_okD(3,4,14) [of L] by (simp add: decrement_def case_prod_unfold split: option.split)

lemma decrement_cap: "lru_ok L \<Longrightarrow> lru_cap L (decrement L p c) = lru_cap L c"
  using lru_okD(3-5,15) [of L] by (simp add: decrement_def case_prod_unfold split: option.split)

lemma queued_append [simp]: "queued p (q @ q') = queued p q + queued p q'"
  by (simp add: queued_def)

lemma decrement_counts:
  assumes "lru_ok L" and "counts_le L c (pre @ m # q)"
  shows "counts_le L (decrement L (pm_publisher m) c) (pre @ q)"
  using assms(2) unfolding counts_le_def decrement_view [OF assms(1)]
  by (fastforce split: option.splits if_splits)

section \<open>Enqueueing\<close>

lemma put_counts:
  assumes "lru_ok L" and "counts_le L c q" and "n \<le> queued (pm_publisher m) q" and "0 < lru_cap L c"
  shows "counts_le L (lru_put L (pm_publisher m) (n + 1) c) (q @ [m])"
proof -
  have le: "lru_view L (lru_put L (pm_publisher m) (n + 1) c) \<subseteq>\<^sub>m (lru_view L c)(pm_publisher m \<mapsto> n + 1)"
    by (rule lru_okD(11) [OF assms(1,4)])
  show ?thesis
    unfolding counts_le_def
  proof (intro allI impI)
    fix p k
    assume "lru_view L (lru_put L (pm_publisher m) (n + 1) c) p = Some k"
    with le have "((lru_view L c)(pm_publisher m \<mapsto> n + 1)) p = Some k" by (metis domI map_le_def)
    then show "k \<le> queued p (q @ [m])"
      using assms(2,3) unfolding counts_le_def by (auto split: if_splits intro: trans_le_add1)
  qed
qed

lemma enqueue_eq:
  assumes "lru_ok L" and "buffer_inv L b"
  shows "\<exists>c. enqueue L b msg =
      (\<lparr>vb_counts = c, vb_queue = drop (Suc (length (vb_queue b)) - BUFFER_CAP) (vb_queue b) @ [msg]\<rparr>, True) \<and>
    counts_le L c (drop (Suc (length (vb_queue b)) - BUFFER_CAP) (vb_queue b) @ [msg]) \<and> lru_cap L c = BUFFER_CAP"
proof -
  define b' where "b' = (if BUFFER_CAP \<le> length (vb_queue b)
            then (case vb_queue b of [] \<Rightarrow> b
              | dropped # rest \<Rightarrow> \<lparr>vb_counts = decrement L (pm_publisher dropped) (vb_counts b), vb_queue = rest\<rparr>)
            else b)"
  note inv = assms(2) [unfolded buffer_inv_def]
  have b': "vb_queue b' = drop (Suc (length (vb_queue b)) - BUFFER_CAP) (vb_queue b) \<and>
      counts_le L (vb_counts b') (vb_queue b') \<and> lru_cap L (vb_counts b') = BUFFER_CAP \<and> length (vb_queue b') < BUFFER_CAP"
  proof (cases "BUFFER_CAP \<le> length (vb_queue b)")
    case True
    with inv have len: "length (vb_queue b) = BUFFER_CAP" by simp
    then obtain d r where q: "vb_queue b = d # r" by (cases "vb_queue b") (simp_all add: BUFFER_CAP_def)
    then have "counts_le L (decrement L (pm_publisher d) (vb_counts b)) r"
      using decrement_counts [OF assms(1), of "vb_counts b" "[]" d r] inv by simp
    then show ?thesis using True len inv q by (simp add: b'_def decrement_cap [OF assms(1)])
  next
    case False
    with inv show ?thesis by (simp add: b'_def)
  qed
  let ?p = "pm_publisher msg" and ?c = "snd (lru_get L (pm_publisher msg) (vb_counts b'))"
  let ?n = "case lru_view L (vb_counts b') ?p of None \<Rightarrow> 0 | Some n \<Rightarrow> n"
  have cl: "counts_le L (vb_counts b') (vb_queue b')" and cap: "lru_cap L (vb_counts b') = BUFFER_CAP"
    using b' by blast+
  from cl have n: "?n \<le> queued ?p (vb_queue b')" unfolding counts_le_def by (auto split: option.split)
  also have "\<dots> \<le> length (vb_queue b')" by (rule queued_le)
  also have "\<dots> < BUFFER_CAP" using b' by blast
  finally have lt: "?n < BUFFER_CAP" .
  have c: "counts_le L ?c (vb_queue b')" "0 < lru_cap L ?c" "lru_cap L ?c = BUFFER_CAP"
    using cl cap by (simp_all add: counts_le_def lru_okD(4,5) [OF assms(1)] BUFFER_CAP_def)
  have "enqueue L b msg = (\<lparr>vb_counts = lru_put L ?p (?n + 1) ?c, vb_queue = vb_queue b' @ [msg]\<rparr>, True)"
    using lt unfolding enqueue_def b'_def [symmetric] Let_def
    by (simp add: case_prod_unfold lru_okD(3) [OF assms(1)])
  moreover have "counts_le L (lru_put L ?p (?n + 1) ?c) (vb_queue b' @ [msg])"
    by (rule put_counts [OF assms(1) c(1) n c(2)])
  moreover have "lru_cap L (lru_put L ?p (?n + 1) ?c) = BUFFER_CAP"
    using lru_okD(12) [OF assms(1) c(2)] c(3) by simp
  ultimately show ?thesis using b' by auto
qed

section \<open>Draining\<close>

lemma drain_loop_counts:
  assumes "lru_ok L"
  shows "counts_le L c (pre @ q) \<Longrightarrow> drain_loop L now k c q = (c', ready, expired, remaining) \<Longrightarrow>
    counts_le L c' (pre @ remaining) \<and> lru_cap L c' = lru_cap L c"
proof (induction q arbitrary: c pre c' ready expired remaining)
  case (Cons m q)
  show ?case
  proof (cases "pending_expired m now \<or> k (pm_publisher m)")
    case True
    then obtain r e where "drain_loop L now k (decrement L (pm_publisher m) c) q = (c', r, e, remaining)"
      using Cons.prems(2) by (auto split: prod.splits if_splits)
    moreover have "counts_le L (decrement L (pm_publisher m) c) (pre @ q)"
      using decrement_counts [OF assms Cons.prems(1)] .
    ultimately show ?thesis using Cons.IH decrement_cap [OF assms] by metis
  next
    case False
    then obtain rem where rem: "drain_loop L now k c q = (c', ready, expired, rem)" "remaining = m # rem"
      using Cons.prems(2) by (auto split: prod.splits)
    have "counts_le L c ((pre @ [m]) @ q)" using Cons.prems(1) by simp
    from Cons.IH [OF this rem(1)] rem(2) show ?thesis by simp
  qed
qed simp

lemma drain_loop_split:
  "drain_loop L now k c q = (c', ready, expired, remaining) \<Longrightarrow>
   ready = filter (\<lambda>m. \<not> pending_expired m now \<and> k (pm_publisher m)) q \<and>
   remaining = filter (\<lambda>m. \<not> pending_expired m now \<and> \<not> k (pm_publisher m)) q \<and>
   expired = length (filter (\<lambda>m. pending_expired m now) q)"
proof (induction q arbitrary: c c' ready expired remaining)
  case (Cons m q)
  then show ?case by (fastforce split: prod.splits if_splits)
qed simp

datatype buffer_event = BufEnqueue pending_message | BufDrain instant "peer_id set"

fun buffer_step :: "'c counts_ops \<Rightarrow> 'c verify_buffer \<Rightarrow> buffer_event \<Rightarrow> 'c verify_buffer" where
  "buffer_step L b (BufEnqueue m) = fst (enqueue L b m)"
| "buffer_step L b (BufDrain now known) = fst (drain_ready L b now (\<lambda>p. p \<in> known))"

lemma buffer_step_inv:
  assumes "lru_ok L" and "buffer_inv L b"
  shows "buffer_inv L (buffer_step L b e)"
proof (cases e)
  case (BufEnqueue m)
  have "length (vb_queue b) \<le> BUFFER_CAP" using assms(2) by (simp add: buffer_inv_def)
  then have "length (drop (Suc (length (vb_queue b)) - BUFFER_CAP) (vb_queue b) @ [m]) \<le> BUFFER_CAP"
    by (auto simp: BUFFER_CAP_def)
  with enqueue_eq [OF assms, of m] show ?thesis by (auto simp: BufEnqueue buffer_inv_def)
next
  case (BufDrain now known)
  obtain c r x q where d: "drain_loop L now (\<lambda>p. p \<in> known) (vb_counts b) (vb_queue b) = (c, r, x, q)"
    by (metis prod_cases4)
  have "counts_le L (vb_counts b) ([] @ vb_queue b)" using assms(2) by (simp add: buffer_inv_def)
  from drain_loop_counts [OF assms(1) this d] drain_loop_split [OF d] assms(2) show ?thesis
    by (auto simp: BufDrain drain_ready_def d buffer_inv_def intro: order_trans [OF length_filter_le])
qed

interpretation buffer_ts: guarded_transition_system "buffer_step L" "\<lambda>b. lru_ok L \<and> buffer_inv L b"
  "\<lambda>b. buffer_len b \<le> BUFFER_CAP" for L
  by unfold_locales (auto simp: buffer_step_inv, simp add: buffer_inv_def buffer_len_def)

lemma buffer_inv_new: "lru_ok L \<Longrightarrow> buffer_inv L (buffer_new L)"
  by (simp add: buffer_inv_def buffer_new_def counts_le_def lru_view_def lru_okD(1,2))

section \<open>Properties\<close>

text \<open>
  C26. The buffer is bounded and never refuses: over every history it holds at most 100 messages,
  and the next message is always accepted at the end of the queue, at the cost of the oldest one
  when the buffer is full. The per-publisher limit is never the reason for a refusal, because a
  publisher's count never exceeds its messages in the queue.
\<close>

theorem buffer_bounded_and_accepting:
  assumes "lru_ok L"
  shows "buffer_len (run_steps (buffer_step L) (buffer_new L) es) \<le> 100 \<and>
    snd (enqueue L (run_steps (buffer_step L) (buffer_new L) es) m) \<and>
    vb_queue (fst (enqueue L (run_steps (buffer_step L) (buffer_new L) es) m)) =
      (let q = vb_queue (run_steps (buffer_step L) (buffer_new L) es)
       in (if length q = 100 then tl q else q) @ [m])"
proof -
  let ?b = "run_steps (buffer_step L) (buffer_new L) es"
  have inv: "buffer_inv L ?b"
    using buffer_ts.run_inv [of L "buffer_new L" es] assms buffer_inv_new by blast
  have len: "buffer_len ?b \<le> 100"
    using buffer_ts.run_good [of L "buffer_new L" es] assms buffer_inv_new [OF assms] by (simp add: BUFFER_CAP_def)
  then have "drop (Suc (length (vb_queue ?b)) - BUFFER_CAP) (vb_queue ?b) =
      (if length (vb_queue ?b) = 100 then tl (vb_queue ?b) else vb_queue ?b)"
    by (auto simp: BUFFER_CAP_def buffer_len_def drop_Suc)
  with enqueue_eq [OF assms inv, of m] len show ?thesis by (auto simp: Let_def)
qed

definition demo_message :: "u8 \<Rightarrow> instant \<Rightarrow> pending_message" where
  "demo_message p t = \<lparr>pm_publisher = PeerId [p], pm_payload = [], pm_tag = None, pm_received_at = t\<rparr>"

theorem buffer_bounded_and_accepting_witness:
  "snd (enqueue list_lru (run_steps (buffer_step list_lru) (buffer_new list_lru)
      (replicate 100 (BufEnqueue (demo_message 1 0)))) (demo_message 1 5))"
  using buffer_bounded_and_accepting [OF list_lru_ok] by blast

text \<open>
  Draining loses and duplicates nothing: every buffered message is, in arrival order, either
  dispatched (its publisher is known and it is younger than ten seconds), counted as expired (ten
  seconds have passed), or kept for the next tick.
\<close>

theorem drain_partitions:
  "fst (snd (drain_ready L b now known)) =
     filter (\<lambda>m. now - pm_received_at m < 10 * 10 ^ 9 \<and> known (pm_publisher m)) (vb_queue b) \<and>
   vb_queue (fst (drain_ready L b now known)) =
     filter (\<lambda>m. now - pm_received_at m < 10 * 10 ^ 9 \<and> \<not> known (pm_publisher m)) (vb_queue b) \<and>
   snd (snd (drain_ready L b now known)) =
     length (filter (\<lambda>m. 10 * 10 ^ 9 \<le> now - pm_received_at m) (vb_queue b))"
proof -
  obtain c r x q where d: "drain_loop L now known (vb_counts b) (vb_queue b) = (c, r, x, q)"
    by (metis prod_cases4)
  show ?thesis
    using drain_loop_split [OF d]
    by (simp add: drain_ready_def d pending_expired_def BUFFER_TTL_MS_def not_le)
qed

end
