(* ===== verification/Trackers.thy ===== *)
theory Trackers
  imports Registry
begin

text \<open>
  The small state machines of the miner: the readiness tracker
  (\<open>server/miner/src/readiness_state.rs\<close>), and the per-publisher rate bucket and the isolation
  tracker of \<open>main.rs\<close>. The tracker's two fields have a lock each, so its concurrent behaviour is
  given by the critical sections as separate steps.
\<close>

section \<open>Readiness\<close>

record tracker =
  tk_state :: readiness_state
  tk_in_flight :: nat

definition tracker_new :: tracker where
  "tracker_new = \<lparr>tk_state = Initialised, tk_in_flight = 0\<rparr>"

definition state_rank :: "readiness_state \<Rightarrow> nat" where
  "state_rank r = (case r of Initialised \<Rightarrow> 0 | Connected \<Rightarrow> 1 | Listening \<Rightarrow> 2 | Ready \<Rightarrow> 3
     | Active \<Rightarrow> 4 | Degraded \<Rightarrow> 5 | Stopped \<Rightarrow> 6)"

definition transition_to :: "tracker \<Rightarrow> readiness_state \<Rightarrow> tracker" where
  "transition_to k target = k\<lparr>tk_state := target\<rparr>"

definition mark_connected :: "tracker \<Rightarrow> tracker" where
  "mark_connected k = transition_to k Connected"

definition mark_listening :: "tracker \<Rightarrow> tracker" where
  "mark_listening k = (if state_rank (tk_state k) < state_rank Listening then k\<lparr>tk_state := Listening\<rparr> else k)"

definition mark_ready :: "tracker \<Rightarrow> tracker" where
  "mark_ready k = (if tk_state k \<in> {Initialised, Connected, Listening} then k\<lparr>tk_state := Ready\<rparr> else k)"

definition task_started :: "tracker \<Rightarrow> tracker" where
  "task_started k =
     (let k = k\<lparr>tk_in_flight := tk_in_flight k + 1\<rparr>
      in if tk_state k \<in> {Ready, Listening, Connected} then k\<lparr>tk_state := Active\<rparr> else k)"

definition task_finished :: "tracker \<Rightarrow> tracker" where
  "task_finished k =
     (let k = k\<lparr>tk_in_flight := tk_in_flight k - 1\<rparr>
      in if tk_in_flight k = 0 \<and> tk_state k = Active then k\<lparr>tk_state := Ready\<rparr> else k)"

definition mark_degraded :: "tracker \<Rightarrow> tracker" where
  "mark_degraded k = (if tk_state k \<noteq> Stopped then k\<lparr>tk_state := Degraded\<rparr> else k)"

definition mark_recovered :: "tracker \<Rightarrow> tracker" where
  "mark_recovered k =
     (if tk_state k = Degraded then k\<lparr>tk_state := (if 0 < tk_in_flight k then Active else Ready)\<rparr> else k)"

definition mark_stopped :: "tracker \<Rightarrow> tracker" where
  "mark_stopped k = k\<lparr>tk_state := Stopped\<rparr>"

datatype tracker_op = MarkConnected | MarkListening | MarkReady | TaskStarted | TaskFinished
  | MarkDegraded | MarkRecovered | MarkStopped

fun tracker_step :: "tracker \<Rightarrow> tracker_op \<Rightarrow> tracker" where
  "tracker_step k MarkConnected = mark_connected k"
| "tracker_step k MarkListening = mark_listening k"
| "tracker_step k MarkReady = mark_ready k"
| "tracker_step k TaskStarted = task_started k"
| "tracker_step k TaskFinished = task_finished k"
| "tracker_step k MarkDegraded = mark_degraded k"
| "tracker_step k MarkRecovered = mark_recovered k"
| "tracker_step k MarkStopped = mark_stopped k"

lemmas tracker_defs [miner_simps] = mark_connected_def transition_to_def mark_listening_def mark_ready_def
  task_started_def task_finished_def mark_degraded_def mark_recovered_def mark_stopped_def

definition tracker_inv :: "tracker \<Rightarrow> bool" where
  "tracker_inv k \<longleftrightarrow> (tk_state k = Active \<longrightarrow> 0 < tk_in_flight k)"

interpretation tracker_ts: transition_system tracker_step tracker_inv
proof
  fix k e
  assume "tracker_inv k"
  then show "tracker_inv (tracker_step k e)"
    by (cases e) (auto simp: miner_simps tracker_inv_def Let_def)
qed

text \<open>
  The lifecycle: over every sequence of operations the state is \<open>Active\<close> only while a task is in
  flight, and once \<open>Stopped\<close> it stays \<open>Stopped\<close> whatever follows except a new \<open>mark_connected\<close>, so a
  stopped node is never advertised as eligible.
\<close>

theorem readiness_lifecycle:
  "(tk_state (run_steps tracker_step tracker_new es) = Active \<longrightarrow>
      0 < tk_in_flight (run_steps tracker_step tracker_new es)) \<and>
   (MarkConnected \<notin> set es' \<longrightarrow>
      tk_state (run_steps tracker_step (run_steps tracker_step tracker_new (es @ [MarkStopped])) es') = Stopped)"
proof (intro conjI impI)
  have "tracker_inv (run_steps tracker_step tracker_new es)"
    by (rule tracker_ts.run_inv) (simp add: tracker_inv_def tracker_new_def)
  then show "tk_state (run_steps tracker_step tracker_new es) = Active \<Longrightarrow>
      0 < tk_in_flight (run_steps tracker_step tracker_new es)" by (simp add: tracker_inv_def)
  have step: "tk_state (tracker_step k e) = Stopped" if "tk_state k = Stopped" "e \<noteq> MarkConnected" for k e
    using that by (cases e) (auto simp: miner_simps Let_def state_rank_def)
  have run: "tk_state k = Stopped \<Longrightarrow> MarkConnected \<notin> set es' \<Longrightarrow> tk_state (run_steps tracker_step k es') = Stopped" for k
    by (induction es' arbitrary: k) (auto simp: step)
  assume "MarkConnected \<notin> set es'"
  then show "tk_state (run_steps tracker_step (run_steps tracker_step tracker_new (es @ [MarkStopped])) es') = Stopped"
    by (intro run) (simp_all add: mark_stopped_def)
qed

theorem readiness_lifecycle_witness:
  "tk_state (run_steps tracker_step (run_steps tracker_step tracker_new ([MarkConnected, TaskStarted] @ [MarkStopped]))
     [TaskFinished, MarkReady]) = Stopped"
  using readiness_lifecycle [of "[MarkConnected, TaskStarted]" "[TaskFinished, MarkReady]"] by simp

section \<open>Readiness under concurrency\<close>

text \<open>
  \<open>task_started\<close> and \<open>task_finished\<close> release the lock of the counter before they take the lock of
  the state. Each is two atomic steps, and a finishing thread carries the count it read.
\<close>

record shared_tracker =
  sh_tracker :: tracker
  sh_starting :: nat
  sh_finishing :: "nat list"

inductive tracker_race :: "shared_tracker \<Rightarrow> shared_tracker \<Rightarrow> bool" where
  start_count: "tracker_race s (s\<lparr>sh_tracker := (sh_tracker s)\<lparr>tk_in_flight := tk_in_flight (sh_tracker s) + 1\<rparr>,
      sh_starting := sh_starting s + 1\<rparr>)"
| start_state: "0 < sh_starting s \<Longrightarrow>
    tracker_race s (s\<lparr>sh_tracker := (if tk_state (sh_tracker s) \<in> {Ready, Listening, Connected}
        then (sh_tracker s)\<lparr>tk_state := Active\<rparr> else sh_tracker s),
      sh_starting := sh_starting s - 1\<rparr>)"
| finish_count: "tracker_race s (s\<lparr>sh_tracker := (sh_tracker s)\<lparr>tk_in_flight := tk_in_flight (sh_tracker s) - 1\<rparr>,
      sh_finishing := sh_finishing s @ [tk_in_flight (sh_tracker s) - 1]\<rparr>)"
| finish_state: "sh_finishing s = n # ns \<Longrightarrow>
    tracker_race s (s\<lparr>sh_tracker := (if n = 0 \<and> tk_state (sh_tracker s) = Active
        then (sh_tracker s)\<lparr>tk_state := Ready\<rparr> else sh_tracker s),
      sh_finishing := ns\<rparr>)"

definition race_start :: shared_tracker where
  "race_start = \<lparr>sh_tracker = \<lparr>tk_state = Active, tk_in_flight = 1\<rparr>, sh_starting = 0, sh_finishing = []\<rparr>"

text \<open>
  C27. The two locks admit a lost update: from one task in flight, a task that finishes while another
  starts can leave the node idle (\<open>Ready\<close>) with a task in flight and no operation pending.
\<close>

theorem readiness_lost_update:
  "\<exists>s. tracker_race\<^sup>*\<^sup>* race_start s \<and> tk_state (sh_tracker s) = Ready \<and> tk_in_flight (sh_tracker s) = 1 \<and>
     sh_starting s = 0 \<and> sh_finishing s = []"
proof -
  let ?t = "\<lambda>st n i fs. \<lparr>sh_tracker = \<lparr>tk_state = st, tk_in_flight = n\<rparr>, sh_starting = i, sh_finishing = fs\<rparr>"
  have "tracker_race race_start (?t Active 0 0 [0])"
    using finish_count [of race_start] by (simp add: race_start_def)
  moreover have "tracker_race (?t Active 0 0 [0]) (?t Active 1 1 [0])"
    using start_count [of "?t Active 0 0 [0]"] by simp
  moreover have "tracker_race (?t Active 1 1 [0]) (?t Active 1 0 [0])"
    using start_state [of "?t Active 1 1 [0]"] by simp
  moreover have "tracker_race (?t Active 1 0 [0]) (?t Ready 1 0 [])"
    using finish_state [of "?t Active 1 0 [0]" 0 "[]"] by simp
  ultimately have "tracker_race\<^sup>*\<^sup>* race_start (?t Ready 1 0 [])" by (meson rtranclp.rtrancl_into_rtrancl rtranclp.rtrancl_refl)
  then show ?thesis by (intro exI) auto
qed

section \<open>Rate buckets\<close>

definition RATE_LIMIT_WINDOW_MS :: u64 where
  "RATE_LIMIT_WINDOW_MS = 60000"

definition RATE_LIMIT_MAX_RESULTS_PER_WINDOW :: u32 where
  "RATE_LIMIT_MAX_RESULTS_PER_WINDOW = 100"

definition STATE_SYNC_MAX_REQUESTS_PER_WINDOW :: u32 where
  "STATE_SYNC_MAX_REQUESTS_PER_WINDOW = 6"

record rate_bucket =
  rb_window_started_at :: u64
  rb_count :: u32

definition bucket_default :: rate_bucket where
  "bucket_default = \<lparr>rb_window_started_at = 0, rb_count = 0\<rparr>"

definition roll_window :: "rate_bucket \<Rightarrow> u64 \<Rightarrow> rate_bucket" where
  "roll_window b now_secs =
     (if RATE_LIMIT_WINDOW_MS div 1000 \<le> saturating_sub now_secs (rb_window_started_at b)
      then \<lparr>rb_window_started_at = now_secs, rb_count = 0\<rparr> else b)"

definition record_with_cap :: "rate_bucket \<Rightarrow> u64 \<Rightarrow> u32 \<Rightarrow> rate_bucket \<times> bool" where
  "record_with_cap b now_secs cap =
     (let b = roll_window b now_secs;
          b = b\<lparr>rb_count := saturating_add (rb_count b) 1\<rparr>
      in (b, cap < rb_count b))"

definition record_bucket :: "rate_bucket \<Rightarrow> u64 \<Rightarrow> rate_bucket \<times> bool" where
  "record_bucket b now_secs = record_with_cap b now_secs RATE_LIMIT_MAX_RESULTS_PER_WINDOW"

text \<open>The number of messages a sequence of arrivals gets through.\<close>

fun admitted :: "u32 \<Rightarrow> rate_bucket \<Rightarrow> u64 list \<Rightarrow> nat" where
  "admitted cap b [] = 0"
| "admitted cap b (t # ts) =
     (let (b', over) = record_with_cap b t cap in (if over then 0 else 1) + admitted cap b' ts)"

lemma unat_saturating_Suc: "unat (saturating_add (c :: u32) 1) = min (unat c + 1) (2 ^ 32 - 1)"
  by (simp add: unat_saturating_add)

lemma roll_window_fresh: "unat t - unat (rb_window_started_at b) < 60 \<Longrightarrow> roll_window b t = b"
proof -
  assume "unat t - unat (rb_window_started_at b) < 60"
  then have "unat (saturating_sub t (rb_window_started_at b)) < 60" by (simp add: unat_saturating_sub)
  then have "\<not> 60 \<le> saturating_sub t (rb_window_started_at b)" by (simp add: word_le_nat_alt)
  then show ?thesis by (simp add: roll_window_def RATE_LIMIT_WINDOW_MS_def)
qed

lemma roll_window_expired:
  "\<not> unat t - unat (rb_window_started_at b) < 60 \<Longrightarrow> roll_window b t = \<lparr>rb_window_started_at = t, rb_count = 0\<rparr>"
proof -
  assume "\<not> unat t - unat (rb_window_started_at b) < 60"
  then have "60 \<le> unat (saturating_sub t (rb_window_started_at b))" by (simp add: unat_saturating_sub)
  then have "60 \<le> saturating_sub t (rb_window_started_at b)" by (simp add: word_le_nat_alt)
  then show ?thesis by (simp add: roll_window_def RATE_LIMIT_WINDOW_MS_def)
qed

lemma admitted_one_window:
  assumes "unat cap < 2 ^ 32 - 1" and "\<forall>t \<in> set ts. unat t - unat (rb_window_started_at b) < 60"
  shows "admitted cap b ts \<le> unat cap - unat (rb_count b)"
  using assms(2)
proof (induction ts arbitrary: b)
  case (Cons t ts)
  let ?b = "b\<lparr>rb_count := saturating_add (rb_count b) 1\<rparr>"
  have "roll_window b t = b" using Cons.prems by (intro roll_window_fresh) simp
  then have "admitted cap b (t # ts) = (if cap < rb_count ?b then 0 else 1) + admitted cap ?b ts"
    by (simp add: record_with_cap_def)
  moreover have "admitted cap ?b ts \<le> unat cap - unat (rb_count ?b)" using Cons.prems by (intro Cons.IH) simp
  moreover have "unat (rb_count ?b) = min (unat (rb_count b) + 1) (2 ^ 32 - 1)" by (simp add: unat_saturating_Suc)
  ultimately show ?case using assms(1) by (auto simp: word_less_nat_alt)
qed simp

lemma admitted_two_windows:
  assumes "unat cap < 2 ^ 32 - 1" and "sorted (map unat ts)" and "\<forall>t \<in> set ts. T \<le> unat t \<and> unat t < T + 60"
  shows "admitted cap b ts \<le> (unat cap - unat (rb_count b)) + unat cap"
  using assms(2,3)
proof (induction ts arbitrary: b)
  case (Cons t ts)
  show ?case
  proof (cases "unat t - unat (rb_window_started_at b) < 60")
    case True
    let ?b = "b\<lparr>rb_count := saturating_add (rb_count b) 1\<rparr>"
    have "admitted cap b (t # ts) = (if cap < rb_count ?b then 0 else 1) + admitted cap ?b ts"
      using roll_window_fresh [OF True] by (simp add: record_with_cap_def)
    moreover have "admitted cap ?b ts \<le> (unat cap - unat (rb_count ?b)) + unat cap" using Cons.prems by (intro Cons.IH) auto
    moreover have "unat (rb_count ?b) = min (unat (rb_count b) + 1) (2 ^ 32 - 1)" by (simp add: unat_saturating_Suc)
    ultimately show ?thesis using assms(1) by (auto simp: word_less_nat_alt)
  next
    case False
    let ?b = "\<lparr>rb_window_started_at = t, rb_count = 0\<rparr>"
    have "roll_window ?b t = ?b" by (rule roll_window_fresh) simp
    then have "admitted cap b (t # ts) = admitted cap ?b (t # ts)"
      using roll_window_expired [OF False] by (simp add: record_with_cap_def)
    also have "\<dots> \<le> unat cap - unat (rb_count ?b)"
      using Cons.prems by (intro admitted_one_window [OF assms(1)]) auto
    finally show ?thesis by simp
  qed
qed simp

text \<open>
  The per-source rate limit bounds every minute: whatever state a bucket is in, of the messages
  that arrive within any 60 seconds at most twice the cap are let through (the windows are fixed,
  not sliding), and at most the cap if they fall into the bucket's current window.
\<close>

theorem rate_bucket_bound:
  assumes "unat cap < 2 ^ 32 - 1" and "sorted (map unat ts)" and "\<forall>t \<in> set ts. T \<le> unat t \<and> unat t < T + 60"
  shows "admitted cap b ts \<le> 2 * unat cap \<and>
    (unat (rb_window_started_at b) = T \<longrightarrow> admitted cap b ts \<le> unat cap)"
proof -
  have "admitted cap b ts \<le> 2 * unat cap" using admitted_two_windows [OF assms, of b] by simp
  moreover have "admitted cap b ts \<le> unat cap" if "unat (rb_window_started_at b) = T"
  proof -
    have "\<forall>t \<in> set ts. unat t - unat (rb_window_started_at b) < 60" using assms(3) that by auto
    from admitted_one_window [OF assms(1) this] show ?thesis by simp
  qed
  ultimately show ?thesis by blast
qed

theorem rate_bucket_bound_witness:
  "admitted 6 bucket_default (replicate 40 1000) \<le> 2 * unat (6 :: u32)"
  using rate_bucket_bound [of 6 "replicate 40 1000" 1000 bucket_default] by simp

section \<open>Isolation\<close>

definition STATE_SYNC_ISOLATION_THRESHOLD_SECS :: u64 where
  "STATE_SYNC_ISOLATION_THRESHOLD_SECS = 30"

record isolation_tracker =
  it_connected :: u32
  it_zero_since :: "u64 option"

definition isolation_new :: "u64 \<Rightarrow> isolation_tracker" where
  "isolation_new now = \<lparr>it_connected = 0, it_zero_since = Some now\<rparr>"

definition on_connection_established :: "isolation_tracker \<Rightarrow> u64 \<Rightarrow> isolation_tracker \<times> u64 option" where
  "on_connection_established k now =
     (let was_isolated_for = map_option (\<lambda>t. saturating_sub now t) (it_zero_since k)
      in (\<lparr>it_connected = saturating_add (it_connected k) 1, it_zero_since = None\<rparr>,
          case was_isolated_for of
            Some gap \<Rightarrow> (if STATE_SYNC_ISOLATION_THRESHOLD_SECS \<le> gap then Some gap else None)
          | None \<Rightarrow> None))"

definition on_connection_closed :: "isolation_tracker \<Rightarrow> u64 \<Rightarrow> isolation_tracker" where
  "on_connection_closed k now =
     (let k = k\<lparr>it_connected := saturating_sub (it_connected k) 1\<rparr>
      in if it_connected k = 0 \<and> it_zero_since k = None then k\<lparr>it_zero_since := Some now\<rparr> else k)"

datatype connection_event = Established_at u64 | Closed_at u64

fun isolation_step :: "isolation_tracker \<Rightarrow> connection_event \<Rightarrow> isolation_tracker" where
  "isolation_step k (Established_at t) = fst (on_connection_established k t)"
| "isolation_step k (Closed_at t) = on_connection_closed k t"

definition isolation_inv :: "isolation_tracker \<Rightarrow> bool" where
  "isolation_inv k \<longleftrightarrow> (it_connected k = 0 \<longleftrightarrow> it_zero_since k \<noteq> None)"

lemma saturating_add_1_neq_0: "saturating_add (c :: u32) 1 \<noteq> 0"
proof
  assume "saturating_add c 1 = 0"
  then have "unat (saturating_add c 1) = 0" by simp
  then have "min (unat c + 1) (2 ^ 32 - 1) = 0" by (simp only: unat_saturating_Suc)
  then show False by (simp add: min_def split: if_splits)
qed

interpretation isolation_ts: transition_system isolation_step isolation_inv
proof
  fix k e
  assume "isolation_inv k"
  then show "isolation_inv (isolation_step k e)"
    by (cases e) (auto simp: isolation_inv_def on_connection_established_def on_connection_closed_def Let_def
        saturating_add_1_neq_0 saturating_sub_eq_0)
qed

text \<open>
  Catch-up is triggered exactly by recovery from isolation: over every history of connections,
  a connection made while another is open never triggers it, and the first connection after the
  last one closed at \<open>t1\<close> triggers it exactly when at least 30 seconds have passed, reporting the
  gap.
\<close>

theorem catch_up_iff_isolated:
  "let k = run_steps isolation_step (isolation_new t0) es
   in (it_connected k \<noteq> 0 \<longrightarrow> snd (on_connection_established k t2) = None) \<and>
      (it_connected k = 1 \<longrightarrow> snd (on_connection_established (on_connection_closed k t1) t2) =
         (if unat t1 + 30 \<le> unat t2 then Some (t2 - t1) else None))"
proof -
  let ?k = "run_steps isolation_step (isolation_new t0) es"
  have "isolation_inv ?k"
    by (rule isolation_ts.run_inv) (simp add: isolation_inv_def isolation_new_def)
  then have z: "it_connected ?k \<noteq> 0 \<Longrightarrow> it_zero_since ?k = None" by (simp add: isolation_inv_def)
  have gap: "30 \<le> saturating_sub t2 t1 \<longleftrightarrow> unat t1 + 30 \<le> unat t2"
    by (simp add: word_le_nat_alt unat_saturating_sub) arith
  have eq: "saturating_sub t2 t1 = t2 - t1" if "unat t1 + 30 \<le> unat t2"
    using that by (simp add: saturating_sub_def word_less_nat_alt)
  show ?thesis
    using z gap eq
    by (auto simp: Let_def on_connection_established_def on_connection_closed_def
        STATE_SYNC_ISOLATION_THRESHOLD_SECS_def saturating_sub_eq_0)
qed

theorem catch_up_iff_isolated_witness:
  "snd (on_connection_established (on_connection_closed
     (run_steps isolation_step (isolation_new 0) [Established_at 5]) 10) 50) = Some 40"
proof -
  have "it_connected (run_steps isolation_step (isolation_new 0) [Established_at 5]) = 1"
    by (simp add: on_connection_established_def isolation_new_def saturating_add_def)
  with catch_up_iff_isolated [of 0 "[Established_at 5]" 50 10] show ?thesis by (simp add: Let_def)
qed

end
