(* ===== verification/Miner.thy ===== *)
theory Miner
  imports Quorum Store Buffer Trackers
begin

text \<open>
  The miner node of \<open>server/miner/src/main.rs\<close>: its state and its message handlers, composed from
  the registry, the store, the quorum, the buffer and the trackers. A handler takes the node and
  one reading of the clock and returns the node with the messages it hands to gossipsub or to a
  request-response channel. The swarm itself (\<open>libp2p\<close>) is outside the model, as is the JSON parser
  of the legacy capability messages, which is a parameter.
\<close>

section \<open>State\<close>

definition OPEN_QUORUMS_LRU_CAP :: nat where
  "OPEN_QUORUMS_LRU_CAP = 10000"

definition TAG_JOB_RESULT :: u8 where
  "TAG_JOB_RESULT = 2"

definition TAG_JOB_VERIFICATION :: u8 where
  "TAG_JOB_VERIFICATION = 3"

record node_capabilities =
  nc_relay :: bool
  nc_inference :: bool
  nc_gpu_memory_mb :: u32
  nc_model_tags :: "string list"
  nc_uplink_mbps :: u32

record open_quorum =
  oq_quorum :: quorum
  oq_finalised :: bool

type_synonym 'q quorum_ops = "('q, chash, open_quorum) lru_ops"

text \<open>What the node is linked against, and the clock reading of the event at hand.\<close>

record ('b, 'q) env =
  ev_prims :: prims
  ev_counts :: "'b counts_ops"
  ev_quorums :: "'q quorum_ops"
  ev_json_caps :: "bytes \<Rightarrow> node_capabilities option"
  ev_now :: system_time
  ev_instant :: instant

record ('b, 'q) node =
  nd_registry :: registry
  nd_shared :: store
  nd_quorums :: 'q
  nd_rate_limit :: "(peer_id \<times> rate_bucket) list"
  nd_state_sync_rate_limit :: "(peer_id \<times> rate_bucket) list"
  nd_isolation :: isolation_tracker
  nd_verify_buffer :: "'b verify_buffer"
  nd_readiness :: tracker
  nd_local_peer_id :: peer_id
  nd_signing_key :: bytes

datatype topic = TopicCaps | TopicTasks | TopicVerify | TopicStateDeltas

text \<open>
  What a handler asks of the swarm: a gossipsub publication, a state-sync request to a peer, or the
  response to the request at hand.
\<close>

datatype effect =
    Publish topic bytes
  | SendRequest peer_id state_sync_request
  | SendResponse state_sync_response

type_synonym outbox = "effect list"

definition unix_now :: "system_time \<Rightarrow> u64" where
  "unix_now t = (if t < 0 then 0 else word_of_int (t div 10 ^ 9))"

definition now_unix :: "system_time \<Rightarrow> int" where
  "now_unix t = max 0 (t div 10 ^ 9)"

definition node_new :: "('b, 'q) env \<Rightarrow> peer_id \<Rightarrow> bytes \<Rightarrow> ('b, 'q) node" where
  "node_new E local_peer_id signing_key =
     \<lparr>nd_registry = registry_new, nd_shared = empty_store,
      nd_quorums = lru_new (ev_quorums E) OPEN_QUORUMS_LRU_CAP, nd_rate_limit = [],
      nd_state_sync_rate_limit = [], nd_isolation = isolation_new (unix_now (ev_now E)),
      nd_verify_buffer = buffer_new (ev_counts E), nd_readiness = tracker_new,
      nd_local_peer_id = local_peer_id, nd_signing_key = signing_key\<rparr>"

section \<open>Capability messages\<close>

definition UNSPECIFIED_ADDR :: multiaddr where
  "UNSPECIFIED_ADDR = [4, 0, 0, 0, 0, 6, 0, 0]"

definition caps_services :: "node_capabilities \<Rightarrow> service_kind list" where
  "caps_services caps = (if nc_relay caps then [SvcRelay] else []) @ (if nc_inference caps then [SvcInference] else [])"

definition caps_inference :: "node_capabilities \<Rightarrow> inference_capability option" where
  "caps_inference caps = (if nc_inference caps
     then Some \<lparr>ic_models = nc_model_tags caps, ic_context_size = 0, ic_estimated_tokens_per_sec = 0\<rparr> else None)"

definition caps_relay :: "node_capabilities \<Rightarrow> relay_capability option" where
  "caps_relay caps = (if nc_relay caps
     then Some \<lparr>rc_bandwidth_mbps = nc_uplink_mbps caps, rc_transport_kinds = []\<rparr> else None)"

definition bridge_legacy_caps_into_registry ::
    "prims \<Rightarrow> system_time \<Rightarrow> registry \<Rightarrow> peer_id \<Rightarrow> node_capabilities \<Rightarrow> registry" where
  "bridge_legacy_caps_into_registry P now g source caps =
     fst (upsert P g
       \<lparr>ad_peer_id = source, ad_version = 1, ad_services = caps_services caps,
        ad_inference = caps_inference caps, ad_relay = caps_relay caps, ad_storage = None,
        ad_network_address = UNSPECIFIED_ADDR, ad_signed_at = unix_now now, ad_ttl_seconds = 300,
        ad_verifying_key_bytes = zero_key, ad_reachable_addrs = [], ad_readiness = Ready,
        ad_has_external_internet = False, ad_bandwidth_mbps_external = None\<rparr>)"

definition handle_caps_message ::
    "('b, 'q) env \<Rightarrow> ('b, 'q) node \<Rightarrow> bytes \<Rightarrow> peer_id option \<Rightarrow> ('b, 'q) node" where
  "handle_caps_message E nd payload source =
     (let P = ev_prims E; g = nd_registry nd in
      case decode_advertisement P payload of
        Some ad \<Rightarrow> nd\<lparr>nd_registry := fst (upsert P g ad)\<rparr>
      | None \<Rightarrow>
        (case ev_json_caps E payload of
           Some caps \<Rightarrow>
             (case source of
                Some p \<Rightarrow> nd\<lparr>nd_registry := bridge_legacy_caps_into_registry P (ev_now E) g p caps\<rparr>
              | None \<Rightarrow> nd)
         | None \<Rightarrow> nd))"

definition publish_caps_v0_2 ::
    "('b, 'q) env \<Rightarrow> node_capabilities \<Rightarrow> multiaddr list \<Rightarrow> bool \<Rightarrow> ('b, 'q) node \<Rightarrow> ('b, 'q) node \<times> outbox" where
  "publish_caps_v0_2 E caps listeners published nd =
     (let P = ev_prims E;
          ad = \<lparr>ad_peer_id = nd_local_peer_id nd, ad_version = CAPS_WIRE_VERSION,
            ad_services = caps_services caps, ad_inference = caps_inference caps,
            ad_relay = caps_relay caps, ad_storage = None, ad_network_address = UNSPECIFIED_ADDR,
            ad_signed_at = unix_now (ev_now E), ad_ttl_seconds = 300,
            ad_verifying_key_bytes = ed_public P (nd_signing_key nd), ad_reachable_addrs = listeners,
            ad_readiness = tk_state (nd_readiness nd), ad_has_external_internet = False,
            ad_bandwidth_mbps_external = None\<rparr>
      in (if published then nd\<lparr>nd_readiness := mark_ready (nd_readiness nd)\<rparr> else nd,
          [Publish TopicCaps (encode_advertisement P ad)]))"

section \<open>Executor election\<close>

definition should_execute :: "peer_id \<Rightarrow> job_spec \<Rightarrow> registry \<Rightarrow> bool" where
  "should_execute local spec g =
     (let eligible = filter (\<lambda>p. p \<noteq> js_submitter spec)
            (map id_peer_id (ready_peers_for_service g (js_service spec)));
          eligible = (if local \<notin> set eligible \<and> local \<noteq> js_submitter spec then eligible @ [local] else eligible)
      in case sort_key peer_bytes eligible of [] \<Rightarrow> False | chosen # _ \<Rightarrow> chosen = local)"

definition str_bytes :: "string \<Rightarrow> bytes" where
  "str_bytes s = map of_char s"

definition build_executor_result :: "prims \<Rightarrow> job_spec \<Rightarrow> bytes" where
  "build_executor_result P spec =
     (let prompt = (case ji_prompt_text (js_inputs spec) of None \<Rightarrow> '''' | Some s \<Rightarrow> s);
          seed = (case ji_seed (js_inputs spec) of None \<Rightarrow> 0 | Some n \<Rightarrow> n)
      in sha256 P (str_bytes prompt @ to_le_bytes seed))"

section \<open>Task and verification messages\<close>

definition buffer_message ::
    "('b, 'q) env \<Rightarrow> ('b, 'q) node \<Rightarrow> peer_id \<Rightarrow> bytes \<Rightarrow> u8 option \<Rightarrow> ('b, 'q) node" where
  "buffer_message E nd publisher payload tag =
     nd\<lparr>nd_verify_buffer := fst (enqueue (ev_counts E) (nd_verify_buffer nd)
       \<lparr>pm_publisher = publisher, pm_payload = payload, pm_tag = tag, pm_received_at = ev_instant E\<rparr>)\<rparr>"

definition fresh_quorum :: "('b, 'q) env \<Rightarrow> chash \<Rightarrow> chash \<Rightarrow> open_quorum" where
  "fresh_quorum E spec_hash result_hash =
     \<lparr>oq_quorum = quorum_new quorum_standard spec_hash result_hash (ev_now E), oq_finalised = False\<rparr>"

definition execute_spec :: "('b, 'q) env \<Rightarrow> ('b, 'q) node \<Rightarrow> job_spec \<Rightarrow> ('b, 'q) node \<times> outbox" where
  "execute_spec E nd spec =
     (let P = ev_prims E; spec_hash = spec_content_hash P spec;
          meta = \<lparr>rm_verifier_method = Deterministic, rm_execution_time_ms = 1,
            rm_model_used = Some ''echo-executor'', rm_inference_token_count = None\<rparr>;
          (job_result, result_hash) = result_new_signed_at P spec_hash (nd_local_peer_id nd)
            (unix_now (ev_now E)) meta (build_executor_result P spec) (nd_signing_key nd);
          nd = (case record_result P (now_unix (ev_now E)) (nd_shared nd) job_result of
            Inl _ \<Rightarrow> nd | Inr st \<Rightarrow> nd\<lparr>nd_shared := st\<rparr>);
          nd = nd\<lparr>nd_quorums := lru_put (ev_quorums E) result_hash (fresh_quorum E spec_hash result_hash) (nd_quorums nd)\<rparr>;
          nd = nd\<lparr>nd_readiness := task_started (nd_readiness nd)\<rparr>
      in (nd, [Publish TopicVerify (TAG_JOB_RESULT # to_cbor_bytes P (wr_job_result job_result))]))"

definition handle_tasks_message :: "('b, 'q) env \<Rightarrow> ('b, 'q) node \<Rightarrow> bytes \<Rightarrow> ('b, 'q) node \<times> outbox" where
  "handle_tasks_message E nd payload =
     (let P = ev_prims E in
      case from_cbor_bytes P rd_job_spec payload of
        None \<Rightarrow> (nd, [])
      | Some spec \<Rightarrow>
        (case verifying_key (nd_registry nd) (js_submitter spec) of
           None \<Rightarrow> (buffer_message E nd (js_submitter spec) payload None, [])
         | Some submitter_key \<Rightarrow>
           (case spec_verify_signature P spec submitter_key of
              Inl _ \<Rightarrow> (nd, [])
            | Inr _ \<Rightarrow>
              (case record_spec P (now_unix (ev_now E)) (nd_shared nd) spec of
                 Inl _ \<Rightarrow> (nd, [])
               | Inr st \<Rightarrow>
                 (let nd = nd\<lparr>nd_shared := st\<rparr>
                  in if js_submitter spec = nd_local_peer_id nd then (nd, [])
                     else if \<not> should_execute (nd_local_peer_id nd) spec (nd_registry nd) then (nd, [])
                     else execute_spec E nd spec)))))"

definition bucket_of :: "(peer_id \<times> rate_bucket) list \<Rightarrow> peer_id \<Rightarrow> rate_bucket" where
  "bucket_of m p = (case map_of m p of None \<Rightarrow> bucket_default | Some b \<Rightarrow> b)"

definition handle_inbound_job_result :: "('b, 'q) env \<Rightarrow> ('b, 'q) node \<Rightarrow> bytes \<Rightarrow> ('b, 'q) node" where
  "handle_inbound_job_result E nd body =
     (let P = ev_prims E; LQ = ev_quorums E in
      case from_cbor_bytes P rd_job_result body of
        None \<Rightarrow> nd
      | Some result \<Rightarrow>
        (case verifying_key (nd_registry nd) (jr_executor result) of
           None \<Rightarrow> buffer_message E nd (jr_executor result) (TAG_JOB_RESULT # body) (Some TAG_JOB_RESULT)
         | Some executor_key \<Rightarrow>
           (case result_verify_signature P result executor_key of
              Inl _ \<Rightarrow> nd
            | Inr _ \<Rightarrow>
              (let (bucket, over) = record_bucket (bucket_of (nd_rate_limit nd) (jr_executor result)) (unix_now (ev_now E));
                   nd = nd\<lparr>nd_rate_limit := AList.update (jr_executor result) bucket (nd_rate_limit nd)\<rparr>
               in if over then nd
                  else (case record_result P (now_unix (ev_now E)) (nd_shared nd) result of
                     Inl _ \<Rightarrow> nd
                   | Inr st \<Rightarrow>
                     (let nd = nd\<lparr>nd_shared := st\<rparr>;
                          result_hash = result_content_hash P result;
                          (found, q) = lru_get LQ result_hash (nd_quorums nd)
                      in nd\<lparr>nd_quorums := (if found = None
                           then lru_put LQ result_hash (fresh_quorum E (jr_spec_hash result) result_hash) q
                           else q)\<rparr>))))))"

text \<open>The weight of a verifier's vote: the low 32 bits of its reputation, the floor if negative.\<close>

definition verifier_weight :: "store \<Rightarrow> peer_id \<Rightarrow> u32" where
  "verifier_weight st p =
     (case reputation_of st p of
        Inl _ \<Rightarrow> PROBATIONARY_REP_FLOOR
      | Inr r \<Rightarrow> (if r < 0 then PROBATIONARY_REP_FLOOR else word_of_int r))"

definition handle_inbound_verification :: "('b, 'q) env \<Rightarrow> ('b, 'q) node \<Rightarrow> bytes \<Rightarrow> ('b, 'q) node" where
  "handle_inbound_verification E nd body =
     (let P = ev_prims E; LQ = ev_quorums E in
      case from_cbor_bytes P rd_job_verification body of
        None \<Rightarrow> nd
      | Some v \<Rightarrow>
        (case verifying_key (nd_registry nd) (jv_verifier v) of
           None \<Rightarrow> buffer_message E nd (jv_verifier v) (TAG_JOB_VERIFICATION # body) (Some TAG_JOB_VERIFICATION)
         | Some verifier_key \<Rightarrow>
           (case verification_verify_signature P v verifier_key of
              Inl _ \<Rightarrow> nd
            | Inr _ \<Rightarrow>
              (case record_verification P (now_unix (ev_now E)) (nd_shared nd) v of
                 Inl _ \<Rightarrow> nd
               | Inr st \<Rightarrow>
                 (let nd = nd\<lparr>nd_shared := st\<rparr>
                  in case lru_get LQ (jv_result_hash v) (nd_quorums nd) of
                       (None, q) \<Rightarrow> nd\<lparr>nd_quorums := q\<rparr>
                     | (Some oq, q) \<Rightarrow>
                       (case add_verification P (oq_quorum oq) v (verifier_weight st (jv_verifier v)) verifier_key of
                          Inl _ \<Rightarrow> nd\<lparr>nd_quorums := q\<rparr>
                        | Inr qm \<Rightarrow> nd\<lparr>nd_quorums := lru_write LQ (jv_result_hash v) (oq\<lparr>oq_quorum := qm\<rparr>) q\<rparr>))))))"

definition handle_verify_message :: "('b, 'q) env \<Rightarrow> ('b, 'q) node \<Rightarrow> bytes \<Rightarrow> ('b, 'q) node" where
  "handle_verify_message E nd payload =
     (case payload of
        [] \<Rightarrow> nd
      | tag # body \<Rightarrow>
        (if tag = TAG_JOB_RESULT then handle_inbound_job_result E nd body
         else if tag = TAG_JOB_VERIFICATION then handle_inbound_verification E nd body
         else nd))"

end
