(* ===== verification/Election.thy ===== *)
theory Election
  imports Miner Registry_Properties
begin

text \<open>
  Executor self-selection (\<open>should_execute\<close> of \<open>server/miner/src/main.rs\<close>): every node decides for
  itself, from its own view of the registry, whether it runs a task. The election is exact: the
  least eligible id wins.
\<close>

definition candidates :: "job_spec \<Rightarrow> registry \<Rightarrow> peer_id set" where
  "candidates spec g = id_peer_id ` set (ready_peers_for_service g (js_service spec)) - {js_submitter spec}"

lemma hd_sort_key_least:
  fixes f :: "'a \<Rightarrow> 'b::linorder"
  assumes "x \<in> set xs" and "inj f"
  shows "hd (sort_key f xs) = x \<longleftrightarrow> (\<forall>y \<in> set xs. f x \<le> f y)"
proof
  assume "hd (sort_key f xs) = x"
  then show "\<forall>y \<in> set xs. f x \<le> f y" using hd_sort_key_le [of _ xs f] by blast
next
  assume least: "\<forall>y \<in> set xs. f x \<le> f y"
  have "sort_key f xs \<noteq> []" using assms(1) by (metis length_sort length_0_conv length_pos_if_in_set less_numeral_extra(3))
  then have "hd (sort_key f xs) \<in> set xs" by (metis hd_in_set set_sort)
  then have "f (hd (sort_key f xs)) = f x"
    using least hd_sort_key_le [OF assms(1), of f] by (auto intro: antisym)
  then show "hd (sort_key f xs) = x" using assms(2) by (simp add: inj_eq)
qed

lemma inj_peer_bytes: "inj peer_bytes"
  by (auto simp: inj_def peer_id.expand)

lemma sort_key_eq_Nil [simp]: "sort_key f xs = [] \<longleftrightarrow> xs = []"
  by (metis length_0_conv length_sort)

lemma case_hd: "(case xs of [] \<Rightarrow> False | chosen # _ \<Rightarrow> chosen = p) \<longleftrightarrow> xs \<noteq> [] \<and> hd xs = p"
  by (cases xs) simp_all

lemma should_execute_iff:
  "should_execute p spec g \<longleftrightarrow> p \<noteq> js_submitter spec \<and> (\<forall>q \<in> candidates spec g. p \<le> q)"
proof -
  define l where "l = filter (\<lambda>p. p \<noteq> js_submitter spec) (map id_peer_id (ready_peers_for_service g (js_service spec)))"
  define e where "e = (if p \<notin> set l \<and> p \<noteq> js_submitter spec then l @ [p] else l)"
  have l: "set l = candidates spec g" by (auto simp: l_def candidates_def)
  have exec: "should_execute p spec g \<longleftrightarrow> e \<noteq> [] \<and> hd (sort_key peer_bytes e) = p"
    unfolding should_execute_def Let_def case_hd sort_key_eq_Nil by (simp only: l_def e_def)
  show ?thesis
  proof (cases "p = js_submitter spec")
    case True
    then have "p \<notin> set e" by (simp add: e_def l_def)
    moreover have "hd (sort_key peer_bytes e) \<in> set e" if "e \<noteq> []"
      using that hd_in_set [of "sort_key peer_bytes e"] by simp
    ultimately show ?thesis using exec True by auto
  next
    case False
    then have p: "p \<in> set e" and e: "set e = insert p (candidates spec g)" using l by (auto simp: e_def)
    then have "e \<noteq> []" by auto
    then show ?thesis
      using exec False e hd_sort_key_least [OF p inj_peer_bytes] by (simp add: less_eq_peer_id_def)
  qed
qed

text \<open>
  C8. Executor election is exact and agreed: a node runs a task exactly when it is not the submitter
  and its id is at most every advertised, ready provider's id (the submitter aside). So as soon as
  one such provider is advertised, exactly one of them elects itself, on every node with the same
  view of the registry, and it is the least.
\<close>

theorem executor_election_exact:
  assumes "candidates spec g \<noteq> {}"
  shows "(should_execute p spec g \<longleftrightarrow> p \<noteq> js_submitter spec \<and> (\<forall>q \<in> candidates spec g. p \<le> q)) \<and>
    {q \<in> candidates spec g. should_execute q spec g} = {Min (candidates spec g)}"
proof -
  have fin: "finite (candidates spec g)" by (simp add: candidates_def)
  have sub: "js_submitter spec \<notin> candidates spec g" by (simp add: candidates_def)
  have "Min (candidates spec g) \<in> candidates spec g" using fin assms by (rule Min_in)
  moreover have "\<forall>q \<in> candidates spec g. Min (candidates spec g) \<le> q" using fin by simp
  ultimately show ?thesis using sub by (auto simp: should_execute_iff intro: antisym)
qed

definition demo_task :: job_spec where
  "demo_task = \<lparr>js_wire_version = 1, js_kind = JobInference, js_inputs = inference_prompt ''hi'' 3,
     js_service = SvcRelay, js_sensitive = False, js_submitted_at = 5, js_submitter = PeerId [9], js_signature = []\<rparr>"

lemma demo_candidates: "candidates demo_task demo_registry = {PeerId [1], PeerId [2]}"
  by (auto simp: candidates_def ready_peers_for_service_def demo_registry_maps pair_identities_def demo_ad_def
      demo_identity_def demo_task_def is_eligible_def List.map_filter_simps sort_desc_def)

theorem executor_election_exact_witness:
  "should_execute (PeerId [1]) demo_task demo_registry \<and> \<not> should_execute (PeerId [2]) demo_task demo_registry"
proof -
  have "PeerId [1] \<le> PeerId [2]" "\<not> PeerId [2] \<le> PeerId [1]" by (simp_all add: less_eq_peer_id_def)
  moreover have "js_submitter demo_task = PeerId [9]" by (simp add: demo_task_def)
  ultimately show ?thesis
    using executor_election_exact [of demo_task demo_registry "PeerId [1]"]
      executor_election_exact [of demo_task demo_registry "PeerId [2]"]
    by (simp add: demo_candidates)
qed

end
