(* ===== verification/Node.thy ===== *)
theory Node
  imports Miner
begin

text \<open>
  The periodic work, the state-sync protocol and the event loop of the miner node
  (\<open>server/miner/src/main.rs\<close>): the finalisation tick with its reputation rewards, the anti-entropy
  request, response and its application, the replay of buffered messages, and one step of the
  \<open>tokio::select!\<close> loop of \<open>cmd_start\<close>. The connected peers, the listen addresses and the result of
  a publication are what the swarm reports with an event.
\<close>

section \<open>Finalisation\<close>

definition apply_and_gossip_reputation ::
    "('b, 'q) env \<Rightarrow> peer_id \<Rightarrow> i32 \<Rightarrow> string \<Rightarrow> chash option \<Rightarrow> ('b, 'q) node \<times> outbox \<Rightarrow> ('b, 'q) node \<times> outbox" where
  "apply_and_gossip_reputation E subject delta reason related_hash = (\<lambda>(nd, out).
     (let P = ev_prims E in
      case apply_reputation_delta (now_unix (ev_now E)) (nd_shared nd) subject delta reason related_hash of
        Inl _ \<Rightarrow> (nd, out)
      | Inr st \<Rightarrow>
        (let signed = sign_delta P (delta_unsigned (DeltaReputation subject delta reason related_hash)
               (nd_local_peer_id nd) (unix_now (ev_now E))) (nd_signing_key nd)
         in (nd\<lparr>nd_shared := st\<rparr>, out @ [Publish TopicStateDeltas (delta_encode_cbor P signed)]))))"

definition is_valid_verdict :: "outcome_verdict \<Rightarrow> bool" where
  "is_valid_verdict v = (case v of Valid _ _ _ _ \<Rightarrow> True | _ \<Rightarrow> False)"

definition agreed_verifiers :: "job_verification list \<Rightarrow> peer_id list" where
  "agreed_verifiers vs = map jv_verifier (filter (\<lambda>v. jv_verdict v = Agreed) vs)"

text \<open>The body of the loop over the finalised quorums: persist, gossip, reward.\<close>

definition settle_outcome ::
    "('b, 'q) env \<Rightarrow> chash \<times> finalised_quorum \<Rightarrow> ('b, 'q) node \<times> outbox \<Rightarrow> ('b, 'q) node \<times> outbox" where
  "settle_outcome E = (\<lambda>(result_hash, finalised) (nd, out).
     (let P = ev_prims E; outcome = fq_outcome finalised;
          nd = (case record_outcome P (now_unix (ev_now E)) (nd_shared nd) outcome of
            Inl _ \<Rightarrow> nd | Inr st \<Rightarrow> nd\<lparr>nd_shared := st\<rparr>);
          signed = sign_delta P (delta_unsigned (DeltaOutcome outcome) (nd_local_peer_id nd)
            (unix_now (ev_now E))) (nd_signing_key nd);
          out = out @ [Publish TopicStateDeltas (delta_encode_cbor P signed)]
      in if is_valid_verdict (jo_verdict outcome)
         then (case verifications_for_result P (nd_shared nd) result_hash of
             Inl _ \<Rightarrow> (nd, out)
           | Inr results \<Rightarrow>
             fold (\<lambda>v. apply_and_gossip_reputation E v 5 ''verifier_agreed'' (Some (outcome_content_hash P outcome)))
               (agreed_verifiers results) (nd, out))
         else (nd, out)))"

definition finalise_entry :: "('b, 'q) env \<Rightarrow> ('b, 'q) node \<Rightarrow> open_quorum \<Rightarrow> finalised_quorum option" where
  "finalise_entry E nd oq =
     (if oq_finalised oq then None
      else try_finalise (ev_prims E) (oq_quorum oq) (ev_now E) (unix_now (ev_now E)) (nd_local_peer_id nd)
        (nd_signing_key nd))"

definition finalised_results :: "('b, 'q) env \<Rightarrow> ('b, 'q) node \<Rightarrow> (chash \<times> finalised_quorum) list" where
  "finalised_results E nd =
     List.map_filter (\<lambda>(h, oq). map_option (Pair h) (finalise_entry E nd oq))
       (lru_iter (ev_quorums E) (nd_quorums nd))"

definition mark_finalised :: "('b, 'q) env \<Rightarrow> ('b, 'q) node \<Rightarrow> 'q" where
  "mark_finalised E nd =
     fold (\<lambda>(h, oq) c. if finalise_entry E nd oq = None then c
         else lru_write (ev_quorums E) h (oq\<lparr>oq_finalised := True\<rparr>) c)
       (lru_iter (ev_quorums E) (nd_quorums nd)) (nd_quorums nd)"

definition drop_finalised :: "'q quorum_ops \<Rightarrow> 'q \<Rightarrow> 'q" where
  "drop_finalised LQ c = fold (lru_pop LQ) (map fst (filter (\<lambda>e. oq_finalised (snd e)) (lru_iter LQ c))) c"

definition run_finalise_tick :: "('b, 'q) env \<Rightarrow> ('b, 'q) node \<Rightarrow> ('b, 'q) node \<times> outbox" where
  "run_finalise_tick E nd =
     (let results = finalised_results E nd;
          nd' = nd\<lparr>nd_quorums := drop_finalised (ev_quorums E) (mark_finalised E nd),
            nd_readiness := (task_finished ^^ length results) (nd_readiness nd)\<rparr>
      in fold (settle_outcome E) results (nd', []))"

section \<open>State sync\<close>

definition STATE_SYNC_MAX_PARTITION_WINDOW_SECS :: u64 where
  "STATE_SYNC_MAX_PARTITION_WINDOW_SECS = 30 * 60"

definition STATE_SYNC_BACKSTOP_LOOKBACK_SECS :: u64 where
  "STATE_SYNC_BACKSTOP_LOOKBACK_SECS = 10 * 60"

definition band_rank :: "reputation_band \<Rightarrow> nat" where
  "band_rank b = (case b of Trusted \<Rightarrow> 4 | Established \<Rightarrow> 3 | Probationary \<Rightarrow> 2 | New \<Rightarrow> 1 | Slashed \<Rightarrow> 0)"

definition peer_band :: "store \<Rightarrow> peer_id \<Rightarrow> reputation_band" where
  "peer_band st p = from_score (case reputation_of st p of Inl _ \<Rightarrow> 0 | Inr r \<Rightarrow> r)"

definition effective_since :: "prims \<Rightarrow> store \<Rightarrow> u64 \<Rightarrow> u64" where
  "effective_since P st since =
     (case outcomes_since P st 0 1 of
        Inl _ \<Rightarrow> since
      | Inr [] \<Rightarrow> 0
      | Inr (newest # _) \<Rightarrow> min since (jo_finalised_at newest))"

definition issue_state_sync_request ::
    "('b, 'q) env \<Rightarrow> peer_id list \<Rightarrow> ('b, 'q) node \<Rightarrow> u64 \<Rightarrow> outbox" where
  "issue_state_sync_request E peers nd since =
     (case max_by_key (\<lambda>p. band_rank (peer_band (nd_shared nd) p)) peers of
        None \<Rightarrow> []
      | Some chosen \<Rightarrow> [SendRequest chosen
          (request_new_signed (ev_prims E) (effective_since (ev_prims E) (nd_shared nd) since)
            STATE_SYNC_HARD_CEILING (nd_local_peer_id nd) (unix_now (ev_now E)) (nd_signing_key nd))])"

definition signed_response :: "('b, 'q) env \<Rightarrow> ('b, 'q) node \<Rightarrow> job_outcome list \<Rightarrow> bool \<Rightarrow> state_sync_response" where
  "signed_response E nd outcomes truncated =
     response_new_signed (ev_prims E) outcomes truncated (nd_local_peer_id nd) (unix_now (ev_now E)) (nd_signing_key nd)"

definition build_state_sync_response ::
    "('b, 'q) env \<Rightarrow> ('b, 'q) node \<Rightarrow> state_sync_request \<Rightarrow> ('b, 'q) node \<times> state_sync_response" where
  "build_state_sync_response E nd request =
     (let P = ev_prims E; empty = signed_response E nd [] False in
      case verifying_key (nd_registry nd) (rq_requester request) of
        None \<Rightarrow> (nd, empty)
      | Some requester_key \<Rightarrow>
        (case request_verify_signature P request requester_key of
           Inl _ \<Rightarrow> (nd, empty)
         | Inr _ \<Rightarrow>
           (let (bucket, over_cap) = record_with_cap (bucket_of (nd_state_sync_rate_limit nd) (rq_requester request))
                  (unix_now (ev_now E)) STATE_SYNC_MAX_REQUESTS_PER_WINDOW;
                nd = nd\<lparr>nd_state_sync_rate_limit :=
                  AList.update (rq_requester request) bucket (nd_state_sync_rate_limit nd)\<rparr>;
                limit = min (rq_max_outcomes request) STATE_SYNC_HARD_CEILING
            in if over_cap then (nd, empty)
               else if limit = 0 then (nd, empty)
               else (case outcomes_since P (nd_shared nd) (rq_since_unix request) (ucast limit + 1) of
                  Inl _ \<Rightarrow> (nd, empty)
                | Inr outcomes \<Rightarrow>
                  (let truncated = unat limit < length outcomes
                   in (nd, signed_response E nd (if truncated then take (unat limit) outcomes else outcomes) truncated))))))"

definition apply_synced :: "('b, 'q) env \<Rightarrow> job_outcome \<Rightarrow> ('b, 'q) node \<Rightarrow> ('b, 'q) node" where
  "apply_synced E outcome nd =
     (let P = ev_prims E in
      case verifying_key (nd_registry nd) (jo_observed_by outcome) of
        None \<Rightarrow> nd
      | Some observer_key \<Rightarrow>
        (case outcome_verify_signature P outcome observer_key of
           Inl _ \<Rightarrow> nd
         | Inr _ \<Rightarrow>
           (case record_synced_outcome P (now_unix (ev_now E)) (nd_shared nd) outcome of
              Inl _ \<Rightarrow> nd
            | Inr st \<Rightarrow> nd\<lparr>nd_shared := st\<rparr>)))"

definition apply_state_sync_response :: "('b, 'q) env \<Rightarrow> ('b, 'q) node \<Rightarrow> state_sync_response \<Rightarrow> ('b, 'q) node" where
  "apply_state_sync_response E nd response =
     (let P = ev_prims E;
          bad_envelope = (case verifying_key (nd_registry nd) (rs_responder response) of
              None \<Rightarrow> False
            | Some rk \<Rightarrow> response_verify_signature P response rk \<noteq> Inr ())
      in if bad_envelope then nd else fold (apply_synced E) (rs_outcomes response) nd)"

section \<open>Buffered messages\<close>

definition replay_message ::
    "('b, 'q) env \<Rightarrow> pending_message \<Rightarrow> ('b, 'q) node \<times> outbox \<Rightarrow> ('b, 'q) node \<times> outbox" where
  "replay_message E pending = (\<lambda>(nd, out).
     (case pm_tag pending of
        None \<Rightarrow> (let (nd', out') = handle_tasks_message E nd (pm_payload pending) in (nd', out @ out'))
      | Some _ \<Rightarrow> (handle_verify_message E nd (pm_payload pending), out)))"

definition drain_verify_buffer :: "('b, 'q) env \<Rightarrow> ('b, 'q) node \<Rightarrow> ('b, 'q) node \<times> outbox" where
  "drain_verify_buffer E nd =
     (let (b, ready, expired) = drain_ready (ev_counts E) (nd_verify_buffer nd) (ev_instant E)
            (\<lambda>p. verifying_key (nd_registry nd) p \<noteq> None)
      in fold (replay_message E) ready (nd\<lparr>nd_verify_buffer := b\<rparr>, []))"

section \<open>The event loop\<close>

text \<open>A state delta on the wire is decoded and logged; the node does not apply it.\<close>

definition handle_state_delta_message :: "prims \<Rightarrow> store \<Rightarrow> bytes \<Rightarrow> store" where
  "handle_state_delta_message P shared payload =
     (case delta_decode_cbor P payload of None \<Rightarrow> shared | Some delta \<Rightarrow> shared)"

datatype swarm_event =
    ConnectionEstablished "peer_id list"
  | ConnectionClosed
  | GossipMessage topic "peer_id option" bytes
  | StateSyncRequestIn state_sync_request
  | StateSyncResponseIn state_sync_response
  | OtherSwarmEvent

fun handle_swarm_event :: "('b, 'q) env \<Rightarrow> ('b, 'q) node \<Rightarrow> swarm_event \<Rightarrow> ('b, 'q) node \<times> outbox" where
  "handle_swarm_event E nd (ConnectionEstablished peers) =
     (let now = unix_now (ev_now E);
          nd = nd\<lparr>nd_readiness := mark_listening (nd_readiness nd)\<rparr>;
          (iso, isolation_gap) = on_connection_established (nd_isolation nd) now;
          nd = nd\<lparr>nd_isolation := iso\<rparr>
      in case isolation_gap of
           None \<Rightarrow> (nd, [])
         | Some gap \<Rightarrow>
           (nd, issue_state_sync_request E peers nd (saturating_sub now STATE_SYNC_MAX_PARTITION_WINDOW_SECS)))"
| "handle_swarm_event E nd ConnectionClosed =
     (nd\<lparr>nd_isolation := on_connection_closed (nd_isolation nd) (unix_now (ev_now E))\<rparr>, [])"
| "handle_swarm_event E nd (GossipMessage topic source payload) =
     (case topic of
        TopicCaps \<Rightarrow> (handle_caps_message E nd payload source, [])
      | TopicTasks \<Rightarrow> handle_tasks_message E nd payload
      | TopicVerify \<Rightarrow> (handle_verify_message E nd payload, [])
      | TopicStateDeltas \<Rightarrow>
        (nd\<lparr>nd_shared := handle_state_delta_message (ev_prims E) (nd_shared nd) payload\<rparr>, []))"
| "handle_swarm_event E nd (StateSyncRequestIn request) =
     (let (nd', response) = build_state_sync_response E nd request in (nd', [SendResponse response]))"
| "handle_swarm_event E nd (StateSyncResponseIn response) = (apply_state_sync_response E nd response, [])"
| "handle_swarm_event E nd OtherSwarmEvent = (nd, [])"

text \<open>The branches of \<open>select!\<close> and the pruning task spawned beside the loop.\<close>

datatype node_event =
    CtrlC
  | CapsTick node_capabilities "multiaddr list" bool
  | FinaliseTick
  | BufferTick
  | BackstopTick "peer_id list"
  | PruneTick
  | SwarmEvent swarm_event

fun node_event_step :: "('b, 'q) env \<Rightarrow> ('b, 'q) node \<Rightarrow> node_event \<Rightarrow> ('b, 'q) node \<times> outbox" where
  "node_event_step E nd CtrlC = (nd\<lparr>nd_readiness := mark_stopped (nd_readiness nd)\<rparr>, [])"
| "node_event_step E nd (CapsTick caps listeners published) = publish_caps_v0_2 E caps listeners published nd"
| "node_event_step E nd FinaliseTick = run_finalise_tick E nd"
| "node_event_step E nd BufferTick = drain_verify_buffer E nd"
| "node_event_step E nd (BackstopTick peers) =
     (nd, issue_state_sync_request E peers nd (saturating_sub (unix_now (ev_now E)) STATE_SYNC_BACKSTOP_LOOKBACK_SECS))"
| "node_event_step E nd PruneTick =
     (nd\<lparr>nd_registry := fst (prune_expired (nd_registry nd) (unix_now (ev_now E)))\<rparr>, [])"
| "node_event_step E nd (SwarmEvent e) = handle_swarm_event E nd e"

text \<open>What \<open>cmd_start\<close> sets up before the loop: the tracker is connected, the directory holds the node itself.\<close>

definition cmd_start :: "('b, 'q) env \<Rightarrow> peer_id \<Rightarrow> bytes \<Rightarrow> multiaddr list \<Rightarrow> store \<Rightarrow> ('b, 'q) node" where
  "cmd_start E local_peer_id signing_key listeners shared =
     (let nd = (node_new E local_peer_id signing_key)\<lparr>nd_shared := shared\<rparr>;
          readiness = mark_connected (nd_readiness nd);
          now = unix_now (ev_now E)
      in nd\<lparr>nd_readiness := readiness,
           nd_registry := record_identity (nd_registry nd)
             \<lparr>id_peer_id = local_peer_id, id_verifying_key = ed_public (ev_prims E) signing_key,
              id_reachable_addrs = listeners, id_first_seen = now, id_last_seen = now, id_readiness = tk_state readiness\<rparr>\<rparr>)"

text \<open>An event with its clock readings, and the node after it.\<close>

definition node_step :: "('b, 'q) env \<Rightarrow> ('b, 'q) node \<Rightarrow> system_time \<times> instant \<times> node_event \<Rightarrow> ('b, 'q) node" where
  "node_step E nd = (\<lambda>(now, inst, e). fst (node_event_step (E\<lparr>ev_now := now, ev_instant := inst\<rparr>) nd e))"

end
