(* ===== verification/Sync_Properties.thy ===== *)
theory Sync_Properties
  imports Node Store_Properties Registry_Properties
begin

text \<open>
  The state-sync protocol end to end: what a responder discloses and to whom, what a requester
  persists of a response, and that a request, its response and the application of the response
  bring the requester everything the responder has and the requester can authenticate.
\<close>

section \<open>The responder\<close>

definition sync_matches :: "prims \<Rightarrow> store \<Rightarrow> u64 \<Rightarrow> job_outcome set" where
  "sync_matches P st since = {x. recorded P st x \<and> as_i64 since \<le> as_i64 (jo_finalised_at x)}"

definition sync_limit :: "state_sync_request \<Rightarrow> nat" where
  "sync_limit rq = min (unat (rq_max_outcomes rq)) 500"

definition over_cap :: "('b, 'q) env \<Rightarrow> ('b, 'q) node \<Rightarrow> state_sync_request \<Rightarrow> bool" where
  "over_cap E nd rq = snd (record_with_cap (bucket_of (nd_state_sync_rate_limit nd) (rq_requester rq))
     (unix_now (ev_now E)) STATE_SYNC_MAX_REQUESTS_PER_WINDOW)"

definition sync_authorised :: "('b, 'q) env \<Rightarrow> ('b, 'q) node \<Rightarrow> state_sync_request \<Rightarrow> bool" where
  "sync_authorised E nd rq \<longleftrightarrow>
     (\<exists>k. verifying_key (nd_registry nd) (rq_requester rq) = Some k \<and>
        request_verify_signature (ev_prims E) rq k = Inr ()) \<and> \<not> over_cap E nd rq"

lemma unat_min: "unat (min a b) = min (unat a) (unat b)"
  by (simp add: min_def word_le_nat_alt)

lemma unat_ucast_Suc: "unat (ucast (w :: u32) + 1 :: u64) = unat w + 1"
proof -
  have "unat w < 2 ^ 32" using unsigned_less [of w, where ?'a = nat] by simp
  then have "unat (ucast w :: u64) = unat w" by (simp add: unsigned_ucast_eq take_bit_nat_eq_self)
  then show ?thesis using \<open>unat w < 2 ^ 32\<close> by (simp add: unat_word_ariths)
qed

lemma sync_limit_word: "unat (min (rq_max_outcomes rq) STATE_SYNC_HARD_CEILING) = sync_limit rq"
  by (simp add: sync_limit_def unat_min STATE_SYNC_HARD_CEILING_def)

lemma build_sync_cases:
  assumes "build_state_sync_response E nd rq = (nd', r)"
  shows "nd' = nd\<lparr>nd_state_sync_rate_limit := nd_state_sync_rate_limit nd'\<rparr> \<and>
    (r = signed_response E nd [] False \<and> (\<not> sync_authorised E nd rq \<or> sync_limit rq = 0 \<or>
        (\<exists>e. outcomes_since (ev_prims E) (nd_shared nd) (rq_since_unix rq)
          (ucast (min (rq_max_outcomes rq) STATE_SYNC_HARD_CEILING) + 1) = Inl e)) \<or>
     sync_authorised E nd rq \<and> 0 < sync_limit rq \<and> (\<exists>xs. outcomes_since (ev_prims E) (nd_shared nd) (rq_since_unix rq)
          (ucast (min (rq_max_outcomes rq) STATE_SYNC_HARD_CEILING) + 1) = Inr xs \<and>
        r = signed_response E nd (take (sync_limit rq) xs) (sync_limit rq < length xs)))"
proof -
  have zero: "min (rq_max_outcomes rq) STATE_SYNC_HARD_CEILING = 0 \<longleftrightarrow> sync_limit rq = 0"
    unfolding sync_limit_word [symmetric] by (simp add: unat_eq_zero)
  show ?thesis
    using assms
    by (auto simp: build_state_sync_response_def sync_authorised_def over_cap_def Let_def zero sync_limit_word
        signed_response_def case_prod_unfold split: option.splits sum.splits if_splits)
qed

lemma matches_finite: "cbor_ok P \<Longrightarrow> store_inv P st \<Longrightarrow> finite (sync_matches P st since)"
  by (rule finite_subset [of _ "row_outcome P ` set (st_outcomes st)"]) (auto simp: sync_matches_def recorded_image)

lemma response_exact:
  assumes "cbor_ok (ev_prims E)" and "ed25519_ok (ev_prims E)" and "store_inv (ev_prims E) (nd_shared nd)"
    and "build_state_sync_response E nd rq = (nd', r)"
  defines "M \<equiv> sync_matches (ev_prims E) (nd_shared nd) (rq_since_unix rq)"
  shows "response_verify_signature (ev_prims E) r (ed_public (ev_prims E) (nd_signing_key nd)) = Inr () \<and>
    distinct (rs_outcomes r) \<and> set (rs_outcomes r) \<subseteq> M \<and>
    length (rs_outcomes r) = (if sync_authorised E nd rq then min (sync_limit rq) (card M) else 0) \<and>
    (rs_truncated r \<longleftrightarrow> sync_authorised E nd rq \<and> 0 < sync_limit rq \<and> sync_limit rq < card M) \<and>
    (\<forall>x \<in> M - set (rs_outcomes r). \<forall>y \<in> set (rs_outcomes r).
       as_i64 (jo_finalised_at x) \<le> as_i64 (jo_finalised_at y)) \<and>
    nd_shared nd' = nd_shared nd \<and> nd_registry nd' = nd_registry nd"
proof -
  let ?P = "ev_prims E" let ?n = "sync_limit rq"
  let ?w = "ucast (min (rq_max_outcomes rq) STATE_SYNC_HARD_CEILING) + 1 :: u64"
  have w: "unat ?w = ?n + 1" by (simp only: unat_ucast_Suc sync_limit_word)
  then have "unat ?w < 2 ^ 63" by (simp add: sync_limit_def)
  from outcomes_since_spec [OF assms(1,3) this, of "rq_since_unix rq"]
  obtain xs where xs: "outcomes_since ?P (nd_shared nd) (rq_since_unix rq) ?w = Inr xs" "distinct xs"
      "sorted (map (\<lambda>x. - as_i64 (jo_finalised_at x)) xs)" "set xs \<subseteq> M" "length xs = min (?n + 1) (card M)"
    and rest: "\<And>x y. x \<in> M \<Longrightarrow> x \<notin> set xs \<Longrightarrow> y \<in> set xs \<Longrightarrow> as_i64 (jo_finalised_at x) \<le> as_i64 (jo_finalised_at y)"
    unfolding M_def sync_matches_def w by (elim exE conjE) auto
  have sub: "set (take ?n xs) \<subseteq> set xs" by (rule set_take_subset)
  have newer: "as_i64 (jo_finalised_at x) \<le> as_i64 (jo_finalised_at y)"
    if "x \<in> M" "x \<notin> set (take ?n xs)" "y \<in> set (take ?n xs)" for x y
    using sorted_take_le [OF xs(3), of x ?n y] rest [of x y] that sub by (cases "x \<in> set xs") auto
  have signed: "response_verify_signature ?P (signed_response E nd ys t) (ed_public ?P (nd_signing_key nd)) = Inr ()" for ys t
    unfolding signed_response_def by (rule response_new_signed_verifies [OF assms(2)])
  note cases = build_sync_cases [OF assms(4)]
  have frame: "nd_shared nd' = nd_shared nd \<and> nd_registry nd' = nd_registry nd"
    using cases by (metis node.select_convs(1,2) node.surjective node.update_convs(5))
  show ?thesis
  proof (cases "sync_authorised E nd rq \<and> 0 < ?n")
    case True
    then have r: "r = signed_response E nd (take ?n xs) (?n < length xs)" using cases xs(1) by auto
    have "rs_outcomes r = take ?n xs" "rs_truncated r \<longleftrightarrow> ?n < card M"
      using xs(5) by (auto simp: r signed_response_def)
    then show ?thesis using True signed newer frame sub xs(2,4,5) r by auto
  next
    case False
    then have "r = signed_response E nd [] False" using cases xs(1) by auto
    then show ?thesis using False signed frame by (auto simp: signed_response_def)
  qed
qed

lemma response_responder:
  "build_state_sync_response E nd rq = (nd', r) \<Longrightarrow> rs_responder r = nd_local_peer_id nd"
  by (drule build_sync_cases) (auto simp: signed_response_def)

lemma response_facts:
  assumes "cbor_ok (ev_prims E)" and "ed25519_ok (ev_prims E)" and "store_inv (ev_prims E) (nd_shared nd)"
    and "build_state_sync_response E nd rq = (nd', r)"
  shows "response_verify_signature (ev_prims E) r (ed_public (ev_prims E) (nd_signing_key nd)) = Inr ()"
    and "distinct (rs_outcomes r)"
    and "set (rs_outcomes r) \<subseteq> sync_matches (ev_prims E) (nd_shared nd) (rq_since_unix rq)"
    and "length (rs_outcomes r) = (if sync_authorised E nd rq
       then min (sync_limit rq) (card (sync_matches (ev_prims E) (nd_shared nd) (rq_since_unix rq))) else 0)"
    and "rs_responder r = nd_local_peer_id nd"
  using response_exact [OF assms] response_responder [OF assms(4)] by auto


section \<open>The requester\<close>

definition acceptable :: "prims \<Rightarrow> registry \<Rightarrow> job_outcome \<Rightarrow> bool" where
  "acceptable P g x \<longleftrightarrow> (\<exists>k. verifying_key g (jo_observed_by x) = Some k \<and> outcome_verify_signature P x k = Inr ())"

definition envelope_ok :: "prims \<Rightarrow> registry \<Rightarrow> state_sync_response \<Rightarrow> bool" where
  "envelope_ok P g r \<longleftrightarrow> (\<forall>k. verifying_key g (rs_responder r) = Some k \<longrightarrow> response_verify_signature P r k = Inr ())"

lemma apply_synced_eq:
  "apply_synced E x nd = (if acceptable (ev_prims E) (nd_registry nd) x
     then nd\<lparr>nd_shared := store_step (ev_prims E) (nd_shared nd) (now_unix (ev_now E), OpSynced x)\<rparr> else nd)"
  by (auto simp: apply_synced_def acceptable_def store_step_def Let_def split: option.splits sum.splits)

lemma fold_apply_synced:
  "fold (apply_synced E) xs nd = nd\<lparr>nd_shared := run_steps (store_step (ev_prims E)) (nd_shared nd)
     (map (\<lambda>x. (now_unix (ev_now E), OpSynced x)) (filter (acceptable (ev_prims E) (nd_registry nd)) xs))\<rparr>"
  by (induction xs arbitrary: nd) (simp_all add: apply_synced_eq)

lemma apply_response_eq:
  "apply_state_sync_response E nd r = nd\<lparr>nd_shared := run_steps (store_step (ev_prims E)) (nd_shared nd)
     (if envelope_ok (ev_prims E) (nd_registry nd) r
      then map (\<lambda>x. (now_unix (ev_now E), OpSynced x))
        (filter (acceptable (ev_prims E) (nd_registry nd)) (rs_outcomes r)) else [])\<rparr>"
  by (auto simp: apply_state_sync_response_def envelope_ok_def fold_apply_synced Let_def split: option.splits)

lemma synced_step_recorded:
  fixes now :: int
  assumes "cbor_ok P" and "store_inv P st" and "wf_outcome x"
  defines "st' \<equiv> store_step P st (now, OpSynced x)"
  shows "store_inv P st'" and "{y. recorded P st y} \<subseteq> {y. recorded P st' y}"
    and "{y. recorded P st' y} \<subseteq> insert x {y. recorded P st y}" and "recorded P st' x \<or> displaced P st' x"
proof -
  obtain s where s: "record_synced_outcome P now st x = Inr s" "store_inv P s"
      "{y. recorded P st y} \<subseteq> {y. recorded P s y}" "recorded P s x \<or> displaced P s x"
    using synced_recorded [OF assms(1-3), of now] by blast
  then have st': "st' = s" by (simp add: st'_def store_step_def)
  obtain ok where "insert_or_ignore or_outcome_hash ok (outcome_row_of P now x) (st_outcomes st) = Inr (st_outcomes s)"
    using s(1) by (auto simp: record_synced_outcome_def Let_def bind_result_eq_Inr)
  from insert_grows [OF this] show "{y. recorded P st' y} \<subseteq> insert x {y. recorded P st y}"
    using outcome_row_decodes [OF assms(1,3), of now] unfolding st' recorded_def by auto
  show "store_inv P st'" "{y. recorded P st y} \<subseteq> {y. recorded P st' y}" "recorded P st' x \<or> displaced P st' x"
    using s st' by simp_all
qed

lemma synced_run_recorded:
  fixes now :: int
  assumes "cbor_ok P" and "store_inv P st" and "\<forall>x \<in> set xs. wf_outcome x"
  defines "st' \<equiv> run_steps (store_step P) st (map (\<lambda>x. (now, OpSynced x)) xs)"
  shows "store_inv P st' \<and> {y. recorded P st y} \<subseteq> {y. recorded P st' y} \<and>
    {y. recorded P st' y} \<subseteq> set xs \<union> {y. recorded P st y} \<and> set xs \<subseteq> {y. recorded P st' y \<or> displaced P st' y}"
  using assms(2,3) unfolding st'_def
proof (induction xs arbitrary: st)
  case (Cons x xs)
  note step = synced_step_recorded [OF assms(1) Cons.prems(1), of x now]
  have "wf_outcome x" using Cons.prems(2) by simp
  note step = step [OF this]
  from Cons.IH [OF step(1)] Cons.prems(2) step(2-4) show ?case by (simp add: subset_iff displaced_def) blast
qed simp

lemma response_applied:
  assumes "cbor_ok (ev_prims E)" and "store_inv (ev_prims E) (nd_shared nd)" and "wf_response r"
  defines "A \<equiv> {x \<in> set (rs_outcomes r). acceptable (ev_prims E) (nd_registry nd) x}"
    and "R \<equiv> {x. recorded (ev_prims E) (nd_shared nd) x}"
    and "R' \<equiv> {x. recorded (ev_prims E) (nd_shared (apply_state_sync_response E nd r)) x}"
  shows "R' \<subseteq> R \<union> A \<and> R \<subseteq> R' \<and> store_inv (ev_prims E) (nd_shared (apply_state_sync_response E nd r)) \<and>
    (envelope_ok (ev_prims E) (nd_registry nd) r \<longrightarrow> 
       A \<subseteq> R' \<union> {x. displaced (ev_prims E) (nd_shared (apply_state_sync_response E nd r)) x})"
proof -
  let ?xs = "filter (acceptable (ev_prims E) (nd_registry nd)) (rs_outcomes r)"
  have "\<forall>x \<in> set ?xs. wf_outcome x" using assms(3) by (simp add: wf_response_def)
  note run = synced_run_recorded [OF assms(1,2) this, of "now_unix (ev_now E)"]
  have A: "set ?xs = A" by (auto simp: A_def)
  show ?thesis
  proof (cases "envelope_ok (ev_prims E) (nd_registry nd) r")
    case True
    with run show ?thesis unfolding R_def R'_def apply_response_eq A by auto
  next
    case False
    with assms(2) show ?thesis unfolding R_def R'_def apply_response_eq by auto
  qed
qed

lemma hash_free_recorded:
  assumes "R' \<subseteq> R \<union> A" and "x \<in> A" and "inj_on (outcome_content_hash P) (R \<union> A)" and "R' = {y. recorded P st y}"
  shows "\<not> displaced P st x"
  using assms by (auto simp: displaced_def inj_on_def)

lemma response_applied_exact:
  assumes "cbor_ok (ev_prims E)" and "store_inv (ev_prims E) (nd_shared nd)" and "wf_response r"
  defines "A \<equiv> {x \<in> set (rs_outcomes r). acceptable (ev_prims E) (nd_registry nd) x}"
    and "R \<equiv> {x. recorded (ev_prims E) (nd_shared nd) x}"
  assumes "inj_on (outcome_content_hash (ev_prims E)) (R \<union> A)"
  shows "{x. recorded (ev_prims E) (nd_shared (apply_state_sync_response E nd r)) x} =
    (if envelope_ok (ev_prims E) (nd_registry nd) r then R \<union> A else R)"
proof (cases "envelope_ok (ev_prims E) (nd_registry nd) r")
  case True
  note app = response_applied [OF assms(1-3), folded A_def R_def]
  then have "\<not> displaced (ev_prims E) (nd_shared (apply_state_sync_response E nd r)) x" if "x \<in> A" for x
    using hash_free_recorded [OF _ that assms(6) refl] by blast
  with app True show ?thesis by auto
qed (simp add: apply_response_eq R_def)

text \<open>
  C4. What a requester persists of a state-sync response, exactly, provided no two of the outcomes at
  hand share a content hash. If the directory has a key for the responder and the signature of the
  response fails under it, the node is unchanged. Otherwise (the signature verifies, or the directory
  has no key for the responder, in which case the envelope is not checked) the recorded outcomes
  become those recorded before together with those of the response that carry a valid signature of
  their observer under the key the directory has for that observer. The store's invariant is kept.
\<close>

theorem sync_apply_exact:
  assumes "cbor_ok (ev_prims E)" and "store_inv (ev_prims E) (nd_shared nd)" and "wf_response r"
  defines "A \<equiv> {x \<in> set (rs_outcomes r). \<exists>k. verifying_key (nd_registry nd) (jo_observed_by x) = Some k \<and>
      outcome_verify_signature (ev_prims E) x k = Inr ()}"
    and "R \<equiv> {x. recorded (ev_prims E) (nd_shared nd) x}"
    and "nd' \<equiv> apply_state_sync_response E nd r"
  assumes "inj_on (outcome_content_hash (ev_prims E)) (R \<union> A)"
  shows "(case verifying_key (nd_registry nd) (rs_responder r) of
       None \<Rightarrow> {x. recorded (ev_prims E) (nd_shared nd') x} = R \<union> A
     | Some k \<Rightarrow> if response_verify_signature (ev_prims E) r k = Inr ()
         then {x. recorded (ev_prims E) (nd_shared nd') x} = R \<union> A else nd' = nd) \<and>
    store_inv (ev_prims E) (nd_shared nd')"
proof -
  have A: "A = {x \<in> set (rs_outcomes r). acceptable (ev_prims E) (nd_registry nd) x}"
    by (simp add: A_def acceptable_def)
  note exact = response_applied_exact [OF assms(1-3), folded A R_def nd'_def, OF assms(7)]
  have same: "nd' = nd" if "\<not> envelope_ok (ev_prims E) (nd_registry nd) r"
    using that by (simp add: nd'_def apply_response_eq)
  show ?thesis
    using exact same response_applied [OF assms(1-3), folded nd'_def]
    by (auto simp: envelope_ok_def split: option.split)
qed

section \<open>Both sides together\<close>

lemma recorded_wf:
  assumes "cbor_ok P" and "store_inv P st" and "recorded P st x"
  shows "wf_outcome x"
proof -
  obtain r where r: "r \<in> set (st_outcomes st)" "from_cbor_bytes P rd_job_outcome (or_outcome_cbor r) = Some x"
    using assms(3) by (auto simp: recorded_def)
  then obtain y now where "wf_outcome y" "r = outcome_row_of P now y"
    using assms(2) unfolding store_inv_def outcomes_ok_def by blast
  with r(2) outcome_row_decodes [OF assms(1), of y now] show ?thesis by simp
qed

text \<open>
  C9. One round of state sync brings the requester everything it can authenticate. The conditions:
  the responder has the requester's key, the request verifies under it and is within the rate cap;
  the responder has no more outcomes since the cut-off than the requested number and 500 admit; the
  requester's directory has for the responder no key or its own; and no two outcomes of the two
  stores share a content hash. Then after the response is applied the requester's recorded outcomes
  are exactly those it had and those the responder had since the cut-off whose observer's signature
  verifies under the key the requester has for that observer.
\<close>

theorem state_sync_converges:
  assumes "ev_prims EB = ev_prims EA" and "cbor_ok (ev_prims EA)" and "ed25519_ok (ev_prims EA)"
    and "store_inv (ev_prims EA) (nd_shared A)" and "store_inv (ev_prims EA) (nd_shared B)"
    and "build_state_sync_response EA A rq = (A', r)" and "sync_authorised EA A rq"
    and "card (sync_matches (ev_prims EA) (nd_shared A) (rq_since_unix rq)) \<le> sync_limit rq"
    and "verifying_key (nd_registry B) (nd_local_peer_id A) \<in> {None, Some (ed_public (ev_prims EA) (nd_signing_key A))}"
    and "inj_on (outcome_content_hash (ev_prims EA))
      ({x. recorded (ev_prims EA) (nd_shared A) x} \<union> {x. recorded (ev_prims EA) (nd_shared B) x})"
  shows "{x. recorded (ev_prims EA) (nd_shared (apply_state_sync_response EB B r)) x} =
    {x. recorded (ev_prims EA) (nd_shared B) x} \<union>
    {x \<in> sync_matches (ev_prims EA) (nd_shared A) (rq_since_unix rq). acceptable (ev_prims EA) (nd_registry B) x}"
proof -
  let ?P = "ev_prims EA" let ?M = "sync_matches ?P (nd_shared A) (rq_since_unix rq)"
  note resp = response_facts [OF assms(2-4,6)]
  have M: "set (rs_outcomes r) = ?M"
    using resp(2-4) assms(7,8) matches_finite [OF assms(2,4)] by (intro card_subset_eq) (simp_all add: distinct_card)
  have env: "envelope_ok ?P (nd_registry B) r"
    using resp(1,5) assms(9) by (auto simp: envelope_ok_def)
  have wf: "wf_response r"
    using resp(3) recorded_wf [OF assms(2,4)] by (auto simp: wf_response_def sync_matches_def)
  have "inj_on (outcome_content_hash ?P) ({x. recorded ?P (nd_shared B) x} \<union>
      {x \<in> set (rs_outcomes r). acceptable ?P (nd_registry B) x})"
    by (rule inj_on_subset [OF assms(10)]) (auto simp: M sync_matches_def)
  from response_applied_exact [of EB B r, unfolded assms(1), OF assms(2,5) wf this] env M show ?thesis by simp
qed

section \<open>Two concrete nodes\<close>

type_synonym demo_cache_counts = "nat \<times> (peer_id \<times> nat) list"
type_synonym demo_cache_quorums = "nat \<times> (chash \<times> open_quorum) list"

definition demo_env :: "(demo_cache_counts, demo_cache_quorums) env" where
  "demo_env = \<lparr>ev_prims = demo_prims, ev_counts = list_lru, ev_quorums = list_lru, ev_json_caps = (\<lambda>_. None),
     ev_now = 50 * 10 ^ 9, ev_instant = 0\<rparr>"

definition demo_known :: "u8 \<Rightarrow> bytes \<Rightarrow> peer_identity" where
  "demo_known p k = \<lparr>id_peer_id = PeerId [p], id_verifying_key = k, id_reachable_addrs = [],
     id_first_seen = 4, id_last_seen = 4, id_readiness = Ready\<rparr>"

text \<open>Peer 1 observed the outcome, peer 2 responds, peer 3 asks.\<close>

definition demo_directory :: registry where
  "demo_directory = \<lparr>rg_ads = [], rg_identities = [(PeerId [1], demo_known 1 [7]), (PeerId [2], demo_known 2 [5]),
     (PeerId [3], demo_known 3 [8])]\<rparr>"

definition demo_node :: "u8 \<Rightarrow> bytes \<Rightarrow> store \<Rightarrow> (demo_cache_counts, demo_cache_quorums) node" where
  "demo_node p k st = (node_new demo_env (PeerId [p]) k)\<lparr>nd_registry := demo_directory, nd_shared := st\<rparr>"

definition demo_one :: store where
  "demo_one = store_step demo_prims empty_store (10, OpSynced (demo_outcome 5))"

definition demo_request :: state_sync_request where
  "demo_request = request_new_signed demo_prims 0 100 (PeerId [3]) 50 [8]"

lemma demo_one_inv: "store_inv demo_prims demo_one"
  unfolding demo_one_def
  by (rule store_ts.typed_step_inv [OF store_inv_empty]) (simp add: ok_event_def wf_demo_outcome)

lemma demo_one_rows: "st_outcomes demo_one = [outcome_row_of demo_prims 10 (demo_outcome 5)]"
  by (simp add: demo_one_def store_step_def record_synced_outcome_def Let_def insert_or_ignore_def empty_store_def)

lemma demo_matches: "sync_matches demo_prims demo_one 0 = {demo_outcome 5}"
  using outcome_row_decodes [OF demo_ok(3) wf_demo_outcome, of 10 5]
  by (auto simp: sync_matches_def recorded_def demo_one_rows demo_outcome_def as_i64_def)

lemma demo_node_simps [simp]:
  "ev_prims demo_env = demo_prims" "nd_shared (demo_node p k st) = st" "nd_registry (demo_node p k st) = demo_directory"
  "nd_signing_key (demo_node p k st) = k" "nd_local_peer_id (demo_node p k st) = PeerId [p]"
  "nd_state_sync_rate_limit (demo_node p k st) = []"
  by (simp_all add: demo_env_def demo_node_def node_new_def)

lemma demo_directory_keys:
  "verifying_key demo_directory (PeerId [1]) = Some [7]" "verifying_key demo_directory (PeerId [2]) = Some [5]"
  "verifying_key demo_directory (PeerId [3]) = Some [8]"
  by (simp_all add: verifying_key_def demo_directory_def demo_known_def)

lemma demo_public: "ed_public demo_prims k = k"
  by (simp add: demo_prims_def)

lemma demo_acceptable: "acceptable demo_prims demo_directory (demo_outcome t)"
proof -
  have "jo_observed_by (demo_outcome t) = PeerId [1]" by (simp add: demo_outcome_def)
  moreover have "outcome_verify_signature demo_prims (demo_outcome t) [7] = Inr ()"
    using outcome_new_signed_verifies [OF demo_ok(1)] unfolding demo_outcome_def demo_public by metis
  ultimately show ?thesis by (simp add: acceptable_def demo_directory_keys)
qed

lemma demo_request_fields:
  "rq_requester demo_request = PeerId [3]" "rq_since_unix demo_request = 0" "sync_limit demo_request = 100"
  by (simp_all add: demo_request_def request_new_signed_def Let_def sync_limit_def)

lemma demo_authorised: "sync_authorised demo_env (demo_node 2 [5] st) demo_request"
proof -
  have "request_verify_signature demo_prims demo_request [8] = Inr ()"
    using request_new_signed_verifies [OF demo_ok(1)] unfolding demo_request_def demo_public by metis
  moreover have "\<not> over_cap demo_env (demo_node 2 [5] st) demo_request"
    by (simp add: over_cap_def bucket_of_def bucket_default_def record_with_cap_def roll_window_def Let_def
        STATE_SYNC_MAX_REQUESTS_PER_WINDOW_def saturating_add_def)
  ultimately show ?thesis by (simp add: sync_authorised_def demo_request_fields demo_directory_keys)
qed


definition demo_response :: state_sync_response where
  "demo_response = response_new_signed demo_prims [demo_outcome 5] False (PeerId [2]) 50 [5]"

lemma demo_response_wf: "wf_response demo_response"
  by (simp add: wf_response_def demo_response_def wf_demo_outcome)

lemma demo_response_signed: "response_verify_signature demo_prims demo_response [5] = Inr ()"
  using response_new_signed_verifies [OF demo_ok(1)] unfolding demo_response_def demo_public by metis

lemma demo_none_recorded: "{x. recorded demo_prims empty_store x} = {}"
  by (simp add: recorded_def empty_store_def)

theorem sync_apply_exact_witness:
  "{x. recorded demo_prims (nd_shared (apply_state_sync_response demo_env (demo_node 3 [8] empty_store) demo_response)) x}
     = {demo_outcome 5}"
proof -
  have "{x \<in> set (rs_outcomes demo_response). \<exists>k. verifying_key demo_directory (jo_observed_by x) = Some k \<and>
      outcome_verify_signature demo_prims x k = Inr ()} = {demo_outcome 5}"
    using demo_acceptable [of 5, unfolded acceptable_def] by (auto simp: demo_response_def)
  moreover have "rs_responder demo_response = PeerId [2]" by (simp add: demo_response_def)
  ultimately show ?thesis
    using sync_apply_exact [of demo_env "demo_node 3 [8] empty_store" demo_response] demo_ok(3) store_inv_empty
      demo_response_wf demo_response_signed
    by (simp add: demo_none_recorded demo_directory_keys)
qed

theorem state_sync_converges_witness:
  "\<exists>A' r. build_state_sync_response demo_env (demo_node 2 [5] demo_one) demo_request = (A', r) \<and>
     {x. recorded demo_prims (nd_shared (apply_state_sync_response demo_env (demo_node 3 [8] empty_store) r)) x} =
       {demo_outcome 5}"
proof -
  obtain A' r where r: "build_state_sync_response demo_env (demo_node 2 [5] demo_one) demo_request = (A', r)"
    by fastforce
  have "{x. recorded demo_prims demo_one x} = {demo_outcome 5}"
    using outcome_row_decodes [OF demo_ok(3) wf_demo_outcome, of 10 5] by (auto simp: recorded_def demo_one_rows)
  moreover have "{x \<in> {demo_outcome 5}. acceptable demo_prims demo_directory x} = {demo_outcome 5}"
    using demo_acceptable by auto
  ultimately show ?thesis
    using state_sync_converges [OF refl _ _ _ _ r demo_authorised, of "demo_node 3 [8] empty_store"]
      r demo_ok demo_one_inv store_inv_empty
    by (simp add: demo_request_fields demo_matches demo_directory_keys demo_public demo_none_recorded)
qed

end
