(* ===== verification/Node_Store.thy ===== *)
theory Node_Store
  imports Sync_Properties
begin

text \<open>
  The node as a client of the store: whatever event it handles, the store changes only by a sequence
  of the store's own operations, each of them authorised (the recorded object is signed by the peer
  it names, under the key the directory has for that peer, or by the node itself). This is the
  refinement through which the store's invariant holds for the whole node.
\<close>

section \<open>Authorised operations\<close>

definition signed_known :: "registry \<Rightarrow> peer_id \<Rightarrow> (bytes \<Rightarrow> 'e + unit) \<Rightarrow> bool" where
  "signed_known g p verify \<longleftrightarrow> (\<exists>k. verifying_key g p = Some k \<and> verify k = Inr ())"

text \<open>The set \<open>R\<close> holds the rewards that are due: a peer and the outcome it is rewarded for.\<close>

fun authorised :: "prims \<Rightarrow> registry \<Rightarrow> peer_id \<Rightarrow> bytes \<Rightarrow> (peer_id \<times> chash option) set \<Rightarrow> store_op \<Rightarrow> bool" where
  "authorised P g me own R (OpSpec x) = signed_known g (js_submitter x) (spec_verify_signature P x)"
| "authorised P g me own R (OpResult x) =
     (signed_known g (jr_executor x) (result_verify_signature P x) \<or>
      jr_executor x = me \<and> result_verify_signature P x own = Inr ())"
| "authorised P g me own R (OpVerification x) = signed_known g (jv_verifier x) (verification_verify_signature P x)"
| "authorised P g me own R (OpOutcome x) = (jo_observed_by x = me \<and> outcome_verify_signature P x own = Inr ())"
| "authorised P g me own R (OpSynced x) = signed_known g (jo_observed_by x) (outcome_verify_signature P x)"
| "authorised P g me own R (OpReputation p d r h) =
     (d = 5 \<and> r = ''verifier_agreed'' \<and> (p, h) \<in> R)"
| "authorised P g me own R (OpRule n v p ps) = False"
| "authorised P g me own R (OpDelta d vk) = False"

text \<open>
  Reachability by operations that satisfy a condition, at one reading of the clock.
\<close>

definition store_path :: "prims \<Rightarrow> int \<Rightarrow> (store_op \<Rightarrow> bool) \<Rightarrow> store \<Rightarrow> store \<Rightarrow> bool" where
  "store_path P t ok st st' \<longleftrightarrow>
     (\<exists>ops. (\<forall>op \<in> set ops. ok op) \<and> st' = run_steps (store_step P) st (map (Pair t) ops))"

lemma store_path_refl [simp, intro]: "store_path P t ok st st"
  unfolding store_path_def by (intro exI [of _ "[]"]) simp

lemma store_path_trans [trans]:
  "store_path P t ok st st' \<Longrightarrow> store_path P t ok st' st'' \<Longrightarrow> store_path P t ok st st''"
  unfolding store_path_def by (elim exE conjE, rename_tac xs ys, rule_tac x = "xs @ ys" in exI) auto

lemma store_path_step: "ok op \<Longrightarrow> store_path P t ok st (store_step P st (t, op))"
  unfolding store_path_def by (intro exI [of _ "[op]"]) simp

lemma store_path_exec: "ok op \<Longrightarrow> store_exec P t st op = Inr st' \<Longrightarrow> store_path P t ok st st'"
  using store_path_step [of ok op P t st] by (simp add: store_step_def)

lemma store_path_mono: "store_path P t ok st st' \<Longrightarrow> (\<And>op. ok op \<Longrightarrow> ok' op) \<Longrightarrow> store_path P t ok' st st'"
  unfolding store_path_def by blast

lemma store_path_inv:
  assumes "store_path P t ok st st'" and "store_inv P st" and "\<And>op x. ok op \<Longrightarrow> x \<in> op_outcomes op \<Longrightarrow> wf_outcome x"
  shows "store_inv P st'"
proof -
  obtain ops where ops: "\<forall>op \<in> set ops. ok op" "st' = run_steps (store_step P) st (map (Pair t) ops)"
    using assms(1) by (auto simp: store_path_def)
  have "ok_event e" if "e \<in> set (map (Pair t) ops)" for e
    using that ops(1) assms(3) by (force simp: ok_event_def)
  with assms(2) show ?thesis unfolding ops(2) by (rule store_ts.typed_run_inv)
qed

section \<open>The node's events\<close>

text \<open>The outcomes an operation of the node may record and the rewards it may give are those of two
  sets \<open>W\<close> and \<open>R\<close>, given by the event.\<close>

definition node_ops :: "('b, 'q) env \<Rightarrow> job_outcome set \<Rightarrow> (peer_id \<times> chash option) set \<Rightarrow>
    ('b, 'q) node \<Rightarrow> store_op \<Rightarrow> bool" where
  "node_ops E W R nd op \<longleftrightarrow> op_outcomes op \<subseteq> W \<and>
     authorised (ev_prims E) (nd_registry nd) (nd_local_peer_id nd) (ed_public (ev_prims E) (nd_signing_key nd)) R op"

definition same_identity :: "('b, 'q) node \<Rightarrow> ('b, 'q) node \<Rightarrow> bool" where
  "same_identity nd nd' \<longleftrightarrow> nd_registry nd' = nd_registry nd \<and> nd_local_peer_id nd' = nd_local_peer_id nd \<and>
     nd_signing_key nd' = nd_signing_key nd"

definition node_path :: "('b, 'q) env \<Rightarrow> job_outcome set \<Rightarrow> (peer_id \<times> chash option) set \<Rightarrow>
    ('b, 'q) node \<Rightarrow> ('b, 'q) node \<Rightarrow> bool" where
  "node_path E W R nd nd' \<longleftrightarrow> same_identity nd nd' \<and>
     store_path (ev_prims E) (now_unix (ev_now E)) (node_ops E W R nd) (nd_shared nd) (nd_shared nd')"

lemma node_path_trans: "node_path E W R nd nd' \<Longrightarrow> node_path E W R nd' nd'' \<Longrightarrow> node_path E W R nd nd''"
  by (auto simp: node_path_def node_ops_def [abs_def] same_identity_def intro: store_path_trans)

lemma node_path_same: "same_identity nd nd' \<Longrightarrow> nd_shared nd' = nd_shared nd \<Longrightarrow> node_path E W R nd nd'"
  by (simp add: node_path_def)

lemma node_path_exec:
  "same_identity nd nd' \<Longrightarrow> node_ops E W R nd op \<Longrightarrow>
   store_exec (ev_prims E) (now_unix (ev_now E)) (nd_shared nd) op = Inr (nd_shared nd') \<Longrightarrow> node_path E W R nd nd'"
  by (auto simp: node_path_def intro: store_path_exec)

lemma node_path_refl [simp, intro]: "node_path E W R nd nd"
  by (simp add: node_path_same same_identity_def)

lemma node_path_fold:
  assumes "\<And>x nd out. x \<in> set xs \<Longrightarrow> same_identity nd0 nd \<Longrightarrow> node_path E W R nd (fst (f x (nd, out)))"
    and "node_path E W R nd0 nd"
  shows "node_path E W R nd0 (fst (fold f xs (nd, out)))"
  using assms
proof (induction xs arbitrary: nd out)
  case (Cons x xs)
  obtain nd' out' where f: "f x (nd, out) = (nd', out')" by fastforce
  have "same_identity nd0 nd" using Cons.prems(2) by (simp add: node_path_def)
  with Cons.prems(1) [of x nd out] f have "node_path E W R nd nd'" by simp
  then have "node_path E W R nd0 nd'" by (rule node_path_trans [OF Cons.prems(2)])
  with Cons.IH [of nd' out'] Cons.prems(1) f show ?case by simp
qed simp

lemmas identity_simps = same_identity_def node_ops_def signed_known_def

lemma buffer_message_path: "node_path E W R nd (buffer_message E nd p b t)"
  by (rule node_path_same) (simp_all add: buffer_message_def same_identity_def)

lemma execute_spec_path:
  assumes "ed25519_ok (ev_prims E)"
  shows "node_path E W R nd (fst (execute_spec E nd spec))"
proof -
  let ?P = "ev_prims E"
  obtain r h where r: "result_new_signed_at ?P (spec_content_hash ?P spec) (nd_local_peer_id nd) (unix_now (ev_now E))
      \<lparr>rm_verifier_method = Deterministic, rm_execution_time_ms = 1, rm_model_used = Some ''echo-executor'',
       rm_inference_token_count = None\<rparr> (build_executor_result ?P spec) (nd_signing_key nd) = (r, h)"
    by fastforce
  then have "node_ops E W R nd (OpResult r)"
    using result_new_signed_verifies [OF assms] by (fastforce simp: node_ops_def result_new_signed_at_def Let_def)
  then show ?thesis
    by (cases "record_result ?P (now_unix (ev_now E)) (nd_shared nd) r")
      (auto simp: execute_spec_def Let_def r same_identity_def intro: node_path_same node_path_exec [where op = "OpResult r"])
qed

lemma handle_tasks_path:
  assumes "ed25519_ok (ev_prims E)"
  shows "node_path E W R nd (fst (handle_tasks_message E nd b))"
proof -
  let ?P = "ev_prims E"
  have rec: "node_path E W R nd (fst (if c1 then (nd\<lparr>nd_shared := st\<rparr>, []) else if c2 then (nd\<lparr>nd_shared := st\<rparr>, [])
      else execute_spec E (nd\<lparr>nd_shared := st\<rparr>) x))"
    if "verifying_key (nd_registry nd) (js_submitter x) = Some k" "spec_verify_signature ?P x k = Inr ()"
      "record_spec ?P (now_unix (ev_now E)) (nd_shared nd) x = Inr st" for x k st c1 c2
  proof -
    have "node_path E W R nd (nd\<lparr>nd_shared := st\<rparr>)"
      by (rule node_path_exec [where op = "OpSpec x"]) (use that in \<open>auto simp: identity_simps\<close>)
    then show ?thesis using execute_spec_path [OF assms] by (auto intro: node_path_trans)
  qed
  show ?thesis
    using rec
    by (simp add: handle_tasks_message_def Let_def buffer_message_path split: option.splits sum.splits)
qed

lemma handle_result_path: "node_path E W R nd (handle_inbound_job_result E nd b)"
proof -
  let ?P = "ev_prims E" let ?t = "now_unix (ev_now E)"
  show ?thesis
  proof (cases "from_cbor_bytes ?P rd_job_result b")
    case (Some r)
    show ?thesis
    proof (cases "verifying_key (nd_registry nd) (jr_executor r)")
      case (Some k)
      have exec: "node_path E W R nd nd'" if "result_verify_signature ?P r k = Inr ()" "same_identity nd nd'"
          "record_result ?P ?t (nd_shared nd) r = Inr (nd_shared nd')" for nd'
        by (rule node_path_exec [where op = "OpResult r"]) (use that Some in \<open>auto simp: node_ops_def signed_known_def\<close>)
      show ?thesis
        using Some \<open>from_cbor_bytes ?P rd_job_result b = Some r\<close>
        by (auto simp: handle_inbound_job_result_def Let_def same_identity_def case_prod_unfold split: sum.splits
            intro: exec node_path_same)
    qed (simp add: handle_inbound_job_result_def Some buffer_message_path)
  qed (simp add: handle_inbound_job_result_def)
qed

lemma handle_verification_path: "node_path E W R nd (handle_inbound_verification E nd b)"
proof -
  let ?P = "ev_prims E" let ?t = "now_unix (ev_now E)"
  show ?thesis
  proof (cases "from_cbor_bytes ?P rd_job_verification b")
    case (Some v)
    show ?thesis
    proof (cases "verifying_key (nd_registry nd) (jv_verifier v)")
      case (Some k)
      have exec: "node_path E W R nd nd'" if "verification_verify_signature ?P v k = Inr ()" "same_identity nd nd'"
          "record_verification ?P ?t (nd_shared nd) v = Inr (nd_shared nd')" for nd'
        by (rule node_path_exec [where op = "OpVerification v"])
          (use that Some in \<open>auto simp: node_ops_def signed_known_def\<close>)
      show ?thesis
        using Some \<open>from_cbor_bytes ?P rd_job_verification b = Some v\<close>
        by (auto simp: handle_inbound_verification_def Let_def same_identity_def split: sum.splits option.splits prod.splits
            intro: exec node_path_same)
    qed (simp add: handle_inbound_verification_def Some buffer_message_path)
  qed (simp add: handle_inbound_verification_def)
qed

lemma handle_verify_path: "node_path E W R nd (handle_verify_message E nd b)"
  by (simp add: handle_verify_message_def handle_result_path handle_verification_path split: list.split)

lemma replay_path: "ed25519_ok (ev_prims E) \<Longrightarrow> node_path E W R nd (fst (replay_message E m (nd, out)))"
  using handle_tasks_path [of E W R nd "pm_payload m"]
  by (auto simp: replay_message_def handle_verify_path case_prod_unfold Let_def split: option.split)

lemma drain_path:
  assumes "ed25519_ok (ev_prims E)"
  shows "node_path E W R nd (fst (drain_verify_buffer E nd))"
  unfolding drain_verify_buffer_def case_prod_unfold Let_def
  by (rule node_path_fold) (auto intro: replay_path [OF assms] node_path_same simp: same_identity_def)

section \<open>Finalised quorums\<close>

text \<open>
  What the tick does to the store for one finalised quorum: the outcome is recorded and, when it is
  valid, every recorded verification of the result that agreed earns its verifier a reward of five.
\<close>

definition settlement :: "prims \<Rightarrow> store \<Rightarrow> chash \<times> finalised_quorum \<Rightarrow> store_op list" where
  "settlement P st = (\<lambda>(rh, f). OpOutcome (fq_outcome f) #
     (if is_valid_verdict (jo_verdict (fq_outcome f))
      then (case verifications_for_result P st rh of
          Inl _ \<Rightarrow> []
        | Inr vs \<Rightarrow> map (\<lambda>p. OpReputation p 5 ''verifier_agreed'' (Some (outcome_content_hash P (fq_outcome f))))
            (agreed_verifiers vs))
      else []))"

definition settlements :: "('b, 'q) env \<Rightarrow> store \<Rightarrow> (chash \<times> finalised_quorum) list \<Rightarrow> store_op list" where
  "settlements E st fs = concat (map (settlement (ev_prims E) st) fs)"

text \<open>The signed delta gossiped for an operation of a settlement.\<close>

fun op_deltas :: "store_op \<Rightarrow> delta_kind list" where
  "op_deltas (OpOutcome x) = [DeltaOutcome x]"
| "op_deltas (OpReputation p d r h) = [DeltaReputation p d r h]"
| "op_deltas _ = []"

definition gossip_signed :: "('b, 'q) env \<Rightarrow> ('b, 'q) node \<Rightarrow> delta_kind \<Rightarrow> effect" where
  "gossip_signed E nd d = Publish TopicStateDeltas (delta_encode_cbor (ev_prims E) (sign_delta (ev_prims E)
     (delta_unsigned d (nd_local_peer_id nd) (unix_now (ev_now E))) (nd_signing_key nd)))"

definition gossip_ops :: "('b, 'q) env \<Rightarrow> ('b, 'q) node \<Rightarrow> store_op list \<Rightarrow> outbox" where
  "gossip_ops E nd ops = map (gossip_signed E nd) (concat (map op_deltas ops))"

definition ops_run :: "('b, 'q) env \<Rightarrow> store \<Rightarrow> store_op list \<Rightarrow> store" where
  "ops_run E st ops = run_steps (store_step (ev_prims E)) st (map (Pair (now_unix (ev_now E))) ops)"

lemma gossip_ops_simps [simp]:
  "gossip_ops E nd [] = []" "gossip_ops E nd (op # ops) = map (gossip_signed E nd) (op_deltas op) @ gossip_ops E nd ops"
  "gossip_ops E nd (ops @ ops') = gossip_ops E nd ops @ gossip_ops E nd ops'"
  by (simp_all add: gossip_ops_def)

lemma gossip_same [simp]: "gossip_ops E (nd\<lparr>nd_shared := st\<rparr>) ops = gossip_ops E nd ops"
  by (simp add: gossip_ops_def gossip_signed_def)

lemma ops_run_simps [simp]:
  "ops_run E st [] = st" "ops_run E st (op # ops) = ops_run E (store_step (ev_prims E) st (now_unix (ev_now E), op)) ops"
  "ops_run E st (ops @ ops') = ops_run E (ops_run E st ops) ops'"
  by (simp_all add: ops_run_def)

lemma rewards_exact:
  "fold (\<lambda>p. apply_and_gossip_reputation E p 5 ''verifier_agreed'' h) ps (nd, out) =
     (let ops = map (\<lambda>p. OpReputation p 5 ''verifier_agreed'' h) ps
      in (nd\<lparr>nd_shared := ops_run E (nd_shared nd) ops\<rparr>, out @ gossip_ops E nd ops))"
  by (induction ps arbitrary: nd out)
    (simp_all add: apply_and_gossip_reputation_def apply_reputation_delta_def store_step_def gossip_signed_def Let_def)

lemma settlement_frame:
  "op_deltas op \<noteq> [] \<Longrightarrow> st_verifications (store_step P st (t, op)) = st_verifications st"
  by (cases op) (auto simp: store_step_def record_outcome_def apply_reputation_delta_def bind_result_eq_Inr split: sum.split)

lemma settlement_run_frame:
  "\<forall>op \<in> set ops. op_deltas op \<noteq> [] \<Longrightarrow> st_verifications (ops_run E st ops) = st_verifications st"
  by (induction ops arbitrary: st) (simp_all add: settlement_frame)

lemma settlement_iff:
  "op \<in> set (settlement P st (rh, f)) \<longleftrightarrow> op = OpOutcome (fq_outcome f) \<or>
     is_valid_verdict (jo_verdict (fq_outcome f)) \<and> (\<exists>vs v. verifications_for_result P st rh = Inr vs \<and> v \<in> set vs \<and>
       jv_verdict v = Agreed \<and>
       op = OpReputation (jv_verifier v) 5 ''verifier_agreed'' (Some (outcome_content_hash P (fq_outcome f))))"
  by (cases "is_valid_verdict (jo_verdict (fq_outcome f))"; cases "verifications_for_result P st rh")
    (auto simp: settlement_def agreed_verifiers_def)

lemma settlement_deltas: "op \<in> set (settlement P st x) \<Longrightarrow> op_deltas op \<noteq> []"
  by (cases x) (auto simp: settlement_iff)

lemma settlement_cong: "st_verifications st' = st_verifications st \<Longrightarrow> settlement P st' = settlement P st"
proof -
  assume "st_verifications st' = st_verifications st"
  then have eq: "verifications_for_result P st' = verifications_for_result P st"
    by (simp add: fun_eq_iff verifications_for_result_def)
  show ?thesis unfolding settlement_def eq ..
qed

lemma settle_exact:
  "settle_outcome E x (nd, out) = (let ops = settlement (ev_prims E) (nd_shared nd) x
     in (nd\<lparr>nd_shared := ops_run E (nd_shared nd) ops\<rparr>, out @ gossip_ops E nd ops))"
proof -
  obtain h f where x: "x = (h, f)" by fastforce
  let ?P = "ev_prims E" let ?st = "store_step ?P (nd_shared nd) (now_unix (ev_now E), OpOutcome (fq_outcome f))"
  have rec: "(case record_outcome ?P (now_unix (ev_now E)) (nd_shared nd) (fq_outcome f) of
      Inl _ \<Rightarrow> nd | Inr st \<Rightarrow> nd\<lparr>nd_shared := st\<rparr>) = nd\<lparr>nd_shared := ?st\<rparr>"
    by (simp add: store_step_def split: sum.split)
  have "verifications_for_result ?P ?st h = verifications_for_result ?P (nd_shared nd) h"
    by (simp add: verifications_for_result_def settlement_frame)
  then show ?thesis
    by (auto simp: x settle_outcome_def rec settlement_def rewards_exact gossip_signed_def Let_def split: sum.split)
qed

lemma settle_all_exact:
  "fold (settle_outcome E) fs (nd, out) = (let ops = settlements E (nd_shared nd) fs
     in (nd\<lparr>nd_shared := ops_run E (nd_shared nd) ops\<rparr>, out @ gossip_ops E nd ops))"
proof (induction fs arbitrary: nd out)
  case (Cons x fs)
  let ?st = "ops_run E (nd_shared nd) (settlement (ev_prims E) (nd_shared nd) x)"
  have "settlements E ?st fs = settlements E (nd_shared nd) fs"
    unfolding settlements_def
    by (simp add: settlement_cong [OF settlement_run_frame] settlement_deltas)
  with Cons show ?case by (simp add: settle_exact Let_def) (simp add: settlements_def)
qed (simp add: settlements_def)

lemma tick_exact:
  "run_finalise_tick E nd = (let ops = settlements E (nd_shared nd) (finalised_results E nd)
     in (nd\<lparr>nd_quorums := drop_finalised (ev_quorums E) (mark_finalised E nd),
           nd_readiness := (task_finished ^^ length (finalised_results E nd)) (nd_readiness nd),
           nd_shared := ops_run E (nd_shared nd) ops\<rparr>, gossip_ops E nd ops))"
  by (simp add: run_finalise_tick_def settle_all_exact Let_def gossip_ops_def gossip_signed_def [abs_def])

text \<open>
  The rewards due at a tick: for every quorum that is finalised valid, each peer with a recorded
  agreeing verification of its result, for that outcome.
\<close>

definition due_rewards :: "('b, 'q) env \<Rightarrow> ('b, 'q) node \<Rightarrow> (peer_id \<times> chash option) set" where
  "due_rewards E nd = {(p, Some (outcome_content_hash (ev_prims E) (fq_outcome f))) | p rh f vs v.
     (rh, f) \<in> set (finalised_results E nd) \<and> is_valid_verdict (jo_verdict (fq_outcome f)) \<and>
     verifications_for_result (ev_prims E) (nd_shared nd) rh = Inr vs \<and>
     v \<in> set vs \<and> jv_verdict v = Agreed \<and> jv_verifier v = p}"

lemma finalised_signed:
  assumes "ed25519_ok (ev_prims E)" and "(rh, f) \<in> set (finalised_results E nd)"
  shows "jo_observed_by (fq_outcome f) = nd_local_peer_id nd"
    and "outcome_verify_signature (ev_prims E) (fq_outcome f) (ed_public (ev_prims E) (nd_signing_key nd)) = Inr ()"
  using assms(2) outcome_new_signed_verifies [OF assms(1)]
  by (auto simp: finalised_results_def List.map_filter_def finalise_entry_def split: if_splits dest!: try_finalise_outcome)

lemma finalise_path:
  assumes "ed25519_ok (ev_prims E)" and "fq_outcome ` snd ` set (finalised_results E nd) \<subseteq> W" and "due_rewards E nd \<subseteq> R"
  shows "node_path E W R nd (fst (run_finalise_tick E nd))"
proof -
  have "node_ops E W R nd op" if op: "op \<in> set (settlement (ev_prims E) (nd_shared nd) x)" and x: "x \<in> set (finalised_results E nd)" for op x
  proof -
    obtain rh f where x': "x = (rh, f)" by fastforce
    have "fq_outcome f \<in> W" using assms(2) x x' by force
    moreover have "(jv_verifier v, Some (outcome_content_hash (ev_prims E) (fq_outcome f))) \<in> R"
      if "is_valid_verdict (jo_verdict (fq_outcome f))" "verifications_for_result (ev_prims E) (nd_shared nd) rh = Inr vs"
        "v \<in> set vs" "jv_verdict v = Agreed" for v vs
      by (rule subsetD [OF assms(3)], unfold due_rewards_def) (use that x x' in blast)
    ultimately show ?thesis
      using op finalised_signed [OF assms(1), of rh f] x
      by (auto simp: x' settlement_iff node_ops_def)
  qed
  then have "\<forall>op \<in> set (settlements E (nd_shared nd) (finalised_results E nd)). node_ops E W R nd op"
    by (auto simp: settlements_def)
  then show ?thesis
    unfolding node_path_def store_path_def same_identity_def tick_exact Let_def ops_run_def by auto
qed

section \<open>Every event\<close>

definition shared_path :: "('b, 'q) env \<Rightarrow> job_outcome set \<Rightarrow> (peer_id \<times> chash option) set \<Rightarrow>
    ('b, 'q) node \<Rightarrow> ('b, 'q) node \<Rightarrow> bool" where
  "shared_path E W R nd nd' \<longleftrightarrow>
     store_path (ev_prims E) (now_unix (ev_now E)) (node_ops E W R nd) (nd_shared nd) (nd_shared nd')"

lemma node_path_shared: "node_path E W R nd nd' \<Longrightarrow> shared_path E W R nd nd'"
  by (simp add: node_path_def shared_path_def)

lemma shared_path_same: "nd_shared nd' = nd_shared nd \<Longrightarrow> shared_path E W R nd nd'"
  by (simp add: shared_path_def)

lemma apply_response_path:
  assumes "set (rs_outcomes r) \<subseteq> W"
  shows "shared_path E W R nd (apply_state_sync_response E nd r)"
proof -
  let ?P = "ev_prims E"
  let ?xs = "if envelope_ok ?P (nd_registry nd) r then filter (acceptable ?P (nd_registry nd)) (rs_outcomes r) else []"
  have "nd_shared (apply_state_sync_response E nd r) =
      run_steps (store_step ?P) (nd_shared nd) (map (Pair (now_unix (ev_now E))) (map OpSynced ?xs))"
    by (simp add: apply_response_eq comp_def)
  moreover have "\<forall>op \<in> set (map OpSynced ?xs). node_ops E W R nd op"
    using assms by (auto simp: node_ops_def acceptable_def signed_known_def)
  ultimately show ?thesis unfolding shared_path_def store_path_def by blast
qed

lemma build_response_shared: "nd_shared (fst (build_state_sync_response E nd rq)) = nd_shared nd"
proof -
  obtain nd' r where r: "build_state_sync_response E nd rq = (nd', r)" by fastforce
  then have "nd' = nd\<lparr>nd_state_sync_rate_limit := nd_state_sync_rate_limit nd'\<rparr>" using build_sync_cases by blast
  then have "nd_shared nd' = nd_shared (nd\<lparr>nd_state_sync_rate_limit := nd_state_sync_rate_limit nd'\<rparr>)" by (rule arg_cong)
  with r show ?thesis by simp
qed

fun swarm_outcomes :: "swarm_event \<Rightarrow> job_outcome set" where
  "swarm_outcomes (StateSyncResponseIn r) = set (rs_outcomes r)"
| "swarm_outcomes _ = {}"

fun event_outcomes :: "('b, 'q) env \<Rightarrow> ('b, 'q) node \<Rightarrow> node_event \<Rightarrow> job_outcome set" where
  "event_outcomes E nd FinaliseTick = fq_outcome ` snd ` set (finalised_results E nd)"
| "event_outcomes E nd (SwarmEvent e) = swarm_outcomes e"
| "event_outcomes E nd _ = {}"

fun event_rewards :: "('b, 'q) env \<Rightarrow> ('b, 'q) node \<Rightarrow> node_event \<Rightarrow> (peer_id \<times> chash option) set" where
  "event_rewards E nd FinaliseTick = due_rewards E nd"
| "event_rewards E nd _ = {}"

lemma handle_swarm_path:
  assumes "ed25519_ok (ev_prims E)" and "swarm_outcomes e \<subseteq> W"
  shows "shared_path E W R nd (fst (handle_swarm_event E nd e))"
proof (cases e)
  case (ConnectionEstablished ps)
  then show ?thesis by (auto simp: Let_def case_prod_unfold split: option.split intro: shared_path_same)
next
  case (GossipMessage topic src b)
  have "nd_shared (handle_caps_message E nd b src) = nd_shared nd"
    by (simp add: handle_caps_message_def Let_def split: option.split)
  moreover have "handle_state_delta_message (ev_prims E) (nd_shared nd) b = nd_shared nd"
    by (simp add: handle_state_delta_message_def split: option.split)
  ultimately show ?thesis
    using node_path_shared [OF handle_tasks_path [OF assms(1)]] node_path_shared [OF handle_verify_path] GossipMessage
    by (cases topic) (simp_all add: shared_path_same)
next
  case (StateSyncRequestIn rq)
  then show ?thesis by (simp add: case_prod_unfold Let_def shared_path_same build_response_shared)
qed (use assms(2) in \<open>simp_all add: shared_path_same apply_response_path\<close>)

lemma event_path:
  assumes "ed25519_ok (ev_prims E)" and "event_outcomes E nd e \<subseteq> W" and "event_rewards E nd e \<subseteq> R"
  shows "shared_path E W R nd (fst (node_event_step E nd e))"
proof (cases e)
  case (CapsTick caps ls ok)
  then show ?thesis by (simp add: publish_caps_v0_2_def Let_def shared_path_same)
qed (use assms in \<open>simp_all add: shared_path_same handle_swarm_path node_path_shared finalise_path drain_path\<close>)

text \<open>
  C2. Nothing unauthenticated reaches the store. Whatever event the node handles (gossip, sync,
  ticks, replayed messages), the store afterwards is the store before under a sequence of store
  operations each of which is authorised: a spec, result, verification or synced outcome is signed
  by the peer it names under the key the node's directory has for that peer; a synced outcome is one
  of the response at hand; an own result is signed by the node; an outcome of the node is signed by
  it and is that of a quorum that is finalised by this tick; and reputation changes only at a tick,
  by five for the verifier of a recorded agreeing verification of a result whose quorum this tick
  finalises as valid, naming that outcome. Governance rules and foreign deltas are never applied.
\<close>

theorem node_store_authenticated:
  fixes E :: "('b, 'q) env" and now :: system_time and inst :: instant
  assumes "ed25519_ok (ev_prims E)"
  defines "E' \<equiv> E\<lparr>ev_now := now, ev_instant := inst\<rparr>"
  shows "\<exists>ops. (\<forall>op \<in> set ops. op_outcomes op \<subseteq> event_outcomes E' nd e \<and>
        authorised (ev_prims E) (nd_registry nd) (nd_local_peer_id nd)
          (ed_public (ev_prims E) (nd_signing_key nd)) (event_rewards E' nd e) op) \<and>
      nd_shared (node_step E nd (now, inst, e)) =
        run_steps (store_step (ev_prims E)) (nd_shared nd) (map (Pair (now_unix now)) ops)"
  using event_path [of E' nd e "event_outcomes E' nd e" "event_rewards E' nd e"] assms(1)
  by (simp add: shared_path_def store_path_def node_ops_def node_step_def E'_def)

theorem node_store_authenticated_witness:
  "\<exists>ops. list_all (\<lambda>op. op_outcomes op \<subseteq> {demo_outcome 5} \<and>
       authorised demo_prims demo_directory (PeerId [3]) [8] {} op) ops \<and>
     nd_shared (node_step demo_env (demo_node 3 [8] empty_store) (0, 0, SwarmEvent (StateSyncResponseIn demo_response))) =
       run_steps (store_step demo_prims) empty_store (map (Pair (now_unix 0)) ops)"
  using node_store_authenticated [of demo_env 0 0 "demo_node 3 [8] empty_store" "SwarmEvent (StateSyncResponseIn demo_response)"]
    demo_ok(1)
  by (simp add: demo_public demo_response_def list_all_iff)

end
