(* ===== verification/Node_Invariant.thy ===== *)
theory Node_Invariant
  imports Node_Store
begin

text \<open>
  The invariant of the whole node (store, registry, buffer, open quorums and trackers), kept by every
  event, and the finalisation tick: it closes exactly the quorums that decide.
\<close>

section \<open>The table of open quorums\<close>

definition entry_ok :: "chash \<Rightarrow> open_quorum \<Rightarrow> bool" where
  "entry_ok h oq \<longleftrightarrow> \<not> oq_finalised oq \<and> wf_hash h \<and>
     q_result_hash (oq_quorum oq) = h \<and> wf_hash (q_spec_hash (oq_quorum oq)) \<and>
     q_config (oq_quorum oq) = quorum_standard \<and> distinct (map fst (q_by_verifier (oq_quorum oq))) \<and>
     (\<forall>(p, s) \<in> set (q_by_verifier (oq_quorum oq)).
        jv_verifier (sv_verification s) = p \<and> jv_result_hash (sv_verification s) = h)"

definition quorums_inv :: "'q quorum_ops \<Rightarrow> 'q \<Rightarrow> bool" where
  "quorums_inv L c \<longleftrightarrow> lru_keys L c \<and> lru_cap L c = OPEN_QUORUMS_LRU_CAP \<and>
     length (lru_iter L c) \<le> OPEN_QUORUMS_LRU_CAP \<and> (\<forall>h oq. lru_view L c h = Some oq \<longrightarrow> entry_ok h oq)"

lemma cap_pos: "0 < OPEN_QUORUMS_LRU_CAP"
  by (simp add: OPEN_QUORUMS_LRU_CAP_def)

lemma quorums_inv_new: "lru_ok L \<Longrightarrow> quorums_inv L (lru_new L OPEN_QUORUMS_LRU_CAP)"
  by (simp add: quorums_inv_def lru_keys_def lru_view_def lru_okD(1,2))

lemma quorums_inv_get: "lru_ok L \<Longrightarrow> quorums_inv L c \<Longrightarrow> quorums_inv L (snd (lru_get L k c))"
  using lru_okD(6) [of L k c] lru_okD(4,5,17) [of L] by (simp add: quorums_inv_def)

lemma quorums_inv_put:
  assumes "lru_ok L" and "quorums_inv L c" and "entry_ok k v"
  shows "quorums_inv L (lru_put L k v c)"
proof -
  have cap: "0 < lru_cap L c" using assms(2) cap_pos by (simp add: quorums_inv_def)
  have "entry_ok h oq" if "lru_view L (lru_put L k v c) h = Some oq" for h oq
  proof -
    have "((lru_view L c)(k \<mapsto> v)) h = Some oq"
      using lru_okD(11) [OF assms(1) cap] that by (metis domI map_le_def)
    then show ?thesis using assms(2,3) by (auto simp: quorums_inv_def split: if_splits)
  qed
  then show ?thesis
    using assms(2) lru_okD(12,13) [OF assms(1) cap] lru_okD(18) [OF assms(1)] by (simp add: quorums_inv_def)
qed

lemma quorums_inv_write:
  assumes "lru_ok L" and "quorums_inv L c" and "entry_ok k v" and "lru_view L c k \<noteq> None"
  shows "quorums_inv L (lru_write L k v c)"
  using assms lru_okD(14-16) [OF assms(1,4)] lru_okD(19) [OF assms(1)] by (auto simp: quorums_inv_def split: if_splits)

lemma view_iter: "lru_keys L c \<Longrightarrow> lru_view L c h = Some oq \<longleftrightarrow> (h, oq) \<in> set (lru_iter L c)"
  by (simp add: lru_view_def lru_keys_def)

section \<open>Marking and dropping\<close>

lemma mark_fold:
  fixes fin :: "open_quorum \<Rightarrow> finalised_quorum option"
  assumes "lru_ok L" and "distinct (map fst es)" and "\<forall>(h, oq) \<in> set es. lru_view L c h = Some oq"
  defines "c' \<equiv> fold (\<lambda>(h, oq) c. if fin oq = None then c else lru_write L h (oq\<lparr>oq_finalised := True\<rparr>) c) es c"
  shows "lru_view L c' = (\<lambda>h. case map_of es h of None \<Rightarrow> lru_view L c h
      | Some oq \<Rightarrow> if fin oq = None then Some oq else Some (oq\<lparr>oq_finalised := True\<rparr>)) \<and>
    (lru_keys L c \<longrightarrow> lru_keys L c') \<and> lru_cap L c' = lru_cap L c \<and> length (lru_iter L c') = length (lru_iter L c)"
  using assms(2,3) unfolding c'_def
proof (induction es arbitrary: c)
  case (Cons e es)
  obtain h oq where e: "e = (h, oq)" by fastforce
  define c1 where "c1 = (if fin oq = None then c else lru_write L h (oq\<lparr>oq_finalised := True\<rparr>) c)"
  have h: "lru_view L c h = Some oq" "map_of es h = None" using Cons.prems by (auto simp: e map_of_eq_None_iff)
  then have c1: "lru_view L c1 = (lru_view L c)(h \<mapsto> if fin oq = None then oq else oq\<lparr>oq_finalised := True\<rparr>)"
      "lru_keys L c \<longrightarrow> lru_keys L c1" "lru_cap L c1 = lru_cap L c" "length (lru_iter L c1) = length (lru_iter L c)"
    using lru_okD(14-16) [OF assms(1), of c h] lru_okD(19) [OF assms(1), of c] by (auto simp: c1_def fun_eq_iff)
  have "\<forall>(h', oq') \<in> set es. lru_view L c1 h' = Some oq'"
    using Cons.prems h(2) by (auto simp: e c1(1) map_of_eq_None_iff rev_image_eqI)
  from Cons.IH [OF _ this] Cons.prems(1) c1 h(2) show ?case
    by (auto simp: e c1_def [symmetric] fun_eq_iff split: option.splits if_splits)
qed simp

lemma pop_fold:
  assumes "lru_ok L"
  shows "lru_view L (fold (lru_pop L) ks c) = (\<lambda>h. if h \<in> set ks then None else lru_view L c h) \<and>
    (lru_keys L c \<longrightarrow> lru_keys L (fold (lru_pop L) ks c)) \<and> lru_cap L (fold (lru_pop L) ks c) = lru_cap L c \<and>
    length (lru_iter L (fold (lru_pop L) ks c)) \<le> length (lru_iter L c)"
proof (induction ks arbitrary: c)
  case (Cons k ks)
  from Cons.IH [of "lru_pop L k c"] lru_okD(7-9) [OF assms, where c = c and k = k] lru_okD(20) [OF assms, of c k]
  show ?case by (auto simp: fun_eq_iff)
qed simp

lemma tick_view:
  assumes "lru_ok (ev_quorums E)" and "quorums_inv (ev_quorums E) (nd_quorums nd)"
  defines "c' \<equiv> drop_finalised (ev_quorums E) (mark_finalised E nd)"
  shows "lru_view (ev_quorums E) c' h = (case lru_view (ev_quorums E) (nd_quorums nd) h of None \<Rightarrow> None
      | Some oq \<Rightarrow> if finalise_entry E nd oq = None then Some oq else None)"
    and "quorums_inv (ev_quorums E) c'"
proof -
  let ?L = "ev_quorums E" let ?c = "nd_quorums nd" let ?m = "mark_finalised E nd"
  have keys: "lru_keys ?L ?c" using assms(2) by (simp add: quorums_inv_def)
  then have es: "distinct (map fst (lru_iter ?L ?c))" "\<forall>(h, oq) \<in> set (lru_iter ?L ?c). lru_view ?L ?c h = Some oq"
    by (simp_all add: lru_keys_def view_iter [OF keys])
  note mark = mark_fold [OF assms(1) es, of "finalise_entry E nd", folded mark_finalised_def]
  then have view_m: "lru_view ?L ?m = (\<lambda>h. map_option (\<lambda>oq. if finalise_entry E nd oq = None then oq
      else oq\<lparr>oq_finalised := True\<rparr>) (lru_view ?L ?c h))"
    by (auto simp: lru_view_def fun_eq_iff split: option.split)
  have keys_m: "lru_keys ?L ?m" using mark keys by simp
  have fin: "h \<in> fst ` set (filter (\<lambda>e. oq_finalised (snd e)) (lru_iter ?L ?m)) \<longleftrightarrow>
      (\<exists>oq. lru_view ?L ?m h = Some oq \<and> oq_finalised oq)" for h
    by (force simp: view_iter [OF keys_m])
  note pop = pop_fold [OF assms(1), of "map fst (filter (\<lambda>e. oq_finalised (snd e)) (lru_iter ?L ?m))" ?m,
      folded drop_finalised_def]
  have live: "lru_view ?L ?c h = Some oq \<Longrightarrow> entry_ok h oq" for h oq using assms(2) by (simp add: quorums_inv_def)
  have vc: "lru_view ?L c' h = (if \<exists>oq. lru_view ?L ?m h = Some oq \<and> oq_finalised oq then None else lru_view ?L ?m h)" for h
    using pop unfolding c'_def by (simp only: set_map fin)
  show view: "lru_view ?L c' h = (case lru_view ?L ?c h of None \<Rightarrow> None
      | Some oq \<Rightarrow> if finalise_entry E nd oq = None then Some oq else None)" for h
    unfolding vc view_m using live [of h] by (cases "lru_view ?L ?c h") (simp_all add: entry_ok_def)
  show "quorums_inv ?L c'"
    unfolding quorums_inv_def
  proof (intro conjI allI impI)
    show "entry_ok h oq" if "lru_view ?L c' h = Some oq" for h oq
      using that live [of h oq] unfolding view by (auto split: option.splits if_splits)
  qed (use pop mark assms(2) keys_m in \<open>simp_all add: quorums_inv_def c'_def\<close>)
qed

section \<open>The invariant\<close>

definition env_ok :: "('b, 'q) env \<Rightarrow> bool" where
  "env_ok E \<longleftrightarrow> ed25519_ok (ev_prims E) \<and> sha256_ok (ev_prims E) \<and> lru_ok (ev_counts E) \<and> lru_ok (ev_quorums E)"

definition rest_inv :: "('b, 'q) env \<Rightarrow> ('b, 'q) node \<Rightarrow> bool" where
  "rest_inv E nd \<longleftrightarrow> registry_inv (ev_prims E) (nd_registry nd) \<and> buffer_inv (ev_counts E) (nd_verify_buffer nd) \<and>
     quorums_inv (ev_quorums E) (nd_quorums nd) \<and> tracker_inv (nd_readiness nd) \<and> isolation_inv (nd_isolation nd)"

definition node_inv :: "('b, 'q) env \<Rightarrow> ('b, 'q) node \<Rightarrow> bool" where
  "node_inv E nd \<longleftrightarrow> store_inv (ev_prims E) (nd_shared nd) \<and> rest_inv E nd"

lemma rest_inv_shared [simp]: "rest_inv E (nd\<lparr>nd_shared := st\<rparr>) = rest_inv E nd"
  by (simp add: rest_inv_def)

lemma rest_inv_readiness: "rest_inv E nd \<Longrightarrow> tracker_inv k \<Longrightarrow> rest_inv E (nd\<lparr>nd_readiness := k\<rparr>)"
  by (simp add: rest_inv_def)

lemma rest_inv_tracker: "rest_inv E nd \<Longrightarrow> tracker_inv (nd_readiness nd)"
  by (simp add: rest_inv_def)

lemma tracker_ops_inv:
  assumes "tracker_inv k"
  shows "tracker_inv (task_started k)" "tracker_inv (task_finished k)" "tracker_inv (mark_ready k)"
    "tracker_inv (mark_listening k)" "tracker_inv (mark_stopped k)" "tracker_inv (mark_connected k)"
  using assms tracker_ts.step_inv [of k TaskStarted] tracker_ts.step_inv [of k TaskFinished]
    tracker_ts.step_inv [of k MarkReady] tracker_ts.step_inv [of k MarkListening] tracker_ts.step_inv [of k MarkStopped]
    tracker_ts.step_inv [of k MarkConnected]
  by simp_all

lemma tracker_finished_inv: "tracker_inv k \<Longrightarrow> tracker_inv ((task_finished ^^ n) k)"
  by (induction n) (simp_all add: tracker_ops_inv)

lemma isolation_ops_inv:
  assumes "isolation_inv k"
  shows "isolation_inv (fst (on_connection_established k t))" "isolation_inv (on_connection_closed k t)"
  using assms isolation_ts.step_inv [of k "Established_at t"] isolation_ts.step_inv [of k "Closed_at t"] by simp_all

lemma drain_inv:
  assumes "lru_ok L" and "buffer_inv L b"
  shows "buffer_inv L (fst (drain_ready L b now known))"
  using buffer_step_inv [OF assms, of "BufDrain now {p. known p}"] by simp

lemma buffer_message_rest: "env_ok E \<Longrightarrow> rest_inv E nd \<Longrightarrow> rest_inv E (buffer_message E nd p b t)"
  using buffer_step_inv [of "ev_counts E" "nd_verify_buffer nd" "BufEnqueue \<lparr>pm_publisher = p, pm_payload = b,
    pm_tag = t, pm_received_at = ev_instant E\<rparr>"]
  by (simp add: buffer_message_def rest_inv_def env_ok_def)

lemma fresh_quorum_ok: "wf_hash sh \<Longrightarrow> wf_hash rh \<Longrightarrow> entry_ok rh (fresh_quorum E sh rh)"
  by (simp add: entry_ok_def fresh_quorum_def quorum_new_def)

lemma execute_spec_rest:
  assumes "env_ok E" and "rest_inv E nd"
  shows "rest_inv E (fst (execute_spec E nd spec))"
proof -
  have "sha256_ok (ev_prims E)" "lru_ok (ev_quorums E)" using assms(1) by (simp_all add: env_ok_def)
  moreover have "wf_hash (spec_content_hash (ev_prims E) spec)"
    "\<And>h p t m pl k. wf_hash (snd (result_new_signed_at (ev_prims E) h p t m pl k))"
    using calculation(1) by (simp_all add: spec_content_hash_def result_new_signed_at_def result_content_hash_def
        Let_def wf_content_hash)
  ultimately show ?thesis
    using assms(2) by (auto simp: execute_spec_def Let_def rest_inv_def case_prod_unfold quorums_inv_put fresh_quorum_ok
        tracker_ops_inv split: sum.split)
qed

lemma handle_tasks_rest:
  "env_ok E \<Longrightarrow> rest_inv E nd \<Longrightarrow> rest_inv E (fst (handle_tasks_message E nd b))"
  by (simp add: handle_tasks_message_def Let_def buffer_message_rest execute_spec_rest split: option.split sum.split)

lemma field_hash_wf: "field n rd_hash m = Some h \<Longrightarrow> wf_hash h"
  by (auto simp: field_def split: list.splits intro: rd_hash_wf)

lemma decoded_result_wf: "from_cbor_bytes P rd_job_result b = Some r \<Longrightarrow> wf_result r"
  by (auto simp: from_cbor_bytes_def rd_job_result_def wf_result_def bind_eq_Some_conv dest: field_hash_wf)

lemma handle_result_rest:
  assumes "env_ok E" and "rest_inv E nd"
  shows "rest_inv E (handle_inbound_job_result E nd b)"
proof (cases "from_cbor_bytes (ev_prims E) rd_job_result b")
  case (Some r)
  then have "wf_hash (jr_spec_hash r)" using decoded_result_wf by (auto simp: wf_result_def)
  moreover have "sha256_ok (ev_prims E)" "lru_ok (ev_quorums E)" using assms(1) by (simp_all add: env_ok_def)
  moreover have "wf_hash (result_content_hash (ev_prims E) r)"
    using calculation(2) by (simp add: result_content_hash_def wf_content_hash)
  ultimately show ?thesis
    using assms Some buffer_message_rest [OF assms]
    by (auto simp: handle_inbound_job_result_def Let_def rest_inv_def case_prod_unfold quorums_inv_get quorums_inv_put
        fresh_quorum_ok split: option.split sum.split)
qed (simp add: handle_inbound_job_result_def assms)

lemma add_verification_ok:
  "entry_ok h oq \<Longrightarrow> add_verification P (oq_quorum oq) v w k = Inr q \<Longrightarrow> entry_ok h (oq\<lparr>oq_quorum := q\<rparr>)"
  by (auto simp: entry_ok_def add_verification_def update_fresh map_of_eq_None_iff split: if_splits sum.splits)

lemma handle_verification_rest:
  assumes "env_ok E" and "rest_inv E nd"
  shows "rest_inv E (handle_inbound_verification E nd b)"
proof -
  let ?L = "ev_quorums E"
  have L: "lru_ok ?L" and inv: "quorums_inv ?L (nd_quorums nd)"
    using assms by (simp_all add: env_ok_def rest_inv_def)
  have upd: "quorums_inv ?L (lru_write ?L h (oq\<lparr>oq_quorum := q\<rparr>) c)"
    if "lru_get ?L h (nd_quorums nd) = (Some oq, c)" "add_verification P (oq_quorum oq) v w k = Inr q" for h oq q c P v w k
  proof (rule quorums_inv_write [OF L])
    show "quorums_inv ?L c" using quorums_inv_get [OF L inv, of h] that by simp
    have "lru_view ?L (nd_quorums nd) h = Some oq" using lru_okD(3) [OF L, of h "nd_quorums nd"] that by simp
    then show "entry_ok h (oq\<lparr>oq_quorum := q\<rparr>)" "lru_view ?L c h \<noteq> None"
      using inv that add_verification_ok lru_okD(4) [OF L, of h "nd_quorums nd"] by (auto simp: quorums_inv_def)
  qed
  have get: "quorums_inv ?L c" if "lru_get ?L h (nd_quorums nd) = (x, c)" for h x c
    using quorums_inv_get [OF L inv, of h] that by simp
  show ?thesis
    using assms(2) buffer_message_rest [OF assms]
    by (auto simp: handle_inbound_verification_def Let_def rest_inv_def split: option.split sum.split prod.split
        dest: upd get)
qed

lemma handle_verify_rest: "env_ok E \<Longrightarrow> rest_inv E nd \<Longrightarrow> rest_inv E (handle_verify_message E nd b)"
  by (simp add: handle_verify_message_def handle_result_rest handle_verification_rest split: list.split)

lemma fold_rest:
  assumes "\<And>x nd out. rest_inv E nd \<Longrightarrow> rest_inv E (fst (f x (nd, out)))" and "rest_inv E nd"
  shows "rest_inv E (fst (fold f xs (nd, out)))"
  using assms(2)
proof (induction xs arbitrary: nd out)
  case (Cons x xs)
  then show ?case using assms(1) [of nd x out] by (cases "f x (nd, out)") simp
qed simp

lemma drain_rest:
  assumes "env_ok E" and "rest_inv E nd"
  shows "rest_inv E (fst (drain_verify_buffer E nd))"
  unfolding drain_verify_buffer_def case_prod_unfold Let_def
proof (rule fold_rest)
  show "rest_inv E (fst (replay_message E m (nd, out)))" if "rest_inv E nd" for m nd out
    using handle_tasks_rest [OF assms(1) that, of "pm_payload m"] handle_verify_rest [OF assms(1) that]
    by (auto simp: replay_message_def case_prod_unfold Let_def split: option.split)
qed (use assms in \<open>simp add: rest_inv_def drain_inv env_ok_def\<close>)

lemma finalise_rest: "env_ok E \<Longrightarrow> rest_inv E nd \<Longrightarrow> rest_inv E (fst (run_finalise_tick E nd))"
  by (simp add: tick_exact Let_def rest_inv_def env_ok_def tick_view(2) tracker_finished_inv)

lemma finalised_wf:
  assumes "env_ok E" and "rest_inv E nd"
  shows "fq_outcome ` snd ` set (finalised_results E nd) \<subseteq> {x. wf_outcome x}"
proof (clarsimp simp: finalised_results_def List.map_filter_def)
  fix h oq f
  assume "(h, oq) \<in> set (lru_iter (ev_quorums E) (nd_quorums nd))" and fin: "finalise_entry E nd oq = Some f"
  then have "entry_ok h oq" using assms(2) view_iter by (fastforce simp: rest_inv_def quorums_inv_def)
  moreover have "wf_hash (verification_content_hash (ev_prims E) v)" for v
    using assms(1) by (simp add: env_ok_def verification_content_hash_def wf_content_hash)
  ultimately show "wf_outcome (fq_outcome f)"
    using fin by (auto simp: finalise_entry_def entry_ok_def wf_outcome_def split: if_splits dest!: try_finalise_outcome)
qed

lemma handle_caps_rest: "rest_inv E nd \<Longrightarrow> rest_inv E (handle_caps_message E nd b src)"
  using registry_ts.step_inv [of "ev_prims E" "nd_registry nd" "RegUpsert a" for a]
  by (auto simp: handle_caps_message_def bridge_legacy_caps_into_registry_def Let_def rest_inv_def split: option.split)

lemma build_response_rest: "rest_inv E nd \<Longrightarrow> rest_inv E (fst (build_state_sync_response E nd rq))"
  by (auto simp: build_state_sync_response_def Let_def rest_inv_def case_prod_unfold split: option.split sum.split)

lemma swarm_rest:
  assumes "env_ok E" and "rest_inv E nd"
  shows "rest_inv E (fst (handle_swarm_event E nd e))"
proof (cases e)
  case (ConnectionEstablished ps)
  then show ?thesis
    using assms(2) by (auto simp: Let_def case_prod_unfold rest_inv_def tracker_ops_inv isolation_ops_inv split: option.split)
next
  case ConnectionClosed
  then show ?thesis using assms(2) by (simp add: rest_inv_def isolation_ops_inv)
next
  case (GossipMessage topic src b)
  then show ?thesis
    using assms by (cases topic) (simp_all add: handle_caps_rest handle_tasks_rest handle_verify_rest)
next
  case (StateSyncRequestIn rq)
  then show ?thesis using build_response_rest [OF assms(2)] by (simp add: case_prod_unfold Let_def)
qed (use assms in \<open>simp_all add: apply_response_eq\<close>)

lemma event_rest:
  assumes "env_ok E" and "rest_inv E nd"
  shows "rest_inv E (fst (node_event_step E nd e))"
proof (cases e)
  case PruneTick
  then show ?thesis
    using assms(2) registry_ts.step_inv [of "ev_prims E" "nd_registry nd" "RegPrune (unix_now (ev_now E))"]
    by (simp add: rest_inv_def)
qed (use assms in \<open>simp_all add: finalise_rest drain_rest swarm_rest rest_inv_readiness rest_inv_tracker tracker_ops_inv
    publish_caps_v0_2_def Let_def\<close>)

section \<open>Histories of the node\<close>

text \<open>A decoded response carries hashes of 32 bytes; that is the only typing an event needs.\<close>

fun typed_event :: "system_time \<times> instant \<times> node_event \<Rightarrow> bool" where
  "typed_event (now, inst, SwarmEvent (StateSyncResponseIn r)) = wf_response r"
| "typed_event _ = True"

lemma node_event_inv:
  assumes "env_ok E" and "node_inv E nd" and "typed_event (now, inst, e)"
  shows "node_inv E (fst (node_event_step E nd e))"
proof -
  have rest: "rest_inv E nd" using assms(2) by (simp add: node_inv_def)
  have "event_outcomes E nd e \<subseteq> {x. wf_outcome x}"
  proof (cases e)
    case FinaliseTick
    then show ?thesis using finalised_wf [OF assms(1) rest] by simp
  next
    case (SwarmEvent s)
    then show ?thesis using assms(3) by (cases s) (auto simp: wf_response_def)
  qed simp_all
  with assms(1) have "shared_path E {x. wf_outcome x} UNIV nd (fst (node_event_step E nd e))"
    by (simp add: event_path env_ok_def)
  then have "store_inv (ev_prims E) (nd_shared (fst (node_event_step E nd e)))"
    unfolding shared_path_def using assms(2)
    by (elim store_path_inv) (auto simp: node_inv_def node_ops_def)
  with event_rest [OF assms(1) rest] show ?thesis by (simp add: node_inv_def)
qed

interpretation node_ts: typed_transition_system "node_step E" "\<lambda>nd. env_ok E \<and> node_inv E nd" typed_event for E
proof
  fix nd ev
  assume inv: "env_ok E \<and> node_inv E nd" and typed: "typed_event ev"
  obtain now inst e where ev: "ev = (now, inst, e)" by (metis prod_cases3)
  let ?E = "E\<lparr>ev_now := now, ev_instant := inst\<rparr>"
  have same: "env_ok ?E = env_ok E" "node_inv ?E = node_inv E"
    by (simp_all add: env_ok_def node_inv_def rest_inv_def fun_eq_iff)
  show "env_ok E \<and> node_inv E (node_step E nd ev)"
    using node_event_inv [of ?E nd now inst e] inv typed by (simp add: ev node_step_def same)
qed

lemma cmd_start_inv:
  assumes "env_ok E" and "store_inv (ev_prims E) shared"
    and "ed_public (ev_prims E) key \<noteq> zero_key" and "ed_valid_key (ev_prims E) (ed_public (ev_prims E) key)"
  shows "node_inv E (cmd_start E me key listeners shared)"
proof -
  have "tracker_inv (mark_connected tracker_new)" "isolation_inv (isolation_new t)" for t
    by (simp_all add: tracker_inv_def tracker_new_def mark_connected_def transition_to_def isolation_inv_def isolation_new_def)
  with assms show ?thesis
    by (simp add: node_inv_def rest_inv_def cmd_start_def node_new_def Let_def env_ok_def record_identity_inv
        registry_inv_new buffer_inv_new quorums_inv_new)
qed

text \<open>
  C5. The node is safe over every history of events: started on a well-formed store with a valid key,
  after any finite sequence of gossip messages, sync requests and responses, connections and ticks,
  at any clock readings, the store has unique keys and no dangling reference, the directory holds
  only valid keys, the buffer at most 100 messages, the table at most 10000 quorums, each of them
  unfinalised, filed under its result and holding one vote per verifier for that result, and the
  node is never advertised active without a task in flight.
\<close>

theorem node_history_inv:
  assumes "env_ok E" and "store_inv (ev_prims E) shared"
    and "ed_public (ev_prims E) key \<noteq> zero_key" and "ed_valid_key (ev_prims E) (ed_public (ev_prims E) key)"
    and "\<forall>e \<in> set es. typed_event e"
  shows "node_inv E (run_steps (node_step E) (cmd_start E me key listeners shared) es)"
  using node_ts.typed_run_inv [of E "cmd_start E me key listeners shared" es] cmd_start_inv [OF assms(1-4)] assms(1,5)
  by blast

lemma demo_env_ok: "env_ok demo_env"
  using demo_ok by (simp add: env_ok_def demo_env_def list_lru_ok)

theorem node_history_inv_witness:
  "node_inv demo_env (run_steps (node_step demo_env) (cmd_start demo_env (PeerId [3]) [8] [] demo_one)
     [(0, 0, SwarmEvent (StateSyncResponseIn demo_response)), (10 ^ 9, 5, FinaliseTick)])"
proof -
  have "wf_response demo_response" by (simp add: wf_response_def demo_response_def wf_demo_outcome)
  moreover have "ed_public demo_prims [8] \<noteq> zero_key" "ed_valid_key demo_prims (ed_public demo_prims [8])"
    by (simp_all add: demo_prims_def zero_key_def numeral_eq_Suc)
  ultimately show ?thesis
    using demo_one_inv by (intro node_history_inv [OF demo_env_ok]) simp_all
qed

section \<open>The finalisation tick\<close>

lemma tick_idle:
  assumes "\<And>h oq. (h, oq) \<in> set (lru_iter (ev_quorums E) (nd_quorums nd)) \<Longrightarrow>
      \<not> oq_finalised oq \<and> finalise_entry E nd oq = None"
  shows "run_finalise_tick E nd = (nd, [])"
proof -
  have "finalised_results E nd = []" using assms by (force simp: finalised_results_def List.map_filter_def filter_empty_conv)
  moreover have "fold (\<lambda>(h, oq) c. if finalise_entry E nd oq = None then c
      else lru_write (ev_quorums E) h (oq\<lparr>oq_finalised := True\<rparr>) c) es c = c"
    if "set es \<subseteq> set (lru_iter (ev_quorums E) (nd_quorums nd))" for es c
    using that by (induction es) (auto simp: assms)
  then have "mark_finalised E nd = nd_quorums nd" by (simp add: mark_finalised_def)
  moreover have "filter (\<lambda>e. oq_finalised (snd e)) (lru_iter (ev_quorums E) (nd_quorums nd)) = []"
    using assms by (fastforce simp: filter_empty_conv)
  ultimately show ?thesis by (simp add: run_finalise_tick_def drop_finalised_def)
qed

lemma late_quorum_decides:
  "q_config q = quorum_standard \<Longrightarrow> 30 * 10 ^ 9 \<le> elapsed_since now (q_started_at q) \<Longrightarrow> try_finalise P q now t ob k \<noteq> None"
  by (cases "tally q")
    (auto simp: try_finalise_def Let_def quorum_standard_def from_secs_def T_MIN_SECS_def T_MAX_SECS_def)

lemma finalised_distinct: "distinct (map fst xs) \<Longrightarrow>
    distinct (map fst (List.map_filter (\<lambda>(h, x). map_option (Pair h) (g x)) xs))"
  by (induction xs) (force simp: List.map_filter_def split: option.split)+

lemma finalised_exact:
  assumes "quorums_inv (ev_quorums E) (nd_quorums nd)"
  shows "distinct (map fst (finalised_results E nd))"
    and "(h, f) \<in> set (finalised_results E nd) \<longleftrightarrow>
      (\<exists>oq. lru_view (ev_quorums E) (nd_quorums nd) h = Some oq \<and> finalise_entry E nd oq = Some f)"
proof -
  have keys: "lru_keys (ev_quorums E) (nd_quorums nd)" using assms by (simp add: quorums_inv_def)
  then show "distinct (map fst (finalised_results E nd))"
    unfolding finalised_results_def by (intro finalised_distinct) (simp add: lru_keys_def)
  show "(h, f) \<in> set (finalised_results E nd) \<longleftrightarrow>
      (\<exists>oq. lru_view (ev_quorums E) (nd_quorums nd) h = Some oq \<and> finalise_entry E nd oq = Some f)"
    unfolding view_iter [OF keys] by (force simp: finalised_results_def List.map_filter_def)
qed

text \<open>
  C7. What a finalisation tick does, exactly. The quorums it settles are those of the table that
  decide at this moment, each once. For each of them, in turn, the outcome is recorded and, when its
  verdict is valid, every recorded agreeing verification of the result earns its verifier a reward
  of five naming the outcome: the store is the one before under exactly these operations. The tick
  publishes the signed delta of each of these operations, in this order, and nothing else (also when
  the store refuses the outcome because its task or result is missing). The settled quorums leave
  the table and every other one stays as it was, so that none is older than thirty seconds; the
  tracker is told of one finished task per settled quorum; nothing else of the node changes; and a
  second tick at the same moment does nothing.
\<close>

theorem finalise_tick_exact:
  assumes "env_ok E" and "node_inv E nd"
  defines "view \<equiv> lru_view (ev_quorums E)"
    and "decide \<equiv> \<lambda>oq. try_finalise (ev_prims E) (oq_quorum oq) (ev_now E) (unix_now (ev_now E))
      (nd_local_peer_id nd) (nd_signing_key nd)"
  shows "\<exists>fs qs nd'. distinct (map fst fs) \<and>
    (\<forall>h f. (h, f) \<in> set fs \<longleftrightarrow> (\<exists>oq. view (nd_quorums nd) h = Some oq \<and> decide oq = Some f)) \<and>
    nd' = nd\<lparr>nd_quorums := qs, nd_readiness := (task_finished ^^ length fs) (nd_readiness nd),
      nd_shared := ops_run E (nd_shared nd) (settlements E (nd_shared nd) fs)\<rparr> \<and>
    run_finalise_tick E nd = (nd', gossip_ops E nd (settlements E (nd_shared nd) fs)) \<and>
    (\<forall>h. view qs h = (case view (nd_quorums nd) h of None \<Rightarrow> None
      | Some oq \<Rightarrow> if decide oq = None then Some oq else None)) \<and>
    (\<forall>h oq. view qs h = Some oq \<longrightarrow> elapsed_since (ev_now E) (q_started_at (oq_quorum oq)) < 30 * 10 ^ 9) \<and>
    run_finalise_tick E nd' = (nd', [])"
proof -
  let ?L = "ev_quorums E" let ?fs = "finalised_results E nd"
  define nd' where "nd' = fst (run_finalise_tick E nd)"
  have L: "lru_ok ?L" and inv: "quorums_inv ?L (nd_quorums nd)"
    using assms(1,2) by (simp_all add: env_ok_def node_inv_def rest_inv_def)
  have entry: "entry_ok h oq" if "view (nd_quorums nd) h = Some oq" for h oq
    using inv that by (simp add: quorums_inv_def view_def)
  have dec: "finalise_entry E nd oq = decide oq" if "view (nd_quorums nd) h = Some oq" for h oq
    using entry [OF that] by (simp add: finalise_entry_def decide_def entry_ok_def)
  have tick: "nd' = nd\<lparr>nd_quorums := nd_quorums nd', nd_readiness := (task_finished ^^ length ?fs) (nd_readiness nd),
      nd_shared := ops_run E (nd_shared nd) (settlements E (nd_shared nd) ?fs)\<rparr>"
      "run_finalise_tick E nd = (nd', gossip_ops E nd (settlements E (nd_shared nd) ?fs))"
      "nd_quorums nd' = drop_finalised ?L (mark_finalised E nd)"
    by (simp_all add: nd'_def tick_exact Let_def)
  have view: "view (nd_quorums nd') h = (case view (nd_quorums nd) h of None \<Rightarrow> None
      | Some oq \<Rightarrow> if decide oq = None then Some oq else None)" for h
    using tick_view(1) [OF L inv, of h] dec [of h] by (simp add: tick(3) view_def split: option.split)
  then have left: "view (nd_quorums nd) h = Some oq \<and> decide oq = None" if "view (nd_quorums nd') h = Some oq" for h oq
    using that by (auto split: option.splits if_splits)
  have keys: "lru_keys ?L (nd_quorums nd')" using tick_view(2) [OF L inv] by (simp add: tick(3) quorums_inv_def)
  have same: "nd_local_peer_id nd' = nd_local_peer_id nd" "nd_signing_key nd' = nd_signing_key nd"
    by (subst tick(1), simp)+
  have "run_finalise_tick E nd' = (nd', [])"
  proof (rule tick_idle)
    fix h oq
    assume "(h, oq) \<in> set (lru_iter ?L (nd_quorums nd'))"
    with left [of h oq] entry [of h oq] show "\<not> oq_finalised oq \<and> finalise_entry E nd' oq = None"
      by (simp add: view_def view_iter [OF keys] entry_ok_def finalise_entry_def decide_def same)
  qed
  moreover have "elapsed_since (ev_now E) (q_started_at (oq_quorum oq)) < 30 * 10 ^ 9"
    if "view (nd_quorums nd') h = Some oq" for h oq
  proof (rule ccontr)
    assume "\<not> ?thesis"
    moreover have "q_config (oq_quorum oq) = quorum_standard" using left [OF that] entry [of h oq] by (simp add: entry_ok_def)
    ultimately have "decide oq \<noteq> None" unfolding decide_def by (intro late_quorum_decides) simp_all
    with left [OF that] show False by simp
  qed
  moreover have "(h, f) \<in> set ?fs \<longleftrightarrow> (\<exists>oq. view (nd_quorums nd) h = Some oq \<and> decide oq = Some f)" for h f
    using finalised_exact(2) [OF inv, of h f] dec [of h] by (auto simp: view_def)
  ultimately show ?thesis
    using tick(1,2) view finalised_exact(1) [OF inv] by blast
qed

definition demo_open :: open_quorum where
  "demo_open = \<lparr>oq_quorum = quorum_new quorum_standard zero_hash zero_hash 0, oq_finalised = False\<rparr>"

definition demo_busy :: "(demo_cache_counts, demo_cache_quorums) node" where
  "demo_busy = (cmd_start demo_env (PeerId [3]) [8] [] demo_one)\<lparr>nd_quorums := (10000, [(zero_hash, demo_open)])\<rparr>"

lemma demo_busy_view: "lru_view list_lru (nd_quorums demo_busy) h = (if h = zero_hash then Some demo_open else None)"
  by (simp add: demo_busy_def lru_view_def list_lru_def)

lemma demo_busy_inv: "node_inv demo_env demo_busy"
proof -
  have "ed_public demo_prims [8] \<noteq> zero_key" "ed_valid_key demo_prims (ed_public demo_prims [8])"
    by (simp_all add: demo_prims_def zero_key_def numeral_eq_Suc)
  then have "node_inv demo_env (cmd_start demo_env (PeerId [3]) [8] [] demo_one)"
    using demo_one_inv by (intro cmd_start_inv [OF demo_env_ok]) simp_all
  moreover have "entry_ok zero_hash demo_open"
    by (simp add: entry_ok_def demo_open_def quorum_new_def wf_hash_def zero_hash_def)
  then have "quorums_inv list_lru (nd_quorums demo_busy)"
    unfolding quorums_inv_def demo_busy_view
    by (auto simp: demo_busy_def lru_keys_def list_lru_def OPEN_QUORUMS_LRU_CAP_def split: if_splits)
  moreover have "ev_quorums demo_env = list_lru" by (simp add: demo_env_def)
  ultimately show ?thesis by (simp add: node_inv_def rest_inv_def demo_busy_def)
qed

lemma demo_open_decides:
  "\<exists>f. try_finalise P (oq_quorum demo_open) (50 * 10 ^ 9) t ob k = Some f \<and> \<not> is_valid_verdict (jo_verdict (fq_outcome f))"
  by (simp add: try_finalise_def demo_open_def quorum_new_def quorum_standard_def tally_def elapsed_since_def from_secs_def
      M_STANDARD_def T_MIN_SECS_def T_MAX_SECS_def outcome_new_signed_at_def is_valid_verdict_def Let_def)

theorem finalise_tick_exact_witness:
  "\<exists>nd' x. run_finalise_tick demo_env demo_busy = (nd', [gossip_signed demo_env demo_busy (DeltaOutcome x)]) \<and>
     nd_shared nd' = store_step demo_prims demo_one (50, OpOutcome x) \<and> lru_view list_lru (nd_quorums nd') zero_hash = None"
proof -
  have env: "ev_quorums demo_env = list_lru" "ev_now demo_env = 50 * 10 ^ 9" by (simp_all add: demo_env_def)
  have shared: "nd_shared demo_busy = demo_one" by (simp add: demo_busy_def cmd_start_def Let_def)
  obtain f where f: "try_finalise demo_prims (oq_quorum demo_open) (50 * 10 ^ 9) (unix_now (50 * 10 ^ 9)) (nd_local_peer_id demo_busy)
      (nd_signing_key demo_busy) = Some f" "\<not> is_valid_verdict (jo_verdict (fq_outcome f))"
    using demo_open_decides by blast
  obtain fs qs nd' where fs: "distinct (map fst fs)"
    and mem: "\<forall>h g. (h, g) \<in> set fs \<longleftrightarrow> (\<exists>oq. (if h = zero_hash then Some demo_open else None) = Some oq \<and>
        try_finalise demo_prims (oq_quorum oq) (50 * 10 ^ 9) (unix_now (50 * 10 ^ 9)) (nd_local_peer_id demo_busy)
          (nd_signing_key demo_busy) = Some g)"
    and nd': "nd' = demo_busy\<lparr>nd_quorums := qs, nd_readiness := (task_finished ^^ length fs) (nd_readiness demo_busy),
        nd_shared := ops_run demo_env demo_one (settlements demo_env demo_one fs)\<rparr>"
    and tick: "run_finalise_tick demo_env demo_busy = (nd', gossip_ops demo_env demo_busy (settlements demo_env demo_one fs))"
    and view: "\<forall>h. lru_view list_lru qs h = (case if h = zero_hash then Some demo_open else None of None \<Rightarrow> None
        | Some oq \<Rightarrow> if try_finalise demo_prims (oq_quorum oq) (50 * 10 ^ 9) (unix_now (50 * 10 ^ 9)) (nd_local_peer_id demo_busy)
            (nd_signing_key demo_busy) = None then Some oq else None)"
    using finalise_tick_exact [OF demo_env_ok demo_busy_inv, unfolded env demo_busy_view shared demo_node_simps(1)]
    by blast
  have "e \<in> set fs \<longleftrightarrow> e = (zero_hash, f)" for e
    using mem [THEN spec, THEN spec, of "fst e" "snd e"] f(1) by (cases e) (auto split: if_splits)
  then have "set fs = {(zero_hash, f)}" by auto
  then have "fs = [(zero_hash, f)]" using fs by (cases fs; cases "tl fs") auto
  then show ?thesis using tick view [THEN spec, of zero_hash] f
    by (auto simp: settlements_def settlement_def env now_unix_def nd')
qed

section \<open>The weight of a vote\<close>

text \<open>
  Punishing an unknown verifier gives its votes weight: a peer without history weighs nothing in a
  quorum, and after any negative reputation change it weighs the probationary floor of ten.
\<close>

theorem penalty_raises_weight:
  assumes "p \<notin> pr_peer ` set (st_reputation_log st)" and "sint d < 0"
    and "apply_reputation_delta now st p d reason h = Inr st'"
  shows "verifier_weight st p = 0 \<and> verifier_weight st' p = 10"
proof -
  have none: "deltas_of st p = []" using assms(1) by (force simp: deltas_of_def filter_empty_conv)
  have range: "- (2 ^ 31) \<le> sint d" using sint_range_size [of d] by (simp add: word_size)
  have st': "deltas_of st' p = [sint d]" using none assms(3) by (auto simp: apply_reputation_delta_def deltas_of_def)
  then have "reputation_of st' p = Inr (sint d)" using assms(2) range by (simp add: reputation_of_def)
  moreover have "reputation_of st p = Inr 0" using none by (simp add: reputation_of_def)
  ultimately show ?thesis using assms(2) by (simp add: verifier_weight_def PROBATIONARY_REP_FLOOR_def)
qed

theorem penalty_raises_weight_witness:
  "\<exists>st. apply_reputation_delta 5 empty_store (PeerId [1]) (- 7) ''abuse'' None = Inr st \<and>
     verifier_weight empty_store (PeerId [1]) = 0 \<and> verifier_weight st (PeerId [1]) = 10"
proof -
  obtain st where st: "apply_reputation_delta 5 empty_store (PeerId [1]) (- 7) ''abuse'' None = Inr st"
    by (simp add: apply_reputation_delta_def)
  have "sint (- 7 :: i32) < 0" by simp
  from penalty_raises_weight [OF _ this st] st show ?thesis by (auto simp: empty_store_def)
qed

end
