(* ===== verification/Rust_Str.thy ===== *)
theory Rust_Str
  imports Prelude
begin

text \<open>
  What the program uses of Rust's standard library on text and addresses: well-formed UTF-8
  (\<open>String::from_utf8\<close>), character boundaries, trimming, splitting and parsing, big-endian integers and the textual form of IP
  addresses. A \<open>String\<close> is the list of its bytes.
\<close>

section \<open>UTF-8\<close>

type_synonym u16 = "16 word"

definition byte_string :: "bytes \<Rightarrow> string" where
  "byte_string b = map (\<lambda>w. char_of (unat w)) b"

definition ascii_bytes :: "string \<Rightarrow> bytes" where
  "ascii_bytes s = map of_char s"

lemma byte_string_ascii_bytes [simp]: "byte_string (ascii_bytes s) = s"
proof -
  have "char_of (unat (of_char c :: u8)) = c" for c :: char
  proof -
    have "unat (of_nat (of_char c) :: u8) = of_char c" by (simp add: unat_of_nat)
    then show ?thesis by (simp add: of_nat_of_char)
  qed
  then show ?thesis by (simp add: byte_string_def ascii_bytes_def comp_def)
qed

lemma ascii_bytes_inject: "ascii_bytes s = ascii_bytes t \<longleftrightarrow> s = t"
  by (metis byte_string_ascii_bytes)

lemma length_ascii_bytes [simp]: "length (ascii_bytes s) = length s"
  by (simp add: ascii_bytes_def)

definition continuation :: "nat \<Rightarrow> bool" where
  "continuation b \<longleftrightarrow> 0x80 \<le> b \<and> b < 0xC0"

definition lead2 :: "nat \<Rightarrow> bool" where
  "lead2 a \<longleftrightarrow> 0xC2 \<le> a \<and> a \<le> 0xDF"

definition lead3 :: "nat \<Rightarrow> nat \<Rightarrow> bool" where
  "lead3 a b \<longleftrightarrow> (if a = 0xE0 then 0xA0 \<le> b \<and> b \<le> 0xBF else if a = 0xED then 0x80 \<le> b \<and> b \<le> 0x9F
     else 0xE1 \<le> a \<and> a \<le> 0xEF \<and> continuation b)"

definition lead4 :: "nat \<Rightarrow> nat \<Rightarrow> bool" where
  "lead4 a b \<longleftrightarrow> (if a = 0xF0 then 0x90 \<le> b \<and> b \<le> 0xBF else if a = 0xF4 then 0x80 \<le> b \<and> b \<le> 0x8F
     else 0xF1 \<le> a \<and> a \<le> 0xF3 \<and> continuation b)"

text \<open>The well-formed byte sequences: one to four bytes per character.\<close>

inductive utf8 :: "nat list \<Rightarrow> bool" where
  utf8_nil: "utf8 []"
| utf8_1: "a < 0x80 \<Longrightarrow> utf8 r \<Longrightarrow> utf8 (a # r)"
| utf8_2: "lead2 a \<Longrightarrow> continuation b \<Longrightarrow> utf8 r \<Longrightarrow> utf8 (a # b # r)"
| utf8_3: "lead3 a b \<Longrightarrow> continuation c \<Longrightarrow> utf8 r \<Longrightarrow> utf8 (a # b # c # r)"
| utf8_4: "lead4 a b \<Longrightarrow> continuation c \<Longrightarrow> continuation d \<Longrightarrow> utf8 r \<Longrightarrow> utf8 (a # b # c # d # r)"

fun check_utf8 :: "nat list \<Rightarrow> bool" where
  "check_utf8 [] = True"
| "check_utf8 (a # r) = (if a < 0x80 then check_utf8 r
     else case r of [] \<Rightarrow> False
     | b # r2 \<Rightarrow> if lead2 a \<and> continuation b then check_utf8 r2
       else case r2 of [] \<Rightarrow> False
       | c # r3 \<Rightarrow> if lead3 a b \<and> continuation c then check_utf8 r3
         else case r3 of [] \<Rightarrow> False
         | d # r4 \<Rightarrow> lead4 a b \<and> continuation c \<and> continuation d \<and> check_utf8 r4)"

declare check_utf8.simps(2) [simp del]

lemmas utf8_leads = lead2_def lead3_def lead4_def continuation_def

lemma check_utf8_sound: "check_utf8 bs \<Longrightarrow> utf8 bs"
proof (induction bs rule: length_induct)
  case (1 bs)
  show ?case
  proof (cases bs)
    case (Cons a r)
    consider "a < 0x80" "check_utf8 r"
      | b r2 where "r = b # r2" "lead2 a" "continuation b" "check_utf8 r2"
      | b c r3 where "r = b # c # r3" "lead3 a b" "continuation c" "check_utf8 r3"
      | b c d r4 where "r = b # c # d # r4" "lead4 a b" "continuation c" "continuation d" "check_utf8 r4"
      using "1.prems" unfolding Cons check_utf8.simps(2) [of a r] by (auto split: if_splits list.splits)
    then show ?thesis
      using "1.IH" Cons by cases (auto intro: utf8.intros)
  qed (simp add: utf8_nil)
qed

lemma check_utf8_complete: "utf8 bs \<Longrightarrow> check_utf8 bs"
  by (induction rule: utf8.induct) (auto simp: check_utf8.simps(2) utf8_leads split: if_splits)

lemma check_utf8_iff: "utf8 bs \<longleftrightarrow> check_utf8 bs"
  using check_utf8_sound check_utf8_complete by blast

definition char_codes :: "string \<Rightarrow> nat list" where
  "char_codes s = map of_char s"

definition valid_utf8 :: "string \<Rightarrow> bool" where
  "valid_utf8 s \<longleftrightarrow> check_utf8 (char_codes s)"

text \<open>\<open>str::is_char_boundary\<close> for the start of the remaining text.\<close>

definition boundary :: "string \<Rightarrow> bool" where
  "boundary s \<longleftrightarrow> (case s of [] \<Rightarrow> True | c # _ \<Rightarrow> \<not> continuation (of_char c))"

lemma utf8_boundary: "utf8 bs \<Longrightarrow> bs = [] \<or> \<not> continuation (hd bs)"
  by (induction rule: utf8.induct) (auto simp: utf8_leads split: if_splits)

lemma valid_utf8_boundary: "valid_utf8 s \<Longrightarrow> boundary s"
  using utf8_boundary [of "char_codes s"]
  by (cases s) (auto simp: valid_utf8_def boundary_def char_codes_def simp flip: check_utf8_iff)

text \<open>
  \<open>String::from_utf8_lossy\<close>: well-formed characters are kept, every maximal ill-formed part becomes the
  replacement character U+FFFD.
\<close>

fun char_length :: "nat list \<Rightarrow> nat option" where
  "char_length [] = None"
| "char_length (a # r) = (if a < 0x80 then Some 1
     else case r of [] \<Rightarrow> None
     | b # r2 \<Rightarrow> if lead2 a \<and> continuation b then Some 2
       else case r2 of [] \<Rightarrow> None
       | c # r3 \<Rightarrow> if lead3 a b \<and> continuation c then Some 3
         else case r3 of [] \<Rightarrow> None
         | d # r4 \<Rightarrow> if lead4 a b \<and> continuation c \<and> continuation d then Some 4 else None)"

definition bad_length :: "nat list \<Rightarrow> nat" where
  "bad_length bs = (case bs of
     a # b # r \<Rightarrow> if lead3 a b then 2
       else if lead4 a b then (case r of c # _ \<Rightarrow> if continuation c then 3 else 2 | [] \<Rightarrow> 2)
       else 1
   | _ \<Rightarrow> 1)"

lemma char_length_pos: "char_length bs = Some n \<Longrightarrow> 0 < n"
  by (cases bs) (auto split: if_splits list.splits)

lemma bad_length_pos: "0 < bad_length bs"
  by (auto simp: bad_length_def split: list.splits)

function lossy :: "nat list \<Rightarrow> nat list" where
  "lossy bs = (if bs = [] then []
     else case char_length bs of
       Some n \<Rightarrow> take n bs @ lossy (drop n bs)
     | None \<Rightarrow> [0xEF, 0xBF, 0xBD] @ lossy (drop (bad_length bs) bs))"
  by pat_completeness auto
termination
  by (relation "measure length") (auto dest: char_length_pos simp: bad_length_pos)

declare lossy.simps [simp del]

definition from_utf8_lossy :: "bytes \<Rightarrow> string" where
  "from_utf8_lossy b = map char_of (lossy (map unat b))"

section \<open>Trimming, splitting and numbers\<close>

text \<open>The UTF-8 encodings of the characters with the property \<open>White_Space\<close>, which \<open>str::trim\<close> removes.\<close>

definition whitespace :: "string list" where
  "whitespace = [
     [CHR 0x09], [CHR 0x0A], [CHR 0x0B], [CHR 0x0C], [CHR 0x0D], [CHR 0x20],
     [CHR 0xC2, CHR 0x85], [CHR 0xC2, CHR 0xA0], [CHR 0xE1, CHR 0x9A, CHR 0x80],
     [CHR 0xE2, CHR 0x80, CHR 0x80], [CHR 0xE2, CHR 0x80, CHR 0x81], [CHR 0xE2, CHR 0x80, CHR 0x82],
     [CHR 0xE2, CHR 0x80, CHR 0x83], [CHR 0xE2, CHR 0x80, CHR 0x84], [CHR 0xE2, CHR 0x80, CHR 0x85],
     [CHR 0xE2, CHR 0x80, CHR 0x86], [CHR 0xE2, CHR 0x80, CHR 0x87], [CHR 0xE2, CHR 0x80, CHR 0x88],
     [CHR 0xE2, CHR 0x80, CHR 0x89], [CHR 0xE2, CHR 0x80, CHR 0x8A], [CHR 0xE2, CHR 0x80, CHR 0xA8],
     [CHR 0xE2, CHR 0x80, CHR 0xA9], [CHR 0xE2, CHR 0x80, CHR 0xAF], [CHR 0xE2, CHR 0x81, CHR 0x9F],
     [CHR 0xE3, CHR 0x80, CHR 0x80]]"

definition strip_one :: "string \<Rightarrow> string option" where
  "strip_one s = map_option (\<lambda>w. drop (length w) s) (List.find (\<lambda>w. take (length w) s = w) whitespace)"

definition strip_one_end :: "string \<Rightarrow> string option" where
  "strip_one_end s = map_option (\<lambda>w. take (length s - length w) s)
     (List.find (\<lambda>w. length w \<le> length s \<and> drop (length s - length w) s = w) whitespace)"

lemma whitespace_nonempty: "w \<in> set whitespace \<Longrightarrow> w \<noteq> []"
  by (auto simp: whitespace_def)

lemma found_whitespace: "List.find P whitespace = Some w \<Longrightarrow> 0 < length w \<and> P w"
  using find_SomeD [of P whitespace w] whitespace_nonempty by auto

lemma strip_one_shorter: "strip_one s = Some s' \<Longrightarrow> length s' < length s"
proof -
  assume "strip_one s = Some s'"
  then obtain w where w: "0 < length w" "take (length w) s = w" "s' = drop (length w) s"
    by (auto simp: strip_one_def dest: found_whitespace)
  then have "s \<noteq> []" by auto
  with w show ?thesis by simp
qed

lemma strip_one_end_shorter: "strip_one_end s = Some s' \<Longrightarrow> length s' < length s"
proof -
  assume "strip_one_end s = Some s'"
  then obtain w where w: "List.find (\<lambda>w. length w \<le> length s \<and> drop (length s - length w) s = w) whitespace = Some w"
      "s' = take (length s - length w) s"
    by (auto simp: strip_one_end_def)
  from found_whitespace [OF w(1)] have "0 < length w" "length w \<le> length s" by blast+
  then show ?thesis unfolding w(2) by (simp del: length_greater_0_conv)
qed

function trim_start :: "string \<Rightarrow> string" where
  "trim_start s = (case strip_one s of None \<Rightarrow> s | Some s' \<Rightarrow> trim_start s')"
  by pat_completeness auto
termination by (relation "measure length") (auto intro: strip_one_shorter)

function trim_end :: "string \<Rightarrow> string" where
  "trim_end s = (case strip_one_end s of None \<Rightarrow> s | Some s' \<Rightarrow> trim_end s')"
  by pat_completeness auto
termination by (relation "measure length") (auto intro: strip_one_end_shorter)

declare trim_start.simps [simp del] trim_end.simps [simp del]

definition trim :: "string \<Rightarrow> string" where
  "trim s = trim_end (trim_start s)"

fun split_on :: "char \<Rightarrow> string \<Rightarrow> string list" where
  "split_on c [] = [[]]"
| "split_on c (x # xs) = (if x = c then [] # split_on c xs
     else (case split_on c xs of [] \<Rightarrow> [[x]] | s # ss \<Rightarrow> (x # s) # ss))"

text \<open>
  \<open>str::lines\<close>: the line feeds end lines, with a carriage return in front of them; a rest without one is a
  line, unless it is empty.
\<close>

definition strip_cr :: "string \<Rightarrow> string" where
  "strip_cr l = (if l \<noteq> [] \<and> last l = CHR 0x0D then butlast l else l)"

definition text_lines :: "string \<Rightarrow> string list" where
  "text_lines s = (let parts = split_on (CHR 0x0A) s
     in map strip_cr (butlast parts) @ (if last parts = [] then [] else [last parts]))"

definition is_digit :: "char \<Rightarrow> bool" where
  "is_digit c \<longleftrightarrow> 48 \<le> (of_char c :: nat) \<and> (of_char c :: nat) \<le> 57"

definition decimal :: "string \<Rightarrow> nat" where
  "decimal s = foldl (\<lambda>n c. 10 * n + (of_char c - 48)) 0 s"

text \<open>\<open>str::parse\<close> at an unsigned type: decimal digits with an optional plus sign, below the bound.\<close>

definition parse_unsigned :: "nat \<Rightarrow> string \<Rightarrow> nat option" where
  "parse_unsigned bound s =
     (let d = (case s of c # cs \<Rightarrow> if c = CHR ''+'' then cs else s | [] \<Rightarrow> s)
      in if d \<noteq> [] \<and> list_all is_digit d \<and> decimal d < bound then Some (decimal d) else None)"

abbreviation parse_usize :: "string \<Rightarrow> nat option" where
  "parse_usize \<equiv> parse_unsigned (2 ^ 64)"

abbreviation parse_u16 :: "string \<Rightarrow> nat option" where
  "parse_u16 \<equiv> parse_unsigned (2 ^ 16)"

text \<open>\<open>str::find\<close> of a character, and \<open>str::rsplit_once\<close>.\<close>

definition before_char :: "char \<Rightarrow> string \<Rightarrow> string" where
  "before_char c s = takeWhile (\<lambda>x. x \<noteq> c) s"

definition rsplit_once :: "char \<Rightarrow> string \<Rightarrow> (string \<times> string) option" where
  "rsplit_once c s =
     (if c \<in> set s then Some (rev (drop 1 (dropWhile (\<lambda>x. x \<noteq> c) (rev s))), rev (takeWhile (\<lambda>x. x \<noteq> c) (rev s)))
      else None)"

text \<open>\<open>str::split_once\<close> at the first occurrence of a text, and \<open>str::contains\<close>.\<close>

fun split_once :: "string \<Rightarrow> string \<Rightarrow> (string \<times> string) option" where
  "split_once p s = (if take (length p) s = p then Some ([], drop (length p) s)
     else case s of [] \<Rightarrow> None | c # r \<Rightarrow> map_option (apfst (Cons c)) (split_once p r))"

declare split_once.simps [simp del]

definition contains_str :: "string \<Rightarrow> string \<Rightarrow> bool" where
  "contains_str s p \<longleftrightarrow> split_once p s \<noteq> None"

text \<open>\<open>str::strip_prefix\<close> and \<open>str::strip_suffix\<close>.\<close>

definition strip_prefix :: "string \<Rightarrow> string \<Rightarrow> string option" where
  "strip_prefix p s = (if take (length p) s = p then Some (drop (length p) s) else None)"

definition strip_suffix :: "string \<Rightarrow> string \<Rightarrow> string option" where
  "strip_suffix p s = map_option rev (strip_prefix (rev p) (rev s))"

section \<open>Big-endian integers\<close>

definition be_bytes :: "nat \<Rightarrow> 'a::len word \<Rightarrow> bytes" where
  "be_bytes n w = map (\<lambda>i. ucast (drop_bit (8 * i) w)) (rev [0..<n])"

definition from_be16 :: "u8 \<Rightarrow> u8 \<Rightarrow> u16" where
  "from_be16 a b = word_cat a b"

lemma length_be_bytes [simp]: "length (be_bytes n w) = n"
  by (simp add: be_bytes_def)

lemma be_bytes_inject:
  assumes "be_bytes n v = be_bytes n w" and "LENGTH('a) \<le> 8 * n"
  shows "v = (w :: 'a::len word)"
proof (rule bit_word_eqI)
  fix j
  assume j: "j < LENGTH('a)"
  have "map (\<lambda>i. ucast (drop_bit (8 * i) v) :: u8) [0..<n] = map (\<lambda>i. ucast (drop_bit (8 * i) w)) [0..<n]"
    using assms(1) by (simp add: be_bytes_def rev_map [symmetric])
  moreover have "j div 8 < n" using j assms(2) by simp
  ultimately have "(ucast (drop_bit (8 * (j div 8)) v) :: u8) = ucast (drop_bit (8 * (j div 8)) w)"
    by (simp add: map_eq_conv)
  then have "bit (ucast (drop_bit (8 * (j div 8)) v) :: u8) (j mod 8)
      \<longleftrightarrow> bit (ucast (drop_bit (8 * (j div 8)) w) :: u8) (j mod 8)" by simp
  then show "bit v j = bit w j" by (simp add: bit_ucast_iff bit_drop_bit_eq)
qed

lemma be_bytes_2: "be_bytes 2 p = [ucast (drop_bit 8 p), ucast (p :: u16)]"
  by (simp add: be_bytes_def numeral_2_eq_2)

lemma from_be16_be_bytes: "from_be16 (ucast (drop_bit 8 p)) (ucast p) = (p :: u16)"
  by (rule bit_word_eqI) (auto simp: from_be16_def bit_word_cat_iff bit_ucast_iff bit_drop_bit_eq word_size)

lemma be_bytes_from_be16: "be_bytes 2 (from_be16 a b) = [a, b]"
proof -
  have "(ucast (drop_bit 8 (from_be16 a b)) :: u8) = a"
    by (rule bit_word_eqI) (auto simp: from_be16_def bit_word_cat_iff bit_ucast_iff bit_drop_bit_eq word_size)
  moreover have "(ucast (from_be16 a b) :: u8) = b"
    by (rule bit_word_eqI) (auto simp: from_be16_def bit_word_cat_iff bit_ucast_iff word_size)
  ultimately show ?thesis by (simp add: be_bytes_2)
qed

section \<open>Addresses and digests as text\<close>

definition digit :: "nat \<Rightarrow> char" where
  "digit n = ''0123456789abcdef'' ! n"

fun show_base :: "nat \<Rightarrow> nat \<Rightarrow> string" where
  "show_base b n = (if b < 2 \<or> n < b then [digit n] else show_base b (n div b) @ [digit (n mod b)])"

declare show_base.simps [simp del]

text \<open>Two lower-case digits per byte.\<close>

definition hex_lower :: "bytes \<Rightarrow> string" where
  "hex_lower b = concat (map (\<lambda>w. [digit (unat w div 16), digit (unat w mod 16)]) b)"

lemma length_hex_lower: "length (hex_lower b) = 2 * length b"
  by (induction b) (simp_all add: hex_lower_def)

fun join_with :: "string \<Rightarrow> string list \<Rightarrow> string" where
  "join_with sep [] = []"
| "join_with sep [x] = x"
| "join_with sep (x # xs) = x @ sep @ join_with sep xs"

text \<open>\<open>Ipv4Addr::to_string\<close>: dotted decimal.\<close>

definition show_ipv4 :: "bytes \<Rightarrow> string" where
  "show_ipv4 b = join_with ''.'' (map (\<lambda>w. show_base 10 (unat w)) b)"

text \<open>
  \<open>Ipv6Addr::to_string\<close>: eight lower-case hexadecimal segments, the first longest run of at least two
  zero segments written \<open>::\<close>, and an IPv4-mapped address with its dotted suffix.
\<close>

fun segments :: "bytes \<Rightarrow> nat list" where
  "segments (a # b # r) = (256 * unat a + unat b) # segments r"
| "segments _ = []"

fun longest_run :: "nat list \<Rightarrow> nat \<Rightarrow> nat \<times> nat \<Rightarrow> nat \<times> nat \<Rightarrow> nat \<times> nat" where
  "longest_run [] i cur best = best"
| "longest_run (s # ss) i (start, len) best =
     (if s = 0 then
        let cur = (if len = 0 then i else start, Suc len)
        in longest_run ss (Suc i) cur (if snd best < snd cur then cur else best)
      else longest_run ss (Suc i) (0, 0) best)"

definition show_segments :: "nat list \<Rightarrow> string" where
  "show_segments ss = join_with '':'' (map (show_base 16) ss)"

definition show_ipv6 :: "bytes \<Rightarrow> string" where
  "show_ipv6 b =
     (if take 10 b = replicate 10 0 \<and> take 2 (drop 10 b) = [0xFF, 0xFF]
      then ''::ffff:'' @ show_ipv4 (drop 12 b)
      else let ss = segments b; (start, len) = longest_run ss 0 (0, 0) (0, 0)
           in if 1 < len then show_segments (take start ss) @ ''::'' @ show_segments (drop (start + len) ss)
              else show_segments ss)"

end
