(* ===== verification/Json.thy ===== *)
theory Json
  imports Rust_Str "HOL-Library.Monad_Syntax"
begin

text \<open>
  What the agent runtime uses of JSON values (\<open>serde_json::Value\<close>). The number type is a parameter: the code passes numbers through.
\<close>

section \<open>Values\<close>

datatype 'n json =
    JNull
  | JBool bool
  | JNumber 'n
  | JString string
  | JArray "'n json list"
  | JObject "(string \<times> 'n json) list"

text \<open>\<open>Value::get\<close> with a string index: a key of an object.\<close>

definition json_get :: "'n json \<Rightarrow> string \<Rightarrow> 'n json option" where
  "json_get v k = (case v of JObject m \<Rightarrow> map_of m k | _ \<Rightarrow> None)"

definition walk_seg :: "'n json \<Rightarrow> string \<Rightarrow> 'n json option" where
  "walk_seg cur seg = (case (cur, parse_usize seg) of
     (JArray arr, Some idx) \<Rightarrow> (if idx < length arr then Some (arr ! idx) else None)
   | _ \<Rightarrow> json_get cur seg)"

fun walk :: "'n json \<Rightarrow> string list \<Rightarrow> 'n json option" where
  "walk base [] = Some base"
| "walk base (seg # segs) = Option.bind (walk_seg base seg) (\<lambda>v. walk v segs)"

lemma walk_append: "walk v (xs @ ys) = Option.bind (walk v xs) (\<lambda>w. walk w ys)"
  by (induction xs arbitrary: v) (auto split: bind_splits)

end
