(* ===== verification/Workflow.thy ===== *)
theory Workflow
  imports Json Wire
begin

text \<open>
  The workflow chainer of \<open>server/parseh-agent-runtime/src/workflow.rs\<close>: validation of a step graph,
  its topological order by Kahn's algorithm, the resolution of input mappings, and the run of the
  steps. Executing one agent is an argument of the run (\<open>AgentExecutor::execute\<close> over its backend).
  \<open>None\<close> stands for a panic (an index out of range, a missing map key, an underflow).
\<close>

type_synonym agent_id = chash

record 'n workflow_step =
  ws_step_id :: string
  ws_agent_id :: agent_id
  ws_input_mapping :: "'n json"
  ws_depends_on :: "string list"

type_synonym 'n workflow = "'n workflow_step list"

text \<open>\<open>AgentNotFound\<close> keeps the agent id itself where the code keeps its hexadecimal rendering.\<close>

datatype 'e workflow_error =
    DuplicateStepId string
  | UnknownDependency string string
  | CycleDetected string
  | AgentNotFound string agent_id
  | UndefinedMappingPath string string
  | EmptyWorkflow
  | StepFailed string 'e

record 'n workflow_result =
  wr_step_outputs :: "string \<rightharpoonup> 'n json"
  wr_final_step_id :: string
  wr_final_output :: "'n json"

section \<open>Construction\<close>

fun first_duplicate :: "string set \<Rightarrow> string list \<Rightarrow> string option" where
  "first_duplicate seen [] = None"
| "first_duplicate seen (x # xs) = (if x \<in> seen then Some x else first_duplicate (insert x seen) xs)"

definition unknown_dependency :: "'n workflow \<Rightarrow> (string \<times> string) option" where
  "unknown_dependency steps =
     List.find (\<lambda>(s, d). d \<notin> set (map ws_step_id steps))
       (concat (map (\<lambda>s. map (Pair (ws_step_id s)) (ws_depends_on s)) steps))"

definition workflow_new :: "'n workflow \<Rightarrow> 'e workflow_error + 'n workflow" where
  "workflow_new steps =
     (if steps = [] then Inl EmptyWorkflow
      else case first_duplicate {} (map ws_step_id steps) of
        Some x \<Rightarrow> Inl (DuplicateStepId x)
      | None \<Rightarrow> (case unknown_dependency steps of
          Some (s, d) \<Rightarrow> Inl (UnknownDependency s d)
        | None \<Rightarrow> Inr steps))"

section \<open>Topological order\<close>

text \<open>The map from step ids to positions; \<open>collect\<close> keeps the last entry of a repeated key.\<close>

definition step_index :: "'n workflow \<Rightarrow> string \<Rightarrow> nat option" where
  "step_index steps = map_of (rev (zip (map ws_step_id steps) [0..<length steps]))"

text \<open>The positions a step depends on, in order; \<open>None\<close> if one is missing (\<open>index[d]\<close> panics).\<close>

definition dep_positions :: "'n workflow \<Rightarrow> 'n workflow_step \<Rightarrow> nat list option" where
  "dep_positions steps s = those (map (step_index steps) (ws_depends_on s))"

definition add_edge :: "nat \<Rightarrow> nat \<Rightarrow> nat list list \<Rightarrow> nat list list" where
  "add_edge i di adj = adj[di := adj ! di @ [i]]"

fun build_graph :: "nat \<Rightarrow> nat list list \<Rightarrow> nat list list \<times> nat list \<Rightarrow> nat list list \<times> nat list" where
  "build_graph i [] (adj, indegree) = (adj, indegree)"
| "build_graph i (ds # dss) (adj, indegree) =
     build_graph (Suc i) dss (fold (add_edge i) ds adj, indegree[i := indegree ! i + length ds])"

text \<open>\<open>indegree[m] -= 1\<close> for every successor; those that reach zero become ready.\<close>

fun relax :: "nat list \<Rightarrow> nat list \<Rightarrow> (nat list \<times> nat list) option" where
  "relax [] indegree = Some (indegree, [])"
| "relax (m # ms) indegree =
     (if length indegree \<le> m \<or> indegree ! m = 0 then None
      else let indegree' = indegree[m := indegree ! m - 1]
           in map_option (\<lambda>(d, r). (d, if indegree' ! m = 0 then m # r else r)) (relax ms indegree'))"

lemma sum_list_decrement:
  assumes "m < length d" and "d ! m \<noteq> 0"
  shows "sum_list (d[m := d ! m - 1]) < sum_list (d :: nat list)"
proof -
  have "d ! m \<le> sum_list d" using assms(1) by (simp add: elem_le_sum_list)
  then show ?thesis using assms by (simp add: sum_list_update)
qed

lemma relax_measure: "relax ms d = Some (d', r) \<Longrightarrow> sum_list d' + length r \<le> sum_list d"
proof (induction ms arbitrary: d d' r)
  case (Cons m ms)
  then have m: "m < length d" "d ! m \<noteq> 0" by (auto split: if_splits)
  with Cons.prems obtain r' where r': "relax ms (d[m := d ! m - 1]) = Some (d', r')" "length r \<le> length r' + 1"
    by (auto simp: Let_def split: if_splits)
  from Cons.IH [OF this(1)] this(2) sum_list_decrement [OF m] show ?case by linarith
qed simp

function (sequential) kahn :: "nat list list \<Rightarrow> nat list \<Rightarrow> nat list \<Rightarrow> nat list \<Rightarrow> nat list option" where
  "kahn adj indegree [] order = Some order"
| "kahn adj indegree (n # ready) order =
     (case relax (adj ! n) indegree of
        None \<Rightarrow> None
      | Some (indegree', new) \<Rightarrow> kahn adj indegree' (ready @ new) (order @ [n]))"
  by pat_completeness auto
termination
  by (relation "measure (\<lambda>(adj, d, ready, order). sum_list d + length ready)") (auto dest: relax_measure)

definition topo_order :: "'n workflow \<Rightarrow> ('e workflow_error + nat list) option" where
  "topo_order steps = do {
     deps \<leftarrow> those (map (dep_positions steps) steps);
     let n = length steps;
     let (adj, indegree) = build_graph 0 deps (replicate n [], replicate n 0);
     order \<leftarrow> kahn adj indegree (filter (\<lambda>i. indegree ! i = 0) [0..<n]) [];
     Some (if length order \<noteq> n
       then Inl (CycleDetected (join_with '', '' (map (\<lambda>i. ws_step_id (steps ! i)) (filter (\<lambda>i. i \<notin> set order) [0..<n]))))
       else Inr order)
   }"

section \<open>Input mappings\<close>

definition whole_placeholder :: "string \<Rightarrow> string option" where
  "whole_placeholder s = do {
     t \<leftarrow> strip_prefix ''{{'' (trim s);
     inner \<leftarrow> strip_suffix ''}}'' t;
     Some (trim inner)
   }"

text \<open>Step outputs are a map in key order (\<open>BTreeMap\<close>); only its lookups matter here.\<close>

definition resolve_path :: "string \<Rightarrow> 'n json \<Rightarrow> (string \<rightharpoonup> 'n json) \<Rightarrow> 'n json option" where
  "resolve_path path initial outputs = (case split_on CHR ''.'' path of
     [] \<Rightarrow> None
   | s # segs \<Rightarrow>
       if s = ''initial'' then walk initial segs
       else if s = ''steps'' then
         (case segs of
            step_id # out # rest \<Rightarrow>
              if out \<noteq> ''output'' then None
              else Option.bind (outputs step_id) (\<lambda>base. walk base rest)
          | _ \<Rightarrow> None)
       else None)"

text \<open>The first error of a sequence of conversions ends it (\<open>?\<close> inside a \<open>for\<close> loop).\<close>

fun collect_results :: "('e + 'a) list \<Rightarrow> 'e + 'a list" where
  "collect_results [] = Inr []"
| "collect_results (Inl e # rs) = Inl e"
| "collect_results (Inr x # rs) = (case collect_results rs of Inl e \<Rightarrow> Inl e | Inr xs \<Rightarrow> Inr (x # xs))"

fun resolve_mapping :: "'n json \<Rightarrow> 'n json \<Rightarrow> (string \<rightharpoonup> 'n json) \<Rightarrow> string
     \<Rightarrow> 'e workflow_error + 'n json" where
  "resolve_mapping (JString s) initial outputs step_id = (case whole_placeholder s of
     Some path \<Rightarrow> (case resolve_path path initial outputs of
        Some v \<Rightarrow> Inr v
      | None \<Rightarrow> Inl (UndefinedMappingPath step_id path))
   | None \<Rightarrow> Inr (JString s))"
| "resolve_mapping (JArray arr) initial outputs step_id =
     (case collect_results (map (\<lambda>v. resolve_mapping v initial outputs step_id) arr) of
        Inl e \<Rightarrow> Inl e | Inr out \<Rightarrow> Inr (JArray out))"
| "resolve_mapping (JObject m) initial outputs step_id =
     (case collect_results (map (\<lambda>(k, v). resolve_mapping v initial outputs step_id) m) of
        Inl e \<Rightarrow> Inl e | Inr out \<Rightarrow> Inr (JObject (zip (map fst m) out)))"
| "resolve_mapping other initial outputs step_id = Inr other"

section \<open>Running the steps\<close>

text \<open>
  \<open>execute agent input\<close> stands for \<open>executor.execute(agent, spec, input)\<close> with the uniform \<open>spec\<close>; the
  agent definitions stay abstract. \<open>registry\<close> is the map of agents the caller passes.
\<close>

fun run_order :: "(agent_id \<rightharpoonup> 'a) \<Rightarrow> ('a \<Rightarrow> 'n json \<Rightarrow> 'e + 'n json) \<Rightarrow> 'n json \<Rightarrow> 'n workflow \<Rightarrow> nat list
     \<Rightarrow> (string \<rightharpoonup> 'n json) \<Rightarrow> 'e workflow_error + (string \<rightharpoonup> 'n json)" where
  "run_order registry execute initial steps [] outputs = Inr outputs"
| "run_order registry execute initial steps (idx # order) outputs =
     (let step = steps ! idx in
      case registry (ws_agent_id step) of
        None \<Rightarrow> Inl (AgentNotFound (ws_step_id step) (ws_agent_id step))
      | Some agent \<Rightarrow>
          (case resolve_mapping (ws_input_mapping step) initial outputs (ws_step_id step) of
             Inl e \<Rightarrow> Inl e
           | Inr input \<Rightarrow>
               (case execute agent input of
                  Inl e \<Rightarrow> Inl (StepFailed (ws_step_id step) e)
                | Inr out \<Rightarrow> run_order registry execute initial steps order (outputs(ws_step_id step \<mapsto> out)))))"

definition workflow_run :: "(agent_id \<rightharpoonup> 'a) \<Rightarrow> ('a \<Rightarrow> 'n json \<Rightarrow> 'e + 'n json) \<Rightarrow> 'n json \<Rightarrow> 'n workflow
     \<Rightarrow> ('e workflow_error + 'n workflow_result) option" where
  "workflow_run registry execute initial steps = do {
     t \<leftarrow> topo_order steps;
     Some (case t of
       Inl e \<Rightarrow> Inl e
     | Inr order \<Rightarrow>
         (case run_order registry execute initial steps order Map.empty of
            Inl e \<Rightarrow> Inl e
          | Inr outputs \<Rightarrow>
              (if order = [] then Inl EmptyWorkflow
               else let final_step_id = ws_step_id (steps ! last order)
                    in Inr \<lparr> wr_step_outputs = outputs, wr_final_step_id = final_step_id,
                         wr_final_output = (case outputs final_step_id of Some v \<Rightarrow> v | None \<Rightarrow> JNull) \<rparr>)))
   }"

end
