(* ===== verification/Workflow_Properties.thy ===== *)
theory Workflow_Properties
  imports Workflow
begin

text \<open>
  Correctness of the workflow chainer. Kahn's loop keeps an invariant (every emitted step has its
  dependencies emitted before it, the in-degree of a step counts the dependencies still missing, a
  step is emitted or ready exactly when that count is zero), from which the order is a topological
  one, cycles are reported exactly, and no index or map access panics.
\<close>

section \<open>The graph of a step list\<close>

lemma fold_add_edge_length [simp]: "length (fold (add_edge i) ds adj) = length adj"
  by (induction ds arbitrary: adj) (simp_all add: add_edge_def)

lemma fold_add_edge_count:
  "d < length adj \<Longrightarrow> count_list (fold (add_edge i) ds adj ! d) m
     = count_list (adj ! d) m + (if m = i then count_list ds d else 0)"
  by (induction ds arbitrary: adj) (auto simp: add_edge_def nth_list_update)

lemma build_graph_length:
  "build_graph i dss (adj, ind) = (adj', ind') \<Longrightarrow> length adj' = length adj \<and> length ind' = length ind"
proof (induction dss arbitrary: i adj ind)
  case (Cons ds dss)
  from Cons.prems have "build_graph (Suc i) dss (fold (add_edge i) ds adj, ind[i := ind ! i + length ds]) = (adj', ind')"
    by simp
  from Cons.IH [OF this] show ?case by simp
qed simp

lemma build_graph_indegree:
  "build_graph i dss (adj, ind) = (adj', ind') \<Longrightarrow> j < length ind \<Longrightarrow>
     ind' ! j = ind ! j + (if i \<le> j \<and> j < i + length dss then length (dss ! (j - i)) else 0)"
proof (induction dss arbitrary: i adj ind)
  case (Cons ds dss)
  from Cons.IH [of "Suc i" "fold (add_edge i) ds adj" "ind[i := ind ! i + length ds]"] Cons.prems
  have "ind' ! j = ind[i := ind ! i + length ds] ! j
      + (if Suc i \<le> j \<and> j < Suc i + length dss then length (dss ! (j - Suc i)) else 0)" by simp
  with Cons.prems(2) show ?case
    by (cases "j = i") (auto simp: nth_list_update nth_Cons' Suc_le_eq)
qed auto

lemma build_graph_count:
  "build_graph i dss (adj, ind) = (adj', ind') \<Longrightarrow> d < length adj \<Longrightarrow>
     count_list (adj' ! d) m = count_list (adj ! d) m
       + (if i \<le> m \<and> m < i + length dss then count_list (dss ! (m - i)) d else 0)"
proof (induction dss arbitrary: i adj ind)
  case (Cons ds dss)
  from Cons.IH [of "Suc i" "fold (add_edge i) ds adj" "ind[i := ind ! i + length ds]"] Cons.prems
  have "count_list (adj' ! d) m = count_list (fold (add_edge i) ds adj ! d) m
      + (if Suc i \<le> m \<and> m < Suc i + length dss then count_list (dss ! (m - Suc i)) d else 0)" by simp
  with Cons.prems(2) show ?case
    by (cases "m = i") (auto simp: fold_add_edge_count nth_Cons' Suc_le_eq)
qed auto

lemma relax_exact:
  assumes "\<And>m. m \<in> set ms \<Longrightarrow> m < length d" and "\<And>m. count_list ms m \<le> d ! m \<or> m \<notin> set ms"
  shows "\<exists>d' r. relax ms d = Some (d', r) \<and> length d' = length d \<and> distinct r
    \<and> (\<forall>m < length d. d' ! m = d ! m - count_list ms m) \<and> set r = {m \<in> set ms. d' ! m = 0}"
  using assms
proof (induction ms arbitrary: d)
  case (Cons m ms)
  let ?d1 = "d[m := d ! m - 1]"
  have m: "m < length d" "count_list ms m < d ! m"
    using Cons.prems(1) [of m] Cons.prems(2) [of m] by auto
  have "count_list ms k \<le> ?d1 ! k \<or> k \<notin> set ms" for k
    using m Cons.prems(2) [of k] by (cases "k = m") auto
  then obtain d' r where IH: "relax ms ?d1 = Some (d', r)" "length d' = length ?d1" "distinct r"
      "\<And>k. k < length ?d1 \<Longrightarrow> d' ! k = ?d1 ! k - count_list ms k" "set r = {k \<in> set ms. d' ! k = 0}"
    using Cons.IH [of ?d1] Cons.prems(1) by auto
  have dm: "d' ! m = d ! m - 1 - count_list ms m" using IH(4) [of m] m by simp
  have notin: "?d1 ! m = 0 \<Longrightarrow> m \<notin> set ms" using m by (simp flip: count_list_0_iff)
  have "\<forall>k < length d. d' ! k = d ! k - count_list (m # ms) k"
    using IH(4) m(1) by (auto simp: nth_list_update)
  moreover have "relax (m # ms) d = Some (d', if ?d1 ! m = 0 then m # r else r)"
    using m IH(1) by simp
  moreover have "set (if ?d1 ! m = 0 then m # r else r) = {k \<in> set (m # ms). d' ! k = 0}"
  proof (cases "?d1 ! m = 0")
    case True
    then show ?thesis using dm m IH(5) by auto
  next
    case False
    then have "d' ! m = 0 \<Longrightarrow> m \<in> set ms" using dm m by (cases "m \<in> set ms") (auto simp: count_list_0_iff)
    with False IH(5) show ?thesis by auto
  qed
  moreover have "distinct (if ?d1 ! m = 0 then m # r else r)" using notin IH(3,5) by auto
  ultimately show ?case using IH(2) by auto
qed simp

section \<open>The invariant of Kahn's loop\<close>

text \<open>\<open>deps ! m\<close> lists the positions step \<open>m\<close> depends on.\<close>

definition missing :: "nat list list \<Rightarrow> nat set \<Rightarrow> nat \<Rightarrow> nat" where
  "missing deps done m = length (filter (\<lambda>d. d \<notin> done) (deps ! m))"

definition scheduled :: "nat list list \<Rightarrow> nat list \<Rightarrow> bool" where
  "scheduled deps order \<longleftrightarrow> (\<forall>k < length order. set (deps ! (order ! k)) \<subseteq> set (take k order))"

definition kahn_inv :: "nat list list \<Rightarrow> nat list \<Rightarrow> nat list \<Rightarrow> nat list \<Rightarrow> bool" where
  "kahn_inv deps ind ready order \<longleftrightarrow>
     distinct (order @ ready) \<and> set (order @ ready) \<subseteq> {..<length deps} \<and> length ind = length deps \<and>
     (\<forall>m < length deps. ind ! m = missing deps (set order) m) \<and>
     (\<forall>m < length deps. m \<in> set (order @ ready) \<longleftrightarrow> ind ! m = 0) \<and> scheduled deps order"

lemma missing_insert:
  "k \<notin> done \<Longrightarrow> missing deps done m = missing deps (insert k done) m + count_list (deps ! m) k"
proof -
  assume k: "k \<notin> done"
  have "length (filter (\<lambda>d. d \<notin> done) ds) = length (filter (\<lambda>d. d \<notin> insert k done) ds) + count_list ds k" for ds
    using k by (induction ds) auto
  then show ?thesis unfolding missing_def .
qed

lemma missing_zero: "missing deps done m = 0 \<longleftrightarrow> set (deps ! m) \<subseteq> done"
  by (auto simp: missing_def filter_empty_conv)

lemma scheduled_snoc: "scheduled deps order \<Longrightarrow> set (deps ! k) \<subseteq> set order \<Longrightarrow> scheduled deps (order @ [k])"
  by (auto simp: scheduled_def nth_append less_Suc_eq)

definition graph_of :: "nat list list \<Rightarrow> nat list list \<Rightarrow> bool" where
  "graph_of deps adj \<longleftrightarrow> length adj = length deps \<and>
     (\<forall>d < length deps. \<forall>m. count_list (adj ! d) m = (if m < length deps then count_list (deps ! m) d else 0))"

lemma kahn_step:
  assumes inv: "kahn_inv deps ind (k # ready) order" and g: "graph_of deps adj"
  obtains ind' new where "relax (adj ! k) ind = Some (ind', new)" "kahn_inv deps ind' (ready @ new) (order @ [k])"
proof -
  have k: "k < length deps" "k \<notin> set order" "ind ! k = 0" "length ind = length deps"
    using inv by (auto simp: kahn_inv_def)
  have ind: "\<And>m. m < length deps \<Longrightarrow> ind ! m = missing deps (insert k (set order)) m + count_list (deps ! m) k"
    using inv missing_insert [OF k(2)] by (auto simp: kahn_inv_def)
  have cnt: "count_list (adj ! k) m = (if m < length deps then count_list (deps ! m) k else 0)" for m
    using g k(1) by (auto simp: graph_of_def)
  then have succ: "m \<in> set (adj ! k) \<longleftrightarrow> m < length deps \<and> 0 < count_list (deps ! m) k" for m
    by (metis count_list_0_iff less_irrefl_nat neq0_conv)
  obtain ind' new where r: "relax (adj ! k) ind = Some (ind', new)" "length ind' = length ind" "distinct new"
      "\<And>m. m < length ind \<Longrightarrow> ind' ! m = ind ! m - count_list (adj ! k) m"
      "set new = {m \<in> set (adj ! k). ind' ! m = 0}"
    using relax_exact [of "adj ! k" ind] ind succ cnt k(4) by (auto simp: le_add2)
  have ind': "ind' ! m = missing deps (insert k (set order)) m" if "m < length deps" for m
    using that r(4) [of m] k(4) ind [of m] cnt [of m] by simp
  have old: "\<And>m. m < length deps \<Longrightarrow> m \<in> set (order @ k # ready) \<longleftrightarrow> ind ! m = 0"
    using inv by (simp add: kahn_inv_def)
  have new: "m \<in> set new \<longleftrightarrow> m < length deps \<and> ind ! m \<noteq> 0 \<and> ind' ! m = 0" for m
    using ind [of m] ind' [of m] by (auto simp: r(5) succ)
  have "set (deps ! k) \<subseteq> set order" using inv k by (auto simp: kahn_inv_def simp flip: missing_zero)
  then have "scheduled deps (order @ [k])" using inv by (simp add: kahn_inv_def scheduled_snoc)
  moreover have "distinct ((order @ [k]) @ ready @ new)"
    using inv r(3) new old by (auto simp: kahn_inv_def)
  moreover have "m \<in> set ((order @ [k]) @ ready @ new) \<longleftrightarrow> ind' ! m = 0" if "m < length deps" for m
    using that old [OF that] new [of m] ind [OF that] ind' [OF that] by auto
  moreover have "set ((order @ [k]) @ ready @ new) \<subseteq> {..<length deps}"
    using inv new by (auto simp: kahn_inv_def)
  ultimately have "kahn_inv deps ind' (ready @ new) (order @ [k])"
    using ind' r(2) k(4) by (simp add: kahn_inv_def)
  then show thesis using that r(1) by blast
qed

lemma kahn_exact:
  assumes "kahn_inv deps ind ready order" and "graph_of deps adj"
  shows "\<exists>final ind'. kahn adj ind ready order = Some final \<and> kahn_inv deps ind' [] final"
  using assms
proof (induction adj ind ready order rule: kahn.induct)
  case (2 adj ind k ready order)
  from kahn_step [OF 2(2,3)] obtain ind' new where
    "relax (adj ! k) ind = Some (ind', new)" "kahn_inv deps ind' (ready @ new) (order @ [k])" .
  with 2(1) 2(3) show ?case by simp
qed auto

section \<open>Accepted workflows\<close>

lemma first_duplicate_None: "first_duplicate seen xs = None \<longleftrightarrow> distinct xs \<and> set xs \<inter> seen = {}"
  by (induction xs arbitrary: seen) auto

lemma workflow_new_accepts:
  "workflow_new steps = Inr flow \<longleftrightarrow> flow = steps \<and> steps \<noteq> [] \<and> distinct (map ws_step_id steps)
     \<and> (\<forall>s \<in> set steps. set (ws_depends_on s) \<subseteq> ws_step_id ` set steps)"
proof -
  have "unknown_dependency steps = None \<longleftrightarrow> (\<forall>s \<in> set steps. set (ws_depends_on s) \<subseteq> ws_step_id ` set steps)"
    by (fastforce simp: unknown_dependency_def find_None_iff)
  then show ?thesis
    using first_duplicate_None [of "{}" "map ws_step_id steps"]
    by (auto simp: workflow_new_def split: option.splits)
qed

lemma those_map_Some: "(\<And>x. x \<in> set xs \<Longrightarrow> f x = Some (g x)) \<Longrightarrow> those (map f xs) = Some (map g xs)"
  by (induction xs) auto

lemma step_index_Some:
  assumes "distinct (map ws_step_id steps)"
  shows "step_index steps x = Some i \<longleftrightarrow> i < length steps \<and> ws_step_id (steps ! i) = x"
proof -
  have "map fst (rev (zip (map ws_step_id steps) [0..<length steps])) = rev (map ws_step_id steps)"
    by (simp flip: rev_map)
  with assms have "distinct (map fst (rev (zip (map ws_step_id steps) [0..<length steps])))" by simp
  then have "step_index steps x = Some i \<longleftrightarrow> (x, i) \<in> set (zip (map ws_step_id steps) [0..<length steps])"
    by (simp add: step_index_def map_of_eq_Some_iff)
  also have "\<dots> \<longleftrightarrow> (\<exists>n. n < length steps \<and> (x, i) = (ws_step_id (steps ! n), n))"
    by (auto simp: set_zip intro!: exI [of _ i])
  finally show ?thesis by auto
qed

text \<open>\<open>(i, j)\<close> is in the relation when step \<open>i\<close> depends on step \<open>j\<close>.\<close>

definition depends :: "'n workflow \<Rightarrow> (nat \<times> nat) set" where
  "depends steps = {(i, j). i < length steps \<and> j < length steps
     \<and> ws_step_id (steps ! j) \<in> set (ws_depends_on (steps ! i))}"

definition dep_table :: "'n workflow \<Rightarrow> nat list list" where
  "dep_table steps = map (\<lambda>s. map (\<lambda>d. the (step_index steps d)) (ws_depends_on s)) steps"

lemma dep_table_length [simp]: "length (dep_table steps) = length steps"
  by (simp add: dep_table_def)

lemma step_index_defined:
  assumes "workflow_new steps = Inr flow" and "s \<in> set steps" and "d \<in> set (ws_depends_on s)"
  obtains j where "step_index steps d = Some j" "j < length steps" "ws_step_id (steps ! j) = d"
proof -
  from assms(1) have acc: "distinct (map ws_step_id steps)"
    "\<forall>s \<in> set steps. set (ws_depends_on s) \<subseteq> ws_step_id ` set steps"
    by (auto simp: workflow_new_accepts)
  then have "d \<in> ws_step_id ` set steps" using assms(2,3) by blast
  then obtain j where "j < length steps" "ws_step_id (steps ! j) = d" by (auto simp: in_set_conv_nth)
  then show thesis using that step_index_Some [OF acc(1)] by blast
qed

lemma those_dep_positions:
  assumes "workflow_new steps = Inr flow"
  shows "those (map (dep_positions steps) steps) = Some (dep_table steps)"
  unfolding dep_table_def
proof (rule those_map_Some)
  fix s assume s: "s \<in> set steps"
  have "step_index steps d = Some (the (step_index steps d))" if "d \<in> set (ws_depends_on s)" for d
    using step_index_defined [OF assms s that] by (metis option.sel)
  then show "dep_positions steps s = Some (map (\<lambda>d. the (step_index steps d)) (ws_depends_on s))"
    unfolding dep_positions_def by (rule those_map_Some)
qed

lemma dep_table_depends:
  assumes "workflow_new steps = Inr flow" and "i < length steps"
  shows "j \<in> set (dep_table steps ! i) \<longleftrightarrow> (i, j) \<in> depends steps"
proof -
  have dist: "distinct (map ws_step_id steps)" using assms(1) by (auto simp: workflow_new_accepts)
  have mem: "steps ! i \<in> set steps" using assms(2) by simp
  have "step_index steps d = Some (the (step_index steps d))" if "d \<in> set (ws_depends_on (steps ! i))" for d
    using step_index_defined [OF assms(1) mem that] by (metis option.sel)
  then have "j \<in> set (dep_table steps ! i) \<longleftrightarrow> (\<exists>d \<in> set (ws_depends_on (steps ! i)). step_index steps d = Some j)"
    using assms(2) by (auto simp: dep_table_def image_iff) (metis option.sel)+
  then show ?thesis using assms(2) by (auto simp: depends_def step_index_Some [OF dist])
qed

lemma build_graph_initial:
  assumes "build_graph 0 deps (replicate (length deps) [], replicate (length deps) 0) = (adj, ind)"
  shows "graph_of deps adj" and "kahn_inv deps ind (filter (\<lambda>i. ind ! i = 0) [0..<length deps]) []"
proof -
  note len = build_graph_length [OF assms]
  show "graph_of deps adj" using len build_graph_count [OF assms] by (simp add: graph_of_def)
  show "kahn_inv deps ind (filter (\<lambda>i. ind ! i = 0) [0..<length deps]) []"
    using len build_graph_indegree [OF assms] by (auto simp: kahn_inv_def missing_def scheduled_def)
qed

text \<open>What the order of an accepted workflow is: the emitted steps, with the invariant at the end.\<close>

lemma topo_order_cases:
  assumes "workflow_new steps = Inr flow"
  obtains order ind where "kahn_inv (dep_table steps) ind [] order"
    "topo_order steps = Some (if length order \<noteq> length steps
       then Inl (CycleDetected (join_with '', '' (map (\<lambda>i. ws_step_id (steps ! i))
              (filter (\<lambda>i. i \<notin> set order) [0..<length steps]))))
       else Inr order)"
proof -
  let ?deps = "dep_table steps" and ?n = "length steps"
  obtain adj ind where bg: "build_graph 0 ?deps (replicate ?n [], replicate ?n 0) = (adj, ind)" by fastforce
  from build_graph_initial [of ?deps adj ind] bg
  have "graph_of ?deps adj" "kahn_inv ?deps ind (filter (\<lambda>i. ind ! i = 0) [0..<?n]) []" by simp_all
  from kahn_exact [OF this(2,1)] obtain order ind'
    where "kahn adj ind (filter (\<lambda>i. ind ! i = 0) [0..<?n]) [] = Some order" "kahn_inv ?deps ind' [] order" by blast
  then show thesis using that bg those_dep_positions [OF assms] by (simp add: topo_order_def)
qed

lemma emitted_not_cyclic:
  assumes acc: "workflow_new steps = Inr flow" and inv: "kahn_inv (dep_table steps) ind [] order"
    and "i \<in> set order"
  shows "(i, j) \<in> (depends steps)\<^sup>* \<Longrightarrow> j \<in> set order \<and> (j, j) \<notin> (depends steps)\<^sup>+"
proof -
  have sub: "set order \<subseteq> {..<length steps}" and dist: "distinct order" and sch: "scheduled (dep_table steps) order"
    using inv by (auto simp: kahn_inv_def)
  have earlier: "\<exists>l<k. j = order ! l" if "k < length order" "(order ! k, j) \<in> depends steps" for k j
  proof -
    have "order ! k < length steps" using that sub by (meson lessThan_iff nth_mem subsetD)
    with dep_table_depends [OF acc] that sch have "j \<in> set (take k order)" by (auto simp: scheduled_def)
    with that(1) show ?thesis by (auto simp: in_set_conv_nth)
  qed
  have plus: "\<exists>l<k. j = order ! l" if "(order ! k, j) \<in> (depends steps)\<^sup>+" "k < length order" for k j
    using that
  proof (induction rule: trancl_induct)
    case (step y z)
    then obtain l where "l < k" "y = order ! l" by blast
    with step earlier [of l z] show ?case by (metis less_trans)
  qed (use earlier in blast)
  have acyclic_at: "(j, j) \<notin> (depends steps)\<^sup>+" if j: "j \<in> set order" for j
  proof
    assume "(j, j) \<in> (depends steps)\<^sup>+"
    moreover obtain k where "k < length order" "j = order ! k" using j by (auto simp: in_set_conv_nth)
    ultimately show False using plus [of k j] dist by (auto simp: nth_eq_iff_index_eq)
  qed
  assume "(i, j) \<in> (depends steps)\<^sup>*"
  then have "j \<in> set order"
  proof (cases rule: rtranclE)
    case (step y)
    then have "(i, j) \<in> (depends steps)\<^sup>+" using \<open>(i, j) \<in> (depends steps)\<^sup>*\<close> by (simp add: rtrancl_into_trancl1)
    moreover obtain k where "k < length order" "i = order ! k" using assms(3) by (auto simp: in_set_conv_nth)
    ultimately show ?thesis using plus [of k j] by (metis less_trans nth_mem)
  qed (use assms(3) in blast)
  then show ?thesis using acyclic_at by blast
qed

lemma finite_depends: "finite (depends steps)"
  by (rule finite_subset [of _ "{..<length steps} \<times> {..<length steps}"]) (auto simp: depends_def)

lemma left_over_cyclic:
  assumes acc: "workflow_new steps = Inr flow" and inv: "kahn_inv (dep_table steps) ind [] order"
    and "i < length steps" "i \<notin> set order"
  shows "\<exists>j. (i, j) \<in> (depends steps)\<^sup>* \<and> (j, j) \<in> (depends steps)\<^sup>+"
proof (rule ccontr)
  assume none: "\<nexists>j. (i, j) \<in> (depends steps)\<^sup>* \<and> (j, j) \<in> (depends steps)\<^sup>+"
  define Q where "Q = {k. k < length steps \<and> k \<notin> set order \<and> (i, k) \<in> (depends steps)\<^sup>*}"
  let ?r = "depends steps \<inter> Q \<times> Q"
  have "acyclic ?r"
  proof (rule acyclicI, rule allI, rule notI)
    fix k assume k: "(k, k) \<in> ?r\<^sup>+"
    then have "k \<in> Q" by (metis IntE SigmaD1 tranclD)
    moreover have "(k, k) \<in> (depends steps)\<^sup>+" using k by (rule trancl_mono) blast
    ultimately show False using none by (auto simp: Q_def)
  qed
  then have "wf (?r\<inverse>)" using finite_depends by (intro finite_acyclic_wf_converse) auto
  moreover have "i \<in> Q" using assms(3,4) by (simp add: Q_def)
  ultimately obtain z where z: "z \<in> Q" "\<And>y. (y, z) \<in> ?r\<inverse> \<Longrightarrow> y \<notin> Q" by (metis wfE_min)
  then have zz: "z < length steps" "z \<notin> set order" "(i, z) \<in> (depends steps)\<^sup>*" by (auto simp: Q_def)
  with inv have "missing (dep_table steps) (set order) z \<noteq> 0" by (auto simp: kahn_inv_def)
  then obtain y where "y \<in> set (dep_table steps ! z)" "y \<notin> set order" by (auto simp: missing_zero)
  then have dep: "(z, y) \<in> depends steps" using dep_table_depends [OF acc zz(1)] by simp
  have "(i, y) \<in> (depends steps)\<^sup>*" using zz(3) dep by (rule rtrancl_into_rtrancl)
  moreover have "y < length steps" using dep by (simp add: depends_def)
  ultimately have "y \<in> Q" using \<open>y \<notin> set order\<close> by (simp add: Q_def)
  with z dep show False by blast
qed


section \<open>The order\<close>

lemma complete_order:
  "kahn_inv deps ind [] order \<Longrightarrow> length order = length deps \<longleftrightarrow> set order = {..<length deps}"
  by (metis append.right_neutral card_lessThan card_subset_eq distinct_card finite_lessThan kahn_inv_def)

lemma cyclic_iff_left_over:
  assumes "workflow_new steps = Inr flow" and "kahn_inv (dep_table steps) ind [] order" and "i < length steps"
  shows "i \<notin> set order \<longleftrightarrow> (\<exists>j. (i, j) \<in> (depends steps)\<^sup>* \<and> (j, j) \<in> (depends steps)\<^sup>+)"
  using left_over_cyclic [OF assms(1,2,3)] emitted_not_cyclic [OF assms(1,2)] by blast

lemma complete_iff_acyclic:
  assumes acc: "workflow_new steps = Inr flow" and inv: "kahn_inv (dep_table steps) ind [] order"
  shows "length order = length steps \<longleftrightarrow> acyclic (depends steps)"
proof -
  have sub: "set order \<subseteq> {..<length steps}" using inv by (auto simp: kahn_inv_def)
  have node: "(j, j) \<in> (depends steps)\<^sup>+ \<Longrightarrow> j < length steps" for j
    by (auto simp: depends_def dest: tranclD)
  have "length order = length steps \<longleftrightarrow> (\<forall>i < length steps. i \<in> set order)"
    using complete_order [OF inv] sub by auto
  also have "\<dots> \<longleftrightarrow> acyclic (depends steps)"
    using cyclic_iff_left_over [OF acc inv] node unfolding acyclic_def by blast
  finally show ?thesis .
qed

text \<open>Every dependency of a step stands before it in the order, and the order is a permutation.\<close>

definition execution_order :: "'n workflow \<Rightarrow> nat list \<Rightarrow> bool" where
  "execution_order steps order \<longleftrightarrow> distinct order \<and> set order = {..<length steps} \<and>
     (\<forall>k < length order. \<forall>d \<in> set (ws_depends_on (steps ! (order ! k))).
        \<exists>l < k. ws_step_id (steps ! (order ! l)) = d)"

lemma scheduled_execution_order:
  assumes acc: "workflow_new steps = Inr flow" and inv: "kahn_inv (dep_table steps) ind [] order"
    and len: "length order = length steps"
  shows "execution_order steps order"
proof -
  have order: "set order = {..<length steps}" "distinct order" "scheduled (dep_table steps) order"
    using complete_order [OF inv] len inv by (auto simp: kahn_inv_def)
  have "\<exists>l < k. ws_step_id (steps ! (order ! l)) = d"
    if k: "k < length order" and d: "d \<in> set (ws_depends_on (steps ! (order ! k)))" for k d
  proof -
    have i: "order ! k < length steps" using k order(1) by (metis lessThan_iff nth_mem)
    then obtain j where j: "j < length steps" "ws_step_id (steps ! j) = d"
      using step_index_defined [OF acc _ d] by (metis nth_mem)
    with i d have "(order ! k, j) \<in> depends steps" by (simp add: depends_def)
    with dep_table_depends [OF acc i] order(3) k have "j \<in> set (take k order)" by (auto simp: scheduled_def)
    with k j show ?thesis by (auto simp: in_set_conv_nth)
  qed
  with order show ?thesis by (simp add: execution_order_def)
qed

lemma terminal_step_unused:
  assumes acc: "workflow_new steps = Inr flow" and ord: "execution_order steps order" and s: "s \<in> set steps"
  shows "ws_step_id (steps ! last order) \<notin> set (ws_depends_on s)"
proof
  assume dep: "ws_step_id (steps ! last order) \<in> set (ws_depends_on s)"
  have ids: "distinct (map ws_step_id steps)" using acc by (simp add: workflow_new_accepts)
  have order: "distinct order" "set order = {..<length steps}" using ord by (auto simp: execution_order_def)
  from s obtain k where k: "k < length order" "s = steps ! (order ! k)"
    using order(2) by (metis in_set_conv_nth lessThan_iff)
  with dep ord obtain l where l: "l < k" "ws_step_id (steps ! (order ! l)) = ws_step_id (steps ! last order)"
    unfolding execution_order_def by blast
  have "order ! l < length steps" "last order < length steps"
    using l(1) k(1) order(2) by (metis lessThan_iff less_trans nth_mem, metis lessThan_iff last_in_set length_pos_if_in_set less_nat_zero_code list.size(3) k(1))
  with ids l(2) have "order ! l = last order" by (simp add: distinct_conv_nth) (metis)
  moreover have "last order = order ! (length order - 1)" using k(1) by (cases order) (auto simp: last_conv_nth)
  ultimately show False using order(1) l(1) k(1) by (auto simp: nth_eq_iff_index_eq)
qed

text \<open>
  C10. On a workflow that the constructor accepts and whose dependencies have no cycle, the
  topological sort returns: no map access, index or decrement fails, and the order is a permutation
  of the steps in which every dependency of a step comes before it.
\<close>

theorem topo_order_schedules:
  assumes "workflow_new steps = (Inr flow :: 'e workflow_error + 'n workflow)" and "acyclic (depends flow)"
  shows "\<exists>order. topo_order flow = Some (Inr order :: 'e workflow_error + nat list) \<and> execution_order flow order"
proof -
  have [simp]: "flow = steps" using assms(1) by (simp add: workflow_new_accepts)
  obtain order ind where inv: "kahn_inv (dep_table steps) ind [] order"
    and "topo_order steps = Some (if length order \<noteq> length steps
       then Inl (CycleDetected (join_with '', '' (map (\<lambda>i. ws_step_id (steps ! i))
              (filter (\<lambda>i. i \<notin> set order) [0..<length steps]))) :: 'e workflow_error)
       else Inr order)"
    using topo_order_cases [OF assms(1)] by blast
  then show ?thesis
    using complete_iff_acyclic [OF assms(1) inv] assms(2) scheduled_execution_order [OF assms(1) inv] by simp
qed

text \<open>
  C11. On an accepted workflow with a cyclic dependency graph the sort returns the cycle error before
  any agent runs, and the error names exactly the steps from which a cycle can be reached, in
  declaration order: the members of a cycle and the steps that wait for one.
\<close>

theorem cycle_reported_exactly:
  assumes "workflow_new steps = (Inr flow :: 'e workflow_error + 'n workflow)" and "\<not> acyclic (depends flow)"
  shows "topo_order flow = Some (Inl (CycleDetected (join_with '', '' (map (\<lambda>i. ws_step_id (flow ! i))
      (filter (\<lambda>i. \<exists>j. (i, j) \<in> (depends flow)\<^sup>* \<and> (j, j) \<in> (depends flow)\<^sup>+) [0..<length flow])))
        :: 'e workflow_error))"
proof -
  have [simp]: "flow = steps" using assms(1) by (simp add: workflow_new_accepts)
  obtain order ind where inv: "kahn_inv (dep_table steps) ind [] order"
    and topo: "topo_order steps = Some (if length order \<noteq> length steps
       then Inl (CycleDetected (join_with '', '' (map (\<lambda>i. ws_step_id (steps ! i))
              (filter (\<lambda>i. i \<notin> set order) [0..<length steps]))) :: 'e workflow_error)
       else Inr order)"
    using topo_order_cases [OF assms(1)] by blast
  have "filter (\<lambda>i. i \<notin> set order) [0..<length steps]
      = filter (\<lambda>i. \<exists>j. (i, j) \<in> (depends steps)\<^sup>* \<and> (j, j) \<in> (depends steps)\<^sup>+) [0..<length steps]"
    using cyclic_iff_left_over [OF assms(1) inv] by (intro filter_cong) auto
  then show ?thesis using topo complete_iff_acyclic [OF assms(1) inv] assms(2) by simp
qed

section \<open>The run\<close>

lemma ids_inj: "distinct (map ws_step_id steps) \<Longrightarrow> inj_on (\<lambda>i. ws_step_id (steps ! i)) {..<length steps}"
  by (auto simp: inj_on_def distinct_conv_nth)

text \<open>One step ran: its agent exists, its mapping resolved against \<open>outputs\<close>, its agent returned \<open>out\<close>.\<close>

definition step_ran :: "(agent_id \<rightharpoonup> 'a) \<Rightarrow> ('a \<Rightarrow> 'n json \<Rightarrow> 'e + 'n json) \<Rightarrow> 'n json \<Rightarrow> 'n workflow_step
     \<Rightarrow> (string \<rightharpoonup> 'n json) \<Rightarrow> 'n json \<Rightarrow> bool" where
  "step_ran registry execute initial step outputs out \<longleftrightarrow>
     (\<exists>agent input. registry (ws_agent_id step) = Some agent
        \<and> resolve_mapping (ws_input_mapping step) initial outputs (ws_step_id step)
            = (Inr input :: 'e workflow_error + 'n json)
        \<and> execute agent input = Inr out)"

lemma run_order_step:
  "run_order registry execute initial steps (idx # order) outputs = Inr final \<longleftrightarrow>
     (\<exists>out. step_ran registry execute initial (steps ! idx) outputs out
        \<and> run_order registry execute initial steps order (outputs(ws_step_id (steps ! idx) \<mapsto> out)) = Inr final)"
  by (auto simp: step_ran_def Let_def split: option.splits sum.splits)

lemma run_order_exact:
  assumes "run_order registry execute initial steps order outputs = Inr final"
    and "distinct (map (\<lambda>i. ws_step_id (steps ! i)) order)"
    and "\<And>i. i \<in> set order \<Longrightarrow> outputs (ws_step_id (steps ! i)) = None"
  shows "dom final = dom outputs \<union> (\<lambda>i. ws_step_id (steps ! i)) ` set order
    \<and> final |` dom outputs = outputs
    \<and> (\<forall>k < length order. \<exists>out. final (ws_step_id (steps ! (order ! k))) = Some out
         \<and> step_ran registry execute initial (steps ! (order ! k))
             (final |` (dom outputs \<union> (\<lambda>i. ws_step_id (steps ! i)) ` set (take k order))) out)"
  using assms
proof (induction order arbitrary: outputs)
  case (Cons idx order)
  let ?id = "\<lambda>i. ws_step_id (steps ! i)"
  obtain out where ran: "step_ran registry execute initial (steps ! idx) outputs out"
    and rest: "run_order registry execute initial steps order (outputs(?id idx \<mapsto> out)) = Inr final"
    using Cons.prems(1) unfolding run_order_step by blast
  let ?o = "outputs(?id idx \<mapsto> out)"
  have new: "?id idx \<notin> dom outputs" using Cons.prems(3) by auto
  have dist: "distinct (map ?id order)" using Cons.prems(2) by simp
  have fresh: "?o (?id i) = None" if "i \<in> set order" for i
  proof -
    have "?id i \<noteq> ?id idx" using Cons.prems(2) that by (auto simp: image_iff)
    with Cons.prems(3) [of i] that show ?thesis by simp
  qed
  have IH: "dom final = dom ?o \<union> ?id ` set order" "final |` dom ?o = ?o"
    "\<And>k. k < length order \<Longrightarrow> \<exists>out. final (?id (order ! k)) = Some out \<and> step_ran registry execute initial
       (steps ! (order ! k)) (final |` (dom ?o \<union> ?id ` set (take k order))) out"
    using Cons.IH [OF rest dist fresh] by blast+
  have at: "final x = ?o x" if "x \<in> dom ?o" for x using fun_cong [OF IH(2), of x] that by (simp add: restrict_map_def)
  have old: "final |` dom outputs = outputs"
    using at new by (auto simp: restrict_map_def fun_eq_iff)
  have "\<exists>out. final (?id ((idx # order) ! k)) = Some out \<and> step_ran registry execute initial
       (steps ! ((idx # order) ! k)) (final |` (dom outputs \<union> ?id ` set (take k (idx # order)))) out"
    if "k < length (idx # order)" for k
  proof (cases k)
    case 0
    then show ?thesis using ran old at [of "?id idx"] by auto
  next
    case (Suc l)
    then have "dom outputs \<union> ?id ` set (take k (idx # order)) = dom ?o \<union> ?id ` set (take l order)" by auto
    with Suc that IH(3) [of l] show ?thesis by simp
  qed
  with IH(1) old show ?case by auto
next
  case Nil
  then have "final = outputs" by simp
  then show ?case by (auto simp: restrict_map_def domIff fun_eq_iff)
qed

text \<open>
  C12. A run of an accepted workflow never panics. When it returns a result, every step ran exactly as
  wired: in a topological order, with its agent from the registry, on its mapping resolved against
  the initial input and the outputs of the steps before it, and the result holds what the agent
  returned. The terminal step is one that no step depends on, and its output is the final output.
\<close>

theorem workflow_run_exact:
  assumes "workflow_new steps = (Inr flow :: 'e workflow_error + 'n workflow)"
    and "workflow_run registry execute initial flow = Some (Inr res :: 'e workflow_error + 'n workflow_result)"
  shows "\<exists>order. execution_order flow order
    \<and> dom (wr_step_outputs res) = ws_step_id ` set flow
    \<and> (\<forall>k < length flow. \<exists>out. wr_step_outputs res (ws_step_id (flow ! (order ! k))) = Some out
         \<and> step_ran registry execute initial (flow ! (order ! k))
             (wr_step_outputs res |` ((\<lambda>i. ws_step_id (flow ! i)) ` set (take k order))) out)
    \<and> wr_step_outputs res (wr_final_step_id res) = Some (wr_final_output res)
    \<and> (\<forall>s \<in> set flow. wr_final_step_id res \<notin> set (ws_depends_on s))"
proof -
  have flow: "flow = steps" and ids: "distinct (map ws_step_id steps)" and ne: "steps \<noteq> []"
    using assms(1) by (simp_all add: workflow_new_accepts)
  obtain order ind where inv: "kahn_inv (dep_table steps) ind [] order"
    and topo: "topo_order steps = Some (if length order \<noteq> length steps
       then Inl (CycleDetected (join_with '', '' (map (\<lambda>i. ws_step_id (steps ! i))
              (filter (\<lambda>i. i \<notin> set order) [0..<length steps]))) :: 'e workflow_error)
       else Inr order)"
    using topo_order_cases [OF assms(1)] by blast
  have len: "length order = length steps"
    using assms(2) topo by (auto simp: workflow_run_def flow split: if_splits)
  have ord: "execution_order steps order" by (rule scheduled_execution_order [OF assms(1) inv len])
  then have order: "distinct order" "set order = {..<length steps}" by (auto simp: execution_order_def)
  have "run_order registry execute initial steps order Map.empty = (Inr (wr_step_outputs res) :: 'e workflow_error + _)"
    and last: "wr_final_step_id res = ws_step_id (steps ! last order)"
    and out: "wr_final_output res = (case wr_step_outputs res (wr_final_step_id res) of Some v \<Rightarrow> v | None \<Rightarrow> JNull)"
    using assms(2) topo len by (auto simp: workflow_run_def flow Let_def split: sum.splits if_splits)
  moreover have "distinct (map (\<lambda>i. ws_step_id (steps ! i)) order)"
    using order ids_inj [OF ids] by (simp add: distinct_map)
  ultimately have run: "dom (wr_step_outputs res) = (\<lambda>i. ws_step_id (steps ! i)) ` {..<length steps}"
    "\<And>k. k < length order \<Longrightarrow> \<exists>out. wr_step_outputs res (ws_step_id (steps ! (order ! k))) = Some out
       \<and> step_ran registry execute initial (steps ! (order ! k))
           (wr_step_outputs res |` ((\<lambda>i. ws_step_id (steps ! i)) ` set (take k order))) out"
    using run_order_exact [of registry execute initial steps order Map.empty "wr_step_outputs res"] order(2)
    by simp_all
  have ids_set: "(\<lambda>i. ws_step_id (steps ! i)) ` {..<length steps} = ws_step_id ` set steps"
    by (auto simp: set_conv_nth)
  have lst: "last order = order ! (length order - 1)" "length order - 1 < length order"
    using ne len by (cases "order = []"; simp add: last_conv_nth)+
  have "wr_step_outputs res (wr_final_step_id res) = Some (wr_final_output res)"
    using run(2) [OF lst(2)] out last lst(1) by auto
  moreover have "\<forall>s \<in> set steps. wr_final_step_id res \<notin> set (ws_depends_on s)"
    using terminal_step_unused [OF assms(1) ord] last by simp
  ultimately show ?thesis using ord run ids_set len unfolding flow by auto
qed

section \<open>Concrete workflows\<close>

definition demo_step :: "string \<Rightarrow> string list \<Rightarrow> nat json \<Rightarrow> nat workflow_step" where
  "demo_step i deps mapping = \<lparr> ws_step_id = i, ws_agent_id = zero_hash, ws_input_mapping = mapping, ws_depends_on = deps \<rparr>"

definition demo_chain :: "nat workflow" where
  "demo_chain = [demo_step ''c'' [''b''] (JString ''{{steps.b.output}}''), demo_step ''a'' [] (JString ''{{initial.x}}''),
     demo_step ''b'' [''a''] (JArray [JString ''{{ steps.a.output }}''])]"

definition demo_cycle :: "nat workflow" where
  "demo_cycle = [demo_step ''a'' [''b''] JNull, demo_step ''b'' [''a''] JNull]"

text \<open>One agent that wraps its input into an array.\<close>

definition demo_wrap :: "unit \<Rightarrow> nat json \<Rightarrow> unit + nat json" where
  "demo_wrap agent input = Inr (JArray [input])"

lemma demo_chain_accepted: "workflow_new demo_chain = Inr demo_chain"
  by (simp add: workflow_new_accepts demo_chain_def demo_step_def)

lemma demo_chain_acyclic: "acyclic (depends demo_chain)"
proof -
  have "depends demo_chain \<subseteq> (measure (\<lambda>i. if i = 0 then 2 else if i = 2 then 1 else 0))\<inverse>"
    by (auto simp: depends_def demo_chain_def demo_step_def nth_Cons' less_Suc_eq)
  then show ?thesis by (rule acyclic_subset [rotated]) (simp add: acyclic_converse wf_acyclic)
qed

lemma demo_chain_order: "topo_order demo_chain = Some (Inr [1, 2, 0] :: unit workflow_error + nat list)"
  by code_simp

lemma demo_cycle_accepted: "workflow_new demo_cycle = Inr demo_cycle"
  by (simp add: workflow_new_accepts demo_cycle_def demo_step_def)

lemma demo_cycle_depends: "depends demo_cycle = {(0, 1), (1, 0)}"
  by (auto simp: depends_def demo_cycle_def demo_step_def nth_Cons' less_Suc_eq)

lemma demo_cycle_cyclic: "\<not> acyclic (depends demo_cycle)"
proof
  assume "acyclic (depends demo_cycle)"
  moreover have "(0, 0) \<in> {(0, 1), (1, 0 :: nat)}\<^sup>+"
    by (rule trancl_into_trancl [of _ 1]) auto
  ultimately show False by (auto simp: acyclic_def demo_cycle_depends)
qed

definition demo_result :: "nat workflow_result" where
  "demo_result = (let a = JArray [JNumber 7]; b = JArray [JArray [a]]; c = JArray [b] in
     \<lparr> wr_step_outputs = [''a'' \<mapsto> a, ''b'' \<mapsto> b, ''c'' \<mapsto> c], wr_final_step_id = ''c'', wr_final_output = c \<rparr>)"

lemma demo_placeholders:
  "whole_placeholder ''{{initial.x}}'' = Some ''initial.x''"
  "whole_placeholder ''{{ steps.a.output }}'' = Some ''steps.a.output''"
  "whole_placeholder ''{{steps.b.output}}'' = Some ''steps.b.output''"
  "split_on CHR ''.'' ''initial.x'' = [''initial'', ''x'']"
  "split_on CHR ''.'' ''steps.a.output'' = [''steps'', ''a'', ''output'']"
  "split_on CHR ''.'' ''steps.b.output'' = [''steps'', ''b'', ''output'']"
  by code_simp+

lemma demo_no_index: "parse_usize ''x'' = None"
  by (simp add: parse_unsigned_def is_digit_def)

lemma demo_workflow_run: "workflow_run (\<lambda>_. Some ()) demo_wrap (JObject [(''x'', JNumber 7)]) demo_chain = Some (Inr demo_result)"
  unfolding workflow_run_def demo_chain_order
  by (simp add: demo_chain_def demo_step_def demo_wrap_def demo_result_def demo_placeholders demo_no_index resolve_path_def
      walk_seg_def json_get_def Let_def fun_upd_twist)

theorem topo_order_schedules_witness:
  "workflow_new demo_chain = (Inr demo_chain :: unit workflow_error + nat workflow) \<and> acyclic (depends demo_chain)
   \<and> (\<exists>order. topo_order demo_chain = Some (Inr order :: unit workflow_error + nat list) \<and> execution_order demo_chain order)"
  using topo_order_schedules [OF demo_chain_accepted demo_chain_acyclic] demo_chain_accepted demo_chain_acyclic by blast

theorem cycle_reported_exactly_witness:
  "workflow_new demo_cycle = (Inr demo_cycle :: unit workflow_error + nat workflow) \<and> \<not> acyclic (depends demo_cycle)
   \<and> topo_order demo_cycle = Some (Inl (CycleDetected (join_with '', '' (map (\<lambda>i. ws_step_id (demo_cycle ! i))
      (filter (\<lambda>i. \<exists>j. (i, j) \<in> (depends demo_cycle)\<^sup>* \<and> (j, j) \<in> (depends demo_cycle)\<^sup>+) [0..<length demo_cycle])))
        :: unit workflow_error))"
  using cycle_reported_exactly [OF demo_cycle_accepted demo_cycle_cyclic] demo_cycle_accepted demo_cycle_cyclic by blast

theorem workflow_run_exact_witness:
  "workflow_new demo_chain = (Inr demo_chain :: unit workflow_error + nat workflow)
   \<and> workflow_run (\<lambda>_. Some ()) demo_wrap (JObject [(''x'', JNumber 7)]) demo_chain
       = Some (Inr demo_result :: unit workflow_error + nat workflow_result)
   \<and> list_all (\<lambda>s. wr_final_step_id demo_result \<notin> set (ws_depends_on s)) demo_chain"
  using workflow_run_exact [OF demo_chain_accepted demo_workflow_run] demo_chain_accepted demo_workflow_run
  unfolding list_all_iff by blast

end
