(* ===== verification/Socket.thy ===== *)
theory Socket
  imports Rust_Str
begin

text \<open>
  Byte streams as the SOCKS5 code of the tunnel and of the relay uses them: a socket is the bytes still
  to be read, the bytes written, and whether the peer still accepts writes. A computation on a socket
  fails with an error or returns a value; \<open>?\<close> is \<open>bind_io\<close>.
\<close>

section \<open>Sockets and computations\<close>

record socket =
  sk_in :: bytes
  sk_out :: bytes
  sk_open :: bool

type_synonym ('e, 'a) sio = "socket \<Rightarrow> ('e + 'a) \<times> socket"

definition bind_io :: "('e, 'a) sio \<Rightarrow> ('a \<Rightarrow> ('e, 'b) sio) \<Rightarrow> ('e, 'b) sio" where
  "bind_io m f s = (case m s of (Inl e, s') \<Rightarrow> (Inl e, s') | (Inr x, s') \<Rightarrow> f x s')"

definition return_io :: "'a \<Rightarrow> ('e, 'a) sio" where
  "return_io x s = (Inr x, s)"

definition fail_io :: "'e \<Rightarrow> ('e, 'a) sio" where
  "fail_io e s = (Inl e, s)"

text \<open>
  \<open>read_exact\<close> fails at the end of the stream, \<open>write_all\<close> when the peer is gone; the first argument is
  what \<open>From<io::Error>\<close> makes of the failure.
\<close>

definition read_or :: "'e \<Rightarrow> nat \<Rightarrow> ('e, bytes) sio" where
  "read_or e n s =
     (if length (sk_in s) < n then (Inl e, s\<lparr>sk_in := []\<rparr>)
      else (Inr (take n (sk_in s)), s\<lparr>sk_in := drop n (sk_in s)\<rparr>))"

definition write_or :: "'e \<Rightarrow> bytes \<Rightarrow> ('e, unit) sio" where
  "write_or e b s = (if sk_open s then (Inr (), s\<lparr>sk_out := sk_out s @ b\<rparr>) else (Inl e, s))"

section \<open>When a computation succeeds\<close>

named_theorems io_iff \<open>when a socket computation succeeds, and with what\<close>

lemma bind_io_iff [io_iff]:
  "bind_io m f s = (Inr y, s') \<longleftrightarrow> (\<exists>x s1. m s = (Inr x, s1) \<and> f x s1 = (Inr y, s'))"
  by (auto simp: bind_io_def split: prod.splits sum.splits)

lemma return_io_iff [io_iff]: "return_io x s = (Inr y, s') \<longleftrightarrow> y = x \<and> s' = s"
  by (auto simp: return_io_def)

lemma fail_io_iff [io_iff]: "fail_io e s = (Inr y, s') \<longleftrightarrow> False"
  by (simp add: fail_io_def)

lemma read_or_iff [io_iff]:
  "read_or e n s = (Inr b, s') \<longleftrightarrow> (\<exists>r. length b = n \<and> sk_in s = b @ r \<and> s' = s\<lparr>sk_in := r\<rparr>)"
proof
  assume "read_or e n s = (Inr b, s')"
  then show "\<exists>r. length b = n \<and> sk_in s = b @ r \<and> s' = s\<lparr>sk_in := r\<rparr>"
    by (intro exI [of _ "drop n (sk_in s)"]) (auto simp: read_or_def split: if_splits)
qed (auto simp: read_or_def)

lemma write_or_iff [io_iff]:
  "write_or e b s = (Inr y, s') \<longleftrightarrow> sk_open s \<and> s' = s\<lparr>sk_out := sk_out s @ b\<rparr>"
  by (auto simp: write_or_def)

end
