(* ===== verification/Net_Addr.thy ===== *)
theory Net_Addr
  imports Rust_Str
begin

text \<open>
  The textual addresses of Rust's standard library: \<open>str::parse\<close> at \<open>Ipv4Addr\<close>, \<open>Ipv6Addr\<close> and \<open>SocketAddr\<close>.
  A parser takes the remaining text and returns a value with what is left; a failed parser leaves the
  text as it was (\<open>read_atomically\<close>). A dotted address prints to the text it was read from.
\<close>

section \<open>Numbers and characters\<close>

type_synonym 'a parser = "string \<Rightarrow> ('a \<times> string) option"

definition digit_val :: "char \<Rightarrow> nat" where
  "digit_val c = (let n = of_char c in if n \<le> 57 then n - 48 else if n \<le> 70 then n - 55 else n - 87)"

definition radix_digit :: "nat \<Rightarrow> char \<Rightarrow> bool" where
  "radix_digit radix c \<longleftrightarrow> is_digit c
     \<or> radix = 16 \<and> (65 \<le> (of_char c :: nat) \<and> (of_char c :: nat) \<le> 70 \<or> 97 \<le> (of_char c :: nat) \<and> (of_char c :: nat) \<le> 102)"

definition number_of :: "nat \<Rightarrow> string \<Rightarrow> nat" where
  "number_of radix s = foldl (\<lambda>n c. radix * n + digit_val c) 0 s"

definition read_given_char :: "char \<Rightarrow> unit parser" where
  "read_given_char c s = (case s of x # r \<Rightarrow> if x = c then Some ((), r) else None | [] \<Rightarrow> None)"

text \<open>All digits at the front: too many, a leading zero where it is not allowed, or overflow is a failure.\<close>

definition read_number :: "nat \<Rightarrow> nat option \<Rightarrow> bool \<Rightarrow> nat \<Rightarrow> nat parser" where
  "read_number radix max_digits allow_zero_prefix bound s =
     (let ds = takeWhile (radix_digit radix) s; n = number_of radix ds
      in if ds = [] \<or> (case max_digits of Some m \<Rightarrow> m < length ds | None \<Rightarrow> False)
            \<or> \<not> allow_zero_prefix \<and> hd ds = CHR ''0'' \<and> 1 < length ds \<or> bound \<le> n
         then None else Some (n, drop (length ds) s))"

definition read_separator :: "char \<Rightarrow> nat \<Rightarrow> 'a parser \<Rightarrow> 'a parser" where
  "read_separator sep index inner s =
     (if 0 < index then Option.bind (read_given_char sep s) (\<lambda>(_, r). inner r) else inner s)"

section \<open>Addresses\<close>

datatype ip_addr = V4 bytes | V6 bytes

type_synonym socket_addr = "ip_addr \<times> u16"

fun read_octets :: "nat \<Rightarrow> nat \<Rightarrow> bytes parser" where
  "read_octets 0 i s = Some ([], s)"
| "read_octets (Suc k) i s =
     Option.bind (read_separator CHR ''.'' i (read_number 10 (Some 3) False 256) s) (\<lambda>(n, r).
     Option.bind (read_octets k (Suc i) r) (\<lambda>(b, r). Some (of_nat n # b, r)))"

definition read_ipv4_addr :: "bytes parser" where
  "read_ipv4_addr = read_octets 4 0"

text \<open>
  The groups of \<open>read_groups\<close> with whether they end in an embedded IPv4 address; it stops in front of
  the first text that is no group.
\<close>

function read_groups :: "nat \<Rightarrow> nat \<Rightarrow> string \<Rightarrow> (nat list \<times> bool) \<times> string" where
  "read_groups limit i s =
     (if limit \<le> i then (([], False), s)
      else case (if i < limit - 1 then read_separator CHR '':'' i read_ipv4_addr s else None) of
        Some (v4, r) \<Rightarrow> ((segments v4, True), r)
      | None \<Rightarrow>
          (case read_separator CHR '':'' i (read_number 16 (Some 4) True (2 ^ 16)) s of
             Some (g, r) \<Rightarrow> (case read_groups limit (Suc i) r of ((gs, v4), r) \<Rightarrow> ((g # gs, v4), r))
           | None \<Rightarrow> (([], False), s)))"
  by pat_completeness auto
termination by (relation "measure (\<lambda>(limit, i, s). limit - i)") auto

declare read_groups.simps [simp del]

definition group_bytes :: "nat list \<Rightarrow> bytes" where
  "group_bytes gs = concat (map (\<lambda>g. [of_nat (g div 256), of_nat (g mod 256)]) gs)"

definition read_ipv6_addr :: "bytes parser" where
  "read_ipv6_addr s =
     (case read_groups 8 0 s of ((front, v4), s1) \<Rightarrow>
        if length front = 8 then Some (group_bytes front, s1)
        else if v4 then None
        else Option.bind (read_given_char CHR '':'' s1) (\<lambda>(_, s2). Option.bind (read_given_char CHR '':'' s2) (\<lambda>(_, s3).
          (case read_groups (8 - (length front + 1)) 0 s3 of ((back, _), s4) \<Rightarrow>
             Some (group_bytes (front @ replicate (8 - length front - length back) 0 @ back), s4)))))"

definition read_port :: "u16 parser" where
  "read_port s = Option.bind (read_given_char CHR '':'' s) (\<lambda>(_, r).
     map_option (\<lambda>(n, r). (of_nat n, r)) (read_number 10 None True (2 ^ 16) r))"

definition read_scope_id :: "string \<Rightarrow> string" where
  "read_scope_id s = (case Option.bind (read_given_char CHR ''%'' s) (\<lambda>(_, r). read_number 10 None True (2 ^ 32) r) of
     Some (_, r) \<Rightarrow> r | None \<Rightarrow> s)"

definition read_socket_addr_v4 :: "socket_addr parser" where
  "read_socket_addr_v4 s = Option.bind (read_ipv4_addr s) (\<lambda>(ip, r). map_option (\<lambda>(p, r). ((V4 ip, p), r)) (read_port r))"

definition read_socket_addr_v6 :: "socket_addr parser" where
  "read_socket_addr_v6 s =
     Option.bind (read_given_char CHR ''['' s) (\<lambda>(_, r). Option.bind (read_ipv6_addr r) (\<lambda>(ip, r).
     Option.bind (read_given_char CHR '']'' (read_scope_id r)) (\<lambda>(_, r).
       map_option (\<lambda>(p, r). ((V6 ip, p), r)) (read_port r))))"

text \<open>\<open>parse_with\<close>: the whole text must be consumed.\<close>

definition parse_with :: "'a parser \<Rightarrow> string \<Rightarrow> 'a option" where
  "parse_with p s = (case p s of Some (x, []) \<Rightarrow> Some x | _ \<Rightarrow> None)"

definition parse_ipv4 :: "string \<Rightarrow> bytes option" where
  "parse_ipv4 s = (if 15 < length s then None else parse_with read_ipv4_addr s)"

definition parse_ipv6 :: "string \<Rightarrow> bytes option" where
  "parse_ipv6 = parse_with read_ipv6_addr"

definition parse_socket_addr :: "string \<Rightarrow> socket_addr option" where
  "parse_socket_addr = parse_with (\<lambda>s. case read_socket_addr_v4 s of Some r \<Rightarrow> Some r | None \<Rightarrow> read_socket_addr_v6 s)"

definition is_loopback :: "ip_addr \<Rightarrow> bool" where
  "is_loopback ip = (case ip of V4 b \<Rightarrow> b ! 0 = 127 | V6 b \<Rightarrow> b = replicate 15 0 @ [1])"

section \<open>Printing what was read\<close>

lemma digit_digit_val: "radix_digit 10 c \<Longrightarrow> digit (digit_val c) = c"
proof -
  assume "radix_digit 10 c"
  then have n: "48 \<le> (of_char c :: nat)" "(of_char c :: nat) \<le> 57" by (auto simp: radix_digit_def is_digit_def)
  define k where "k = (of_char c :: nat) - 48"
  then have "k \<in> {0..<10}" using n by auto
  then have "k \<in> {0, 1, 2, 3, 4, 5, 6, 7, 8, 9}" by auto
  moreover have "c = char_of (48 + k)" using n k_def by simp
  moreover have "digit_val c = k" using n by (simp add: digit_val_def k_def)
  ultimately show ?thesis by (auto simp: digit_def char_of_def bit_iff_odd)
qed

lemma digit_val_less: "radix_digit 10 c \<Longrightarrow> digit_val c < 10"
  by (auto simp: radix_digit_def is_digit_def digit_val_def)

lemma number_of_snoc: "number_of r (ds @ [c]) = r * number_of r ds + digit_val c"
  by (simp add: number_of_def)

lemma number_of_pos:
  assumes "ds \<noteq> []" and "list_all (radix_digit 10) ds" and "hd ds \<noteq> CHR ''0''"
  shows "0 < number_of 10 ds"
  using assms
proof (induction ds rule: rev_induct)
  case (snoc c ds)
  show ?case
  proof (cases "ds = []")
    case True
    with snoc.prems have "digit (digit_val c) \<noteq> digit 0" by (simp add: digit_digit_val) (simp add: digit_def)
    then have "digit_val c \<noteq> 0" by metis
    then show ?thesis using True by (simp add: number_of_def)
  qed (use snoc in \<open>simp add: number_of_snoc\<close>)
qed simp

lemma show_number_of:
  assumes "ds \<noteq> []" and "list_all (radix_digit 10) ds" and "1 < length ds \<Longrightarrow> hd ds \<noteq> CHR ''0''"
  shows "show_base 10 (number_of 10 ds) = ds"
  using assms
proof (induction ds rule: rev_induct)
  case (snoc c ds)
  then have c: "digit (digit_val c) = c" "digit_val c < 10" by (simp_all add: digit_digit_val digit_val_less)
  show ?case
  proof (cases "ds = []")
    case True
    with c show ?thesis by (simp add: number_of_def show_base.simps)
  next
    case False
    with snoc.prems have hd: "hd ds \<noteq> CHR ''0''" by (cases ds) auto
    have "0 < number_of 10 ds" using False snoc.prems(2) hd by (intro number_of_pos) simp_all
    then have "show_base 10 (number_of 10 (ds @ [c])) = show_base 10 (number_of 10 ds) @ [digit (digit_val c)]"
      using c(2) by (subst show_base.simps) (simp add: number_of_snoc)
    also have "\<dots> = ds @ [c]" using snoc.IH False snoc.prems(2) hd c(1) by simp
    finally show ?thesis .
  qed
qed simp

lemma read_number_SomeD:
  assumes "read_number r m z bound s = Some (n, rest)"
  shows "\<exists>ds. s = ds @ rest \<and> ds \<noteq> [] \<and> list_all (radix_digit r) ds \<and> n = number_of r ds \<and> n < bound
    \<and> (rest = [] \<or> \<not> radix_digit r (hd rest)) \<and> (\<not> z \<longrightarrow> 1 < length ds \<longrightarrow> hd ds \<noteq> CHR ''0'')"
proof -
  define ds where "ds = takeWhile (radix_digit r) s"
  have r: "rest = drop (length ds) s" "ds \<noteq> []" "n = number_of r ds" "n < bound"
      "\<not> z \<Longrightarrow> 1 < length ds \<Longrightarrow> hd ds \<noteq> CHR ''0''"
    using assms by (auto simp: read_number_def ds_def Let_def split: if_splits)
  then have "rest = dropWhile (radix_digit r) s" by (simp add: dropWhile_eq_drop ds_def)
  moreover from this have "s = ds @ rest" by (simp add: ds_def)
  moreover have "list_all (radix_digit r) ds" by (auto simp: ds_def list_all_iff dest: set_takeWhileD)
  ultimately show ?thesis using r hd_dropWhile by blast
qed

lemma read_given_char_iff: "read_given_char c s = Some (u, r) \<longleftrightarrow> s = c # r"
  by (cases s) (auto simp: read_given_char_def)

lemma read_octet_text:
  assumes "read_number 10 m False 256 s = Some (n, rest)"
  shows "s = show_base 10 (unat (of_nat n :: u8)) @ rest"
  using read_number_SomeD [OF assms] by (auto simp: unat_of_nat show_number_of)

lemma join_with_Cons: "join_with sep (x # xs) = x @ concat (map (\<lambda>y. sep @ y) xs)"
  by (induction xs arbitrary: x) simp_all

lemma read_octets_text:
  "read_octets k (Suc i) s = Some (b, rest) \<Longrightarrow>
     length b = k \<and> s = concat (map (\<lambda>w. ''.'' @ show_base 10 (unat w)) b) @ rest"
  by (induction k arbitrary: i s b)
    (auto simp: read_separator_def read_given_char_iff bind_eq_Some_conv dest!: read_octet_text)

lemma read_ipv4_text:
  assumes "read_ipv4_addr s = Some (b, rest)"
  shows "length b = 4 \<and> s = show_ipv4 b @ rest"
proof -
  obtain n r c where n: "read_number 10 (Some 3) False 256 s = Some (n, r)" and c: "read_octets 3 (Suc 0) r = Some (c, rest)"
      and b: "b = of_nat n # c"
    using assms by (auto simp: read_ipv4_addr_def numeral_eq_Suc read_separator_def bind_eq_Some_conv)
  show ?thesis
    using read_octet_text [OF n] read_octets_text [OF c] b by (simp add: show_ipv4_def join_with_Cons comp_def)
qed

lemma parse_ipv4_text: "parse_ipv4 s = Some b \<Longrightarrow> length b = 4 \<and> show_ipv4 b = s"
  by (auto simp: parse_ipv4_def parse_with_def dest!: read_ipv4_text split: if_splits option.splits list.splits)

section \<open>Where addresses have colons\<close>

lemma number_of_decimal: "list_all (radix_digit 10) ds \<Longrightarrow> number_of 10 ds = decimal ds"
proof -
  have "foldl (\<lambda>n c. 10 * n + digit_val c) a ds = foldl (\<lambda>n c. 10 * n + (of_char c - 48)) a ds"
    if "list_all (radix_digit 10) ds" for a
    using that by (induction ds arbitrary: a) (auto simp: digit_val_def radix_digit_def is_digit_def)
  then show "list_all (radix_digit 10) ds \<Longrightarrow> number_of 10 ds = decimal ds" by (simp add: number_of_def decimal_def)
qed

lemma radix_10_is_digit: "radix_digit 10 c \<longleftrightarrow> is_digit c"
  by (simp add: radix_digit_def)

lemma parse_unsigned_digits:
  assumes "ds \<noteq> []" and "list_all is_digit ds" and "decimal ds < bound"
  shows "parse_unsigned bound ds = Some (decimal ds)"
  using assms by (cases ds) (auto simp: parse_unsigned_def is_digit_def)

lemma split_on_append_sep: "c \<notin> set xs \<Longrightarrow> split_on c (xs @ c # ys) = xs # split_on c ys"
  by (induction xs) auto

lemma split_on_none: "c \<notin> set xs \<Longrightarrow> split_on c xs = [xs]"
  by (induction xs) auto

lemma digit_decimal: "k < 10 \<Longrightarrow> digit k \<in> set ''0123456789''"
proof -
  assume "k < 10"
  then have "k \<in> {0, 1, 2, 3, 4, 5, 6, 7, 8, 9}" by auto
  then show ?thesis by (auto simp: digit_def)
qed

lemma show_base_digits: "set (show_base 10 n) \<subseteq> set ''0123456789''"
proof (induction n rule: less_induct)
  case (less n)
  show ?case
    using less [of "n div 10"] digit_decimal [of n] digit_decimal [of "n mod 10"]
    by (subst show_base.simps) simp
qed

lemma show_ipv4_no_colon: "CHR '':'' \<notin> set (show_ipv4 b)"
proof (cases b)
  case (Cons w ws)
  have "CHR '':'' \<notin> set (show_base 10 n)" for n using show_base_digits [of n] by auto
  then show ?thesis by (auto simp: Cons show_ipv4_def join_with_Cons)
qed (simp add: show_ipv4_def)

text \<open>A socket address with an IPv4 host is its dotted text, a colon and the digits of the port.\<close>

lemma parse_socket_addr_v4:
  assumes "parse_socket_addr s = Some (V4 b, p)"
  shows "\<exists>ds. s = show_ipv4 b @ '':'' @ ds \<and> length b = 4 \<and> parse_u16 ds = Some (unat p) \<and> CHR '':'' \<notin> set ds"
proof -
  have "read_socket_addr_v4 s = Some ((V4 b, p), [])"
    using assms by (auto simp: parse_socket_addr_def parse_with_def read_socket_addr_v6_def bind_eq_Some_conv
        split: option.splits list.splits)
  then obtain r n where r: "read_ipv4_addr s = Some (b, CHR '':'' # r)"
      and n: "read_number 10 None True (2 ^ 16) r = Some (n, [])" and p: "p = of_nat n"
    by (auto simp: read_socket_addr_v4_def read_port_def read_given_char_iff bind_eq_Some_conv)
  have digits: "r \<noteq> []" "list_all is_digit r" "n = decimal r" "n < 2 ^ 16"
    using read_number_SomeD [OF n] by (auto simp: number_of_decimal radix_10_is_digit cong: list.pred_cong)
  then have "parse_u16 r = Some (unat p)" "CHR '':'' \<notin> set r"
    using p by (auto simp: parse_unsigned_digits unat_of_nat list_all_iff is_digit_def)
  with read_ipv4_text [OF r] show ?thesis by auto
qed

lemma parse_socket_addr_v6: "parse_socket_addr s = Some (V6 b, p) \<Longrightarrow> \<exists>r. s = CHR ''['' # r"
  by (auto simp: parse_socket_addr_def parse_with_def read_socket_addr_v4_def read_socket_addr_v6_def
      read_given_char_iff bind_eq_Some_conv split: option.splits list.splits)

end
