(* ===== verification/Tunnel.thy ===== *)
theory Tunnel
  imports Registry Socket Net_Addr
begin

text \<open>
  The tunnel client of \<open>server/parseh-tunnel/src/\<close>: the control messages (\<open>protocol.rs\<close>), the choice of
  an exit peer from the registry (\<open>router.rs\<close>), the SOCKS5 handshake (\<open>socks5.rs\<close>) and one session
  (\<open>tunnel.rs\<close>).
\<close>

section \<open>Control messages\<close>

definition TUNNEL_WIRE_VERSION :: u32 where
  "TUNNEL_WIRE_VERSION = 1"

definition SIGNATURE_DOMAIN :: bytes where
  "SIGNATURE_DOMAIN = ascii_bytes ''parseh-tunnel-v1''"

record tunnel_request =
  tr_wire_version :: u32
  tr_target_host :: string
  tr_target_port :: u16
  tr_client_peer_id :: peer_id
  tr_signed_at :: u64
  tr_signature :: bytes

datatype rejection_reason = NoExternalInternet | RateLimited | TargetForbidden string | OtherReason string

datatype tunnel_response = Accepted | RejectedBy rejection_reason

text \<open>The host length is clamped to 16 bits (\<open>len.min(u16::MAX)\<close>).\<close>

definition signing_payload :: "u32 \<Rightarrow> string \<Rightarrow> u16 \<Rightarrow> peer_id \<Rightarrow> u64 \<Rightarrow> bytes" where
  "signing_payload wire_version target_host target_port client signed_at =
     SIGNATURE_DOMAIN @ be_bytes 4 wire_version
     @ be_bytes 2 (of_nat (min (length target_host) (2 ^ 16 - 1)) :: u16)
     @ ascii_bytes target_host @ be_bytes 2 target_port @ peer_bytes client @ be_bytes 8 signed_at"

text \<open>The CBOR shapes; a plain \<open>Vec<u8>\<close> travels as an array of integers.\<close>

definition wr_tunnel_request :: "tunnel_request \<Rightarrow> cbor" where
  "wr_tunnel_request r = CMap
     [(''wire_version'', wr_u (tr_wire_version r)), (''target_host'', CText (tr_target_host r)),
      (''target_port'', wr_u (tr_target_port r)), (''client_peer_id'', wr_peer (tr_client_peer_id r)),
      (''signed_at'', wr_u (tr_signed_at r)), (''signature'', wr_list wr_u (tr_signature r))]"

definition rd_tunnel_request :: "cbor \<Rightarrow> tunnel_request option" where
  "rd_tunnel_request v = do {
     m \<leftarrow> map_fields v;
     w \<leftarrow> field ''wire_version'' rd_u m;
     h \<leftarrow> field ''target_host'' rd_text m;
     p \<leftarrow> field ''target_port'' rd_u m;
     c \<leftarrow> field ''client_peer_id'' rd_peer m;
     t \<leftarrow> field ''signed_at'' rd_u m;
     sg \<leftarrow> field ''signature'' (rd_list rd_u) m;
     Some \<lparr>tr_wire_version = w, tr_target_host = h, tr_target_port = p, tr_client_peer_id = c,
       tr_signed_at = t, tr_signature = sg\<rparr>
   }"

definition wr_reason :: "rejection_reason \<Rightarrow> cbor" where
  "wr_reason r = (case r of NoExternalInternet \<Rightarrow> CText ''NoExternalInternet'' | RateLimited \<Rightarrow> CText ''RateLimited''
     | TargetForbidden s \<Rightarrow> CMap [(''TargetForbidden'', CText s)] | OtherReason s \<Rightarrow> CMap [(''Other'', CText s)])"

definition rd_reason :: "cbor \<Rightarrow> rejection_reason option" where
  "rd_reason v = (case v of
     CText s \<Rightarrow> (if s = ''NoExternalInternet'' then Some NoExternalInternet
       else if s = ''RateLimited'' then Some RateLimited else None)
   | CMap [(n, b)] \<Rightarrow> (if n = ''TargetForbidden'' then map_option TargetForbidden (rd_text b)
       else if n = ''Other'' then map_option OtherReason (rd_text b) else None)
   | _ \<Rightarrow> None)"

definition wr_tunnel_response :: "tunnel_response \<Rightarrow> cbor" where
  "wr_tunnel_response r = (case r of Accepted \<Rightarrow> CText ''Accepted'' | RejectedBy e \<Rightarrow> CMap [(''Rejected'', wr_reason e)])"

definition rd_tunnel_response :: "cbor \<Rightarrow> tunnel_response option" where
  "rd_tunnel_response v = (case v of
     CText s \<Rightarrow> (if s = ''Accepted'' then Some Accepted else None)
   | CMap [(n, b)] \<Rightarrow> (if n = ''Rejected'' then map_option RejectedBy (rd_reason b) else None)
   | _ \<Rightarrow> None)"

lemma rd_wr_reason [wire_simps]: "rd_reason (wr_reason r) = Some r"
  by (cases r) (simp_all add: rd_reason_def wr_reason_def wire_simps)

lemma rd_wr_tunnel_request: "rd_tunnel_request (wr_tunnel_request r) = Some r"
  by (simp add: rd_tunnel_request_def wr_tunnel_request_def read_defs wire_simps)

lemma rd_wr_tunnel_response: "rd_tunnel_response (wr_tunnel_response r) = Some r"
  by (cases r) (simp_all add: rd_tunnel_response_def wr_tunnel_response_def wire_simps)

section \<open>Exit selection\<close>

record exit_candidate =
  xc_peer_id :: peer_id
  xc_network_address :: multiaddr
  xc_bandwidth_mbps_external :: u32
  xc_has_external_internet :: bool

definition from_advertisement :: "advertisement \<Rightarrow> exit_candidate option" where
  "from_advertisement ad =
     (if SvcRelay \<notin> set (ad_services ad) then None
      else let bandwidth = (case ad_relay ad of Some r \<Rightarrow> rc_bandwidth_mbps r | None \<Rightarrow> 0)
           in Some \<lparr>xc_peer_id = ad_peer_id ad, xc_network_address = ad_network_address ad,
                xc_bandwidth_mbps_external = bandwidth, xc_has_external_internet = True\<rparr>)"

text \<open>
  \<open>sort_by\<close> with bandwidth descending, then the id bytes ascending, as the stable sort by the second key
  followed by the stable sort by the first.
\<close>

definition ranked_candidates :: "registry \<Rightarrow> exit_candidate list" where
  "ranked_candidates g =
     sort_desc (\<lambda>c. unat (xc_bandwidth_mbps_external c))
       (sort_key xc_peer_id
         (filter xc_has_external_internet (List.map_filter from_advertisement (registry_snapshot g))))"

definition pick_exit :: "registry \<Rightarrow> exit_candidate option" where
  "pick_exit g = (case ranked_candidates g of [] \<Rightarrow> None | c # _ \<Rightarrow> Some c)"

definition failover :: "registry \<Rightarrow> peer_id \<Rightarrow> exit_candidate option" where
  "failover g failed = List.find (\<lambda>c. xc_peer_id c \<noteq> failed) (ranked_candidates g)"

section \<open>SOCKS5\<close>

text \<open>The texts of \<open>Socks5Error::Protocol\<close> are kept as their cause.\<close>

datatype protocol_cause =
    GreetingVersion u8
  | NoAcceptableMethod
  | RequestVersion u8
  | DomainNotUtf8
  | UnsupportedAtyp u8

datatype socks5_error = SocksIo | Protocol protocol_cause | UnsupportedCommand u8

record socks5_target =
  st_host :: string
  st_port :: u16

definition SOCKS5_VERSION :: u8 where "SOCKS5_VERSION = 0x05"
definition METHOD_NO_AUTH :: u8 where "METHOD_NO_AUTH = 0x00"
definition METHOD_NO_ACCEPTABLE :: u8 where "METHOD_NO_ACCEPTABLE = 0xFF"
definition CMD_CONNECT :: u8 where "CMD_CONNECT = 0x01"
definition ATYP_IPV4 :: u8 where "ATYP_IPV4 = 0x01"
definition ATYP_DOMAINNAME :: u8 where "ATYP_DOMAINNAME = 0x03"
definition ATYP_IPV6 :: u8 where "ATYP_IPV6 = 0x04"

lemmas socks_consts = SOCKS5_VERSION_def METHOD_NO_AUTH_def METHOD_NO_ACCEPTABLE_def CMD_CONNECT_def
  ATYP_IPV4_def ATYP_DOMAINNAME_def ATYP_IPV6_def

datatype socks_reply =
  Succeeded | GeneralFailure | NetworkUnreachable | HostUnreachable | ConnectionRefused | CommandNotSupported

definition reply_code :: "socks_reply \<Rightarrow> u8" where
  "reply_code r = (case r of Succeeded \<Rightarrow> 0x00 | GeneralFailure \<Rightarrow> 0x01 | NetworkUnreachable \<Rightarrow> 0x03
     | HostUnreachable \<Rightarrow> 0x04 | ConnectionRefused \<Rightarrow> 0x05 | CommandNotSupported \<Rightarrow> 0x07)"

type_synonym 'a io = "(socks5_error, 'a) sio"

abbreviation read_exact :: "nat \<Rightarrow> bytes io" where
  "read_exact \<equiv> read_or SocksIo"

abbreviation write_all :: "bytes \<Rightarrow> unit io" where
  "write_all \<equiv> write_or SocksIo"

definition negotiate_no_auth :: "unit io" where
  "negotiate_no_auth =
     bind_io (read_exact 2) (\<lambda>head.
       if head ! 0 \<noteq> SOCKS5_VERSION then fail_io (Protocol (GreetingVersion (head ! 0)))
       else bind_io (read_exact (unat (head ! 1))) (\<lambda>methods.
         let chosen = (if METHOD_NO_AUTH \<in> set methods then METHOD_NO_AUTH else METHOD_NO_ACCEPTABLE)
         in bind_io (write_all [SOCKS5_VERSION, chosen]) (\<lambda>_.
              if chosen = METHOD_NO_ACCEPTABLE then fail_io (Protocol NoAcceptableMethod) else return_io ())))"

definition write_reply :: "socks_reply \<Rightarrow> socket_addr \<Rightarrow> unit io" where
  "write_reply reply bnd =
     write_all ([SOCKS5_VERSION, reply_code reply, 0x00]
       @ (case fst bnd of V4 b \<Rightarrow> ATYP_IPV4 # b | V6 b \<Rightarrow> ATYP_IPV6 # b) @ be_bytes 2 (snd bnd))"

definition dummy_bnd :: socket_addr where
  "dummy_bnd = (V4 [0, 0, 0, 0], 0)"

definition read_domain :: "string io" where
  "read_domain =
     bind_io (read_exact 1) (\<lambda>len_buf. bind_io (read_exact (unat (len_buf ! 0))) (\<lambda>name.
       if valid_utf8 (byte_string name) then return_io (byte_string name)
       else bind_io (write_reply GeneralFailure dummy_bnd) (\<lambda>_. fail_io (Protocol DomainNotUtf8))))"

definition read_host :: "u8 \<Rightarrow> string io" where
  "read_host atyp =
     (if atyp = ATYP_IPV4 then bind_io (read_exact 4) (\<lambda>b. return_io (show_ipv4 b))
      else if atyp = ATYP_IPV6 then bind_io (read_exact 16) (\<lambda>b. return_io (show_ipv6 b))
      else if atyp = ATYP_DOMAINNAME then read_domain
      else bind_io (write_reply GeneralFailure dummy_bnd) (\<lambda>_. fail_io (Protocol (UnsupportedAtyp atyp))))"

definition read_connect_request :: "socks5_target io" where
  "read_connect_request =
     bind_io (read_exact 4) (\<lambda>head.
       if head ! 0 \<noteq> SOCKS5_VERSION then fail_io (Protocol (RequestVersion (head ! 0)))
       else if head ! 1 \<noteq> CMD_CONNECT then
         bind_io (write_reply CommandNotSupported dummy_bnd) (\<lambda>_. fail_io (UnsupportedCommand (head ! 1)))
       else bind_io (read_host (head ! 3)) (\<lambda>host. bind_io (read_exact 2) (\<lambda>port_buf.
         return_io \<lparr>st_host = host, st_port = from_be16 (port_buf ! 0) (port_buf ! 1)\<rparr>)))"

section \<open>One session\<close>

datatype tunnel_error = TunnelSocks5 socks5_error | NoExitAvailable | ExitStreamNotImplemented

definition build_signed_request :: "prims \<Rightarrow> peer_id \<Rightarrow> bytes \<Rightarrow> u64 \<Rightarrow> socks5_target \<Rightarrow> tunnel_request" where
  "build_signed_request P client key signed_at target =
     (let payload = signing_payload TUNNEL_WIRE_VERSION (st_host target) (st_port target) client signed_at
      in \<lparr>tr_wire_version = TUNNEL_WIRE_VERSION, tr_target_host = st_host target, tr_target_port = st_port target,
           tr_client_peer_id = client, tr_signed_at = signed_at, tr_signature = ed_sign P key payload\<rparr>)"

text \<open>
  The session stops at the stream-open boundary: the signed request is built and dropped, and the
  replies at the end ignore write errors (\<open>let _ =\<close>).
\<close>

definition run_session :: "registry \<Rightarrow> socket \<Rightarrow> (tunnel_error + unit) \<times> socket" where
  "run_session g sock =
     (case bind_io negotiate_no_auth (\<lambda>_. read_connect_request) sock of
        (Inl e, sock) \<Rightarrow> (Inl (TunnelSocks5 e), sock)
      | (Inr target, sock) \<Rightarrow>
          (case pick_exit g of
             None \<Rightarrow> (Inl NoExitAvailable, snd (write_reply NetworkUnreachable (V4 [0, 0, 0, 0], 0) sock))
           | Some exit \<Rightarrow> (Inl ExitStreamNotImplemented, snd (write_reply GeneralFailure (V4 [0, 0, 0, 0], 0) sock))))"

definition rejection_to_socks5_reply :: "rejection_reason \<Rightarrow> socks_reply" where
  "rejection_to_socks5_reply r = (case r of NoExternalInternet \<Rightarrow> NetworkUnreachable | RateLimited \<Rightarrow> GeneralFailure
     | TargetForbidden _ \<Rightarrow> ConnectionRefused | OtherReason _ \<Rightarrow> GeneralFailure)"

definition require_bootstrap :: "string list \<Rightarrow> bool" where
  "require_bootstrap bootstrap \<longleftrightarrow> bootstrap \<noteq> []"

section \<open>The target of a test run\<close>

datatype host_port_error = BadPort | UrlHasNoHost

definition strip_scheme :: "string \<Rightarrow> string" where
  "strip_scheme url = (case strip_prefix ''https://'' url of Some rest \<Rightarrow> rest
     | None \<Rightarrow> (case strip_prefix ''http://'' url of Some rest \<Rightarrow> rest | None \<Rightarrow> url))"

definition parse_host_port :: "string \<Rightarrow> host_port_error + string \<times> u16" where
  "parse_host_port url =
     (let s = before_char CHR ''/'' (strip_scheme url)
      in bind_result
           (case rsplit_once CHR '':'' s of
              Some (h, p) \<Rightarrow> (case parse_u16 p of Some n \<Rightarrow> Inr (h, of_nat n) | None \<Rightarrow> Inl BadPort)
            | None \<Rightarrow> Inr (s, 443))
           (\<lambda>(host, port). if host = [] then Inl UrlHasNoHost else Inr (host, port)))"

end
