(* ===== verification/Tunnel_Properties.thy ===== *)
theory Tunnel_Properties
  imports Tunnel Registry_Properties
begin

text \<open>
  What the tunnel client promises: the SOCKS5 parser accepts exactly the encoded CONNECT requests and
  reads nothing beyond them, every session answers its client, exits are ranked by bandwidth and id
  whatever order the registry iterates in, and the signed bytes determine the request.
\<close>

section \<open>The CONNECT request\<close>

datatype request_addr = ReqV4 bytes | ReqV6 bytes | ReqDomain bytes

definition wf_addr :: "request_addr \<Rightarrow> bool" where
  "wf_addr a = (case a of ReqV4 b \<Rightarrow> length b = 4 | ReqV6 b \<Rightarrow> length b = 16
     | ReqDomain b \<Rightarrow> length b < 256 \<and> valid_utf8 (byte_string b))"

definition addr_text :: "request_addr \<Rightarrow> string" where
  "addr_text a = (case a of ReqV4 b \<Rightarrow> show_ipv4 b | ReqV6 b \<Rightarrow> show_ipv6 b | ReqDomain b \<Rightarrow> byte_string b)"

text \<open>The encoding of RFC 1928: address type, then four, sixteen or length-prefixed bytes.\<close>

definition encode_addr :: "request_addr \<Rightarrow> bytes" where
  "encode_addr a = (case a of ReqV4 b \<Rightarrow> 0x01 # b | ReqV6 b \<Rightarrow> 0x04 # b
     | ReqDomain b \<Rightarrow> 0x03 # of_nat (length b) # b)"

definition encode_connect :: "u8 \<Rightarrow> request_addr \<Rightarrow> u16 \<Rightarrow> bytes" where
  "encode_connect rsv a port = [0x05, 0x01, rsv] @ encode_addr a @ be_bytes 2 port"

lemma list2_iff: "length b = 2 \<longleftrightarrow> (\<exists>x y. b = [x, y])"
  by (auto simp: numeral_2_eq_2 length_Suc_conv)

lemma list1_iff: "length b = 1 \<longleftrightarrow> (\<exists>x. b = [x])"
  by (auto simp: length_Suc_conv)

lemma list4_iff: "length b = 4 \<longleftrightarrow> (\<exists>x y z w. b = [x, y, z, w])"
  by (auto simp: numeral_eq_Suc length_Suc_conv)

lemma length_unat_byte: "length b = unat (l :: u8) \<longleftrightarrow> length b < 256 \<and> l = of_nat (length b)"
  using unsigned_less [of l, where ?'a = nat] by (auto simp: unat_of_nat)

lemma read_domain_iff [io_iff]:
  "read_domain s = (Inr h, s') \<longleftrightarrow> (\<exists>b r. wf_addr (ReqDomain b) \<and> h = byte_string b
     \<and> sk_in s = of_nat (length b) # b @ r \<and> s' = s\<lparr>sk_in := r\<rparr>)"
proof
  assume "read_domain s = (Inr h, s')"
  then obtain l b r where "sk_in s = l # b @ r" "s' = s\<lparr>sk_in := r\<rparr>" "length b = unat l"
      "valid_utf8 (byte_string b)" "h = byte_string b"
    unfolding read_domain_def io_iff list1_iff by (auto simp: io_iff split: if_splits)
  then show "\<exists>b r. wf_addr (ReqDomain b) \<and> h = byte_string b
     \<and> sk_in s = of_nat (length b) # b @ r \<and> s' = s\<lparr>sk_in := r\<rparr>"
    by (intro exI [of _ b] exI [of _ r]) (auto simp: wf_addr_def length_unat_byte)
next
  assume "\<exists>b r. wf_addr (ReqDomain b) \<and> h = byte_string b
     \<and> sk_in s = of_nat (length b) # b @ r \<and> s' = s\<lparr>sk_in := r\<rparr>"
  then obtain b r where b: "wf_addr (ReqDomain b)" "h = byte_string b"
     "sk_in s = of_nat (length b) # b @ r" "s' = s\<lparr>sk_in := r\<rparr>" by blast
  have "read_exact 1 s = (Inr [of_nat (length b)], s\<lparr>sk_in := b @ r\<rparr>)"
    using b(3) by (simp add: read_or_def)
  moreover have "unat (of_nat (length b) :: u8) = length b"
    using b(1) by (simp add: wf_addr_def unat_of_nat)
  moreover have "read_exact (length b) (s\<lparr>sk_in := b @ r\<rparr>) = (Inr b, s')"
    using b(4) by (simp add: read_or_def)
  ultimately show "read_domain s = (Inr h, s')"
    using b(1,2) by (simp add: read_domain_def bind_io_def wf_addr_def return_io_def)
qed

lemma read_host_iff [io_iff]:
  "read_host atyp s = (Inr h, s') \<longleftrightarrow> (\<exists>a r. wf_addr a \<and> h = addr_text a
     \<and> atyp # sk_in s = encode_addr a @ r \<and> s' = s\<lparr>sk_in := r\<rparr>)"
proof
  assume "read_host atyp s = (Inr h, s')"
  then consider b r where "atyp = ATYP_IPV4" "length b = 4" "sk_in s = b @ r" "s' = s\<lparr>sk_in := r\<rparr>" "h = show_ipv4 b"
    | b r where "atyp = ATYP_IPV6" "length b = 16" "sk_in s = b @ r" "s' = s\<lparr>sk_in := r\<rparr>" "h = show_ipv6 b"
    | b r where "atyp = ATYP_DOMAINNAME" "wf_addr (ReqDomain b)" "h = byte_string b"
        "sk_in s = of_nat (length b) # b @ r" "s' = s\<lparr>sk_in := r\<rparr>"
    by (auto simp: read_host_def io_iff split: if_splits)
  then show "\<exists>a r. wf_addr a \<and> h = addr_text a \<and> atyp # sk_in s = encode_addr a @ r \<and> s' = s\<lparr>sk_in := r\<rparr>"
  proof cases
    case (1 b r)
    then show ?thesis by (intro exI [of _ "ReqV4 b"] exI [of _ r]) (simp add: wf_addr_def addr_text_def encode_addr_def socks_consts)
  next
    case (2 b r)
    then show ?thesis by (intro exI [of _ "ReqV6 b"] exI [of _ r]) (simp add: wf_addr_def addr_text_def encode_addr_def socks_consts)
  next
    case (3 b r)
    then show ?thesis by (intro exI [of _ "ReqDomain b"] exI [of _ r]) (simp add: addr_text_def encode_addr_def socks_consts)
  qed
next
  assume "\<exists>a r. wf_addr a \<and> h = addr_text a \<and> atyp # sk_in s = encode_addr a @ r \<and> s' = s\<lparr>sk_in := r\<rparr>"
  then obtain a r where a: "wf_addr a" "h = addr_text a" "atyp # sk_in s = encode_addr a @ r" "s' = s\<lparr>sk_in := r\<rparr>" by blast
  then show "read_host atyp s = (Inr h, s')"
    by (cases a) (auto simp: read_host_def io_iff addr_text_def encode_addr_def socks_consts wf_addr_def)
qed

lemma read_connect_encoded:
  assumes "wf_addr a" and "sk_in s = encode_connect rsv a port @ rest"
  shows "read_connect_request s = (Inr \<lparr>st_host = addr_text a, st_port = port\<rparr>, s\<lparr>sk_in := rest\<rparr>)"
proof -
  obtain atyp r1 where r1: "encode_addr a @ be_bytes 2 port @ rest = atyp # r1"
    by (cases a) (simp_all add: encode_addr_def)
  have "read_exact 4 s = (Inr [0x05, 0x01, rsv, atyp], s\<lparr>sk_in := r1\<rparr>)"
    using assms(2) r1 by (simp add: encode_connect_def read_or_def)
  moreover have "read_host atyp (s\<lparr>sk_in := r1\<rparr>) = (Inr (addr_text a), s\<lparr>sk_in := be_bytes 2 port @ rest\<rparr>)"
    unfolding read_host_iff using assms(1) r1 by (intro exI [of _ a] exI [of _ "be_bytes 2 port @ rest"]) simp
  moreover have "read_exact 2 (s\<lparr>sk_in := be_bytes 2 port @ rest\<rparr>) = (Inr (be_bytes 2 port), s\<lparr>sk_in := rest\<rparr>)"
    by (simp add: read_or_def)
  ultimately show ?thesis
    by (simp add: read_connect_request_def bind_io_def socks_consts return_io_def be_bytes_2 from_be16_be_bytes)
qed

text \<open>
  C16. Reading a CONNECT request succeeds exactly on the encodings of RFC 1928 (whatever the reserved
  byte is): the target is the textual address and the port, precisely the bytes of the request are
  consumed, and nothing is written. Every other input is an error.
\<close>

theorem connect_request_exact:
  "read_connect_request s = (Inr target, s') \<longleftrightarrow>
     (\<exists>rsv a port rest. wf_addr a \<and> sk_in s = encode_connect rsv a port @ rest
        \<and> target = \<lparr>st_host = addr_text a, st_port = port\<rparr> \<and> s' = s\<lparr>sk_in := rest\<rparr>)"
proof
  assume "read_connect_request s = (Inr target, s')"
  then obtain rsv a x y r where h: "sk_in s = 0x05 # 0x01 # rsv # encode_addr a @ x # y # r" "wf_addr a"
      "target = \<lparr>st_host = addr_text a, st_port = from_be16 x y\<rparr>" "s' = s\<lparr>sk_in := r\<rparr>"
    by (auto simp: read_connect_request_def io_iff list4_iff list2_iff socks_consts split: if_splits)
  then show "\<exists>rsv a port rest. wf_addr a \<and> sk_in s = encode_connect rsv a port @ rest
        \<and> target = \<lparr>st_host = addr_text a, st_port = port\<rparr> \<and> s' = s\<lparr>sk_in := rest\<rparr>"
    by (intro exI [of _ rsv] exI [of _ a] exI [of _ "from_be16 x y"] exI [of _ r])
      (simp add: encode_connect_def be_bytes_from_be16)
next
  assume "\<exists>rsv a port rest. wf_addr a \<and> sk_in s = encode_connect rsv a port @ rest
        \<and> target = \<lparr>st_host = addr_text a, st_port = port\<rparr> \<and> s' = s\<lparr>sk_in := rest\<rparr>"
  then obtain rsv a port rest where a: "wf_addr a" "sk_in s = encode_connect rsv a port @ rest"
      "target = \<lparr>st_host = addr_text a, st_port = port\<rparr>" "s' = s\<lparr>sk_in := rest\<rparr>" by blast
  then show "read_connect_request s = (Inr target, s')" by (simp add: read_connect_encoded)
qed

section \<open>The session\<close>

lemma negotiate_ok_iff:
  "negotiate_no_auth s = (Inr (), s') \<longleftrightarrow> (\<exists>methods rest. length methods < 256 \<and> METHOD_NO_AUTH \<in> set methods \<and> sk_open s
     \<and> sk_in s = [0x05, of_nat (length methods)] @ methods @ rest
     \<and> s' = s\<lparr>sk_in := rest, sk_out := sk_out s @ [0x05, 0x00]\<rparr>)"
proof
  assume "negotiate_no_auth s = (Inr (), s')"
  then obtain l methods rest where "sk_in s = [0x05, l] @ methods @ rest" "length methods = unat l"
      "METHOD_NO_AUTH \<in> set methods" "sk_open s" "s' = s\<lparr>sk_in := rest, sk_out := sk_out s @ [0x05, 0x00]\<rparr>"
    by (auto simp: negotiate_no_auth_def io_iff list2_iff socks_consts write_or_def Let_def split: if_splits)
  then show "\<exists>methods rest. length methods < 256 \<and> METHOD_NO_AUTH \<in> set methods \<and> sk_open s
     \<and> sk_in s = [0x05, of_nat (length methods)] @ methods @ rest
     \<and> s' = s\<lparr>sk_in := rest, sk_out := sk_out s @ [0x05, 0x00]\<rparr>"
    by (intro exI [of _ methods] exI [of _ rest]) (auto simp: length_unat_byte)
next
  assume "\<exists>methods rest. length methods < 256 \<and> METHOD_NO_AUTH \<in> set methods \<and> sk_open s
     \<and> sk_in s = [0x05, of_nat (length methods)] @ methods @ rest
     \<and> s' = s\<lparr>sk_in := rest, sk_out := sk_out s @ [0x05, 0x00]\<rparr>"
  then obtain methods rest where m: "length methods < 256" "METHOD_NO_AUTH \<in> set methods" "sk_open s"
     "sk_in s = [0x05, of_nat (length methods)] @ methods @ rest"
     "s' = s\<lparr>sk_in := rest, sk_out := sk_out s @ [0x05, 0x00]\<rparr>" by blast
  have "read_exact 2 s = (Inr [0x05, of_nat (length methods)], s\<lparr>sk_in := methods @ rest\<rparr>)"
    using m(4) by (simp add: read_or_def)
  moreover have "unat (of_nat (length methods) :: u8) = length methods" using m(1) by (simp add: unat_of_nat)
  moreover have "read_exact (length methods) (s\<lparr>sk_in := methods @ rest\<rparr>) = (Inr methods, s\<lparr>sk_in := rest\<rparr>)"
    by (simp add: read_or_def)
  ultimately show "negotiate_no_auth s = (Inr (), s')"
    using m(2,3,5) by (simp add: negotiate_no_auth_def bind_io_def socks_consts write_or_def return_io_def)
qed

text \<open>The reply a session ends with once the request is read, as it is on the wire.\<close>

definition final_reply :: "registry \<Rightarrow> bytes" where
  "final_reply g = [0x05, if pick_exit g = None then 0x03 else 0x01, 0x00, 0x01, 0, 0, 0, 0, 0, 0]"

lemma be_bytes_2_0: "be_bytes 2 (0 :: u16) = [0, 0]"
  by (simp add: be_bytes_2)

text \<open>
  A session never reports success: the byte copy is not wired. On a well-formed client (a greeting
  that offers no-auth, then a CONNECT request) it consumes exactly the handshake, answers
  \<open>05 00\<close> and a failure reply, \<open>network unreachable\<close> exactly when the registry has no relay, and
  ends with the matching error.
\<close>

lemma session_reply:
  assumes "sk_open s" and "length methods < 256" and "METHOD_NO_AUTH \<in> set methods" and "wf_addr a"
    and "sk_in s = [0x05, of_nat (length methods)] @ methods @ encode_connect rsv a port @ rest"
  shows "run_session g s =
    (Inl (if pick_exit g = None then NoExitAvailable else ExitStreamNotImplemented),
     s\<lparr>sk_in := rest, sk_out := sk_out s @ [0x05, 0x00] @ final_reply g\<rparr>)"
proof -
  let ?s1 = "s\<lparr>sk_in := encode_connect rsv a port @ rest, sk_out := sk_out s @ [0x05, 0x00]\<rparr>"
  have "negotiate_no_auth s = (Inr (), ?s1)" using assms unfolding negotiate_ok_iff by blast
  moreover have "read_connect_request ?s1 = (Inr \<lparr>st_host = addr_text a, st_port = port\<rparr>, ?s1\<lparr>sk_in := rest\<rparr>)"
    using assms(4) by (rule read_connect_encoded) simp
  ultimately show ?thesis
    using assms(1) by (simp add: run_session_def bind_io_def write_reply_def write_or_def socks_consts final_reply_def
        reply_code_def be_bytes_2_0 split: option.splits)
qed

section \<open>Ranking of exits\<close>

text \<open>The documented order: more bandwidth first, ties by the bytes of the peer id.\<close>

definition better :: "exit_candidate \<Rightarrow> exit_candidate \<Rightarrow> bool" where
  "better c d \<longleftrightarrow> xc_bandwidth_mbps_external d < xc_bandwidth_mbps_external c \<or>
     xc_bandwidth_mbps_external c = xc_bandwidth_mbps_external d \<and> xc_peer_id c < xc_peer_id d"

definition best :: "exit_candidate set \<Rightarrow> exit_candidate \<Rightarrow> bool" where
  "best S c \<longleftrightarrow> c \<in> S \<and> (\<forall>d \<in> S. d \<noteq> c \<longrightarrow> better c d)"

definition relays :: "registry \<Rightarrow> exit_candidate set" where
  "relays g = {c. \<exists>a \<in> snd ` set (rg_ads g). from_advertisement a = Some c}"

lemma sorted_two_keys:
  fixes k :: "'a \<Rightarrow> 'b::linorder"
  assumes "sorted (map k ys)" and "\<And>v. sorted_wrt Q (filter (\<lambda>x. k x = v) ys)"
  shows "sorted_wrt (\<lambda>a b. k a < k b \<or> k a = k b \<and> Q a b) ys"
  using assms
proof (induction ys)
  case (Cons y ys)
  have "k y < k b \<or> k y = k b \<and> Q y b" if b: "b \<in> set ys" for b
    using Cons.prems(1) Cons.prems(2) [of "k y"] b by (cases "k y = k b") (auto simp: less_le)
  moreover have "sorted_wrt Q (filter (\<lambda>x. k x = v) ys)" for v
    using Cons.prems(2) [of v] by (simp split: if_splits)
  ultimately show ?case using Cons by simp
qed simp

lemma from_advertisement_id: "from_advertisement a = Some c \<Longrightarrow> xc_peer_id c = ad_peer_id a"
  by (auto simp: from_advertisement_def split: if_splits)

lemma distinct_ad_ids: "registry_inv P g \<Longrightarrow> distinct (map ad_peer_id (registry_snapshot g))"
proof -
  assume inv: "registry_inv P g"
  then have "map ad_peer_id (registry_snapshot g) = map fst (rg_ads g)"
    by (auto simp: registry_inv_def registry_snapshot_def)
  with inv show ?thesis by (simp add: registry_inv_def)
qed

lemma distinct_candidate_ids:
  "distinct (map ad_peer_id as) \<Longrightarrow> distinct (map xc_peer_id (List.map_filter from_advertisement as))"
proof (induction as)
  case (Cons a as)
  have "xc_peer_id c \<notin> xc_peer_id ` set (List.map_filter from_advertisement as)" if "from_advertisement a = Some c" for c
    using Cons.prems that by (auto simp: set_map_filter dest!: from_advertisement_id) (metis image_eqI)
  with Cons show ?case by (auto simp: List.map_filter_simps split: option.splits)
qed (simp add: List.map_filter_simps)

lemma ranked_set: "set (ranked_candidates g) = relays g"
proof -
  have "xc_has_external_internet c" if "from_advertisement a = Some c" for a c
    using that by (auto simp: from_advertisement_def split: if_splits)
  then show ?thesis
    by (auto simp: ranked_candidates_def relays_def set_map_filter registry_snapshot_def)
qed

lemma ranked_sorted:
  assumes "registry_inv P g"
  shows "sorted_wrt better (ranked_candidates g)"
proof -
  let ?cs = "filter xc_has_external_internet (List.map_filter from_advertisement (registry_snapshot g))"
  let ?k = "\<lambda>c. - int (unat (xc_bandwidth_mbps_external c))"
  have "distinct (map ad_peer_id (registry_snapshot g))"
    by (rule distinct_ad_ids [OF assms])
  then have "distinct (map xc_peer_id ?cs)" by (simp add: distinct_candidate_ids distinct_map_filter)
  then have ids: "sorted_wrt (\<lambda>a b. xc_peer_id a < xc_peer_id b) (sort_key xc_peer_id ?cs)"
    by (simp flip: sorted_wrt_map add: strict_sorted_iff distinct_map)
  have "sorted_wrt (\<lambda>a b. ?k a < ?k b \<or> ?k a = ?k b \<and> xc_peer_id a < xc_peer_id b) (ranked_candidates g)"
    unfolding ranked_candidates_def sort_desc_def
    by (rule sorted_two_keys) (simp_all add: sort_key_stable sorted_wrt_filter [OF ids])
  then show ?thesis by (rule sorted_wrt_mono_rel [rotated]) (auto simp: better_def word_less_def word_uint_eqI)
qed

lemma better_total:
  assumes "registry_inv P g" and "c \<in> relays g" and "d \<in> relays g" and "c \<noteq> d"
  shows "better c d \<or> better d c"
proof -
  from assms ranked_set obtain i j where "i < length (ranked_candidates g)" "j < length (ranked_candidates g)"
      "c = ranked_candidates g ! i" "d = ranked_candidates g ! j" by (metis in_set_conv_nth)
  with ranked_sorted [OF assms(1)] assms(4) show ?thesis
    by (cases i j rule: linorder_cases) (auto simp: sorted_wrt_iff_nth_less)
qed

lemma better_asym: "better c d \<Longrightarrow> \<not> better d c"
  by (auto simp: better_def)

text \<open>The first element of a ranked list that passes a test is the best one that does.\<close>

lemma find_best:
  assumes "sorted_wrt better cs"
  shows "List.find T cs = Some c \<longleftrightarrow> best {d \<in> set cs. T d} c"
  using assms
proof (induction cs)
  case (Cons x cs)
  then have x: "\<forall>d \<in> set cs. better x d" and IH: "List.find T cs = Some c \<longleftrightarrow> best {d \<in> set cs. T d} c" by auto
  show ?case
  proof (cases "T x")
    case True
    have "best {d \<in> set (x # cs). T d} c \<longleftrightarrow> c = x"
      using x True better_asym by (auto simp: best_def)
    with True show ?thesis by auto
  next
    case False
    then have "{d \<in> set (x # cs). T d} = {d \<in> set cs. T d}" by auto
    with False IH show ?thesis by simp
  qed
qed (simp add: best_def)

lemma pick_exit_find: "pick_exit g = List.find (\<lambda>_. True) (ranked_candidates g)"
  by (cases "ranked_candidates g") (simp_all add: pick_exit_def)

text \<open>
  C17. The router offers exactly the peers that advertise the relay service, whatever readiness,
  expiry and external-internet flag they advertise; it picks the one with the highest bandwidth, ties
  by the smallest id, and fails over to the best one among the others.
\<close>

theorem exit_choice_exact:
  assumes "registry_inv P g"
  shows "(pick_exit g = Some c \<longleftrightarrow> best (relays g) c)
    \<and> (failover g failed = Some c \<longleftrightarrow> best {d \<in> relays g. xc_peer_id d \<noteq> failed} c)
    \<and> (pick_exit g = None \<longleftrightarrow> (\<forall>(p, a) \<in> set (rg_ads g). SvcRelay \<notin> set (ad_services a)))"
proof -
  have "relays g = {} \<longleftrightarrow> (\<forall>(p, a) \<in> set (rg_ads g). SvcRelay \<notin> set (ad_services a))"
    by (force simp: relays_def from_advertisement_def)
  moreover have "pick_exit g = None \<longleftrightarrow> relays g = {}"
    unfolding ranked_set [symmetric] by (cases "ranked_candidates g") (simp_all add: pick_exit_def)
  ultimately show ?thesis
    using find_best [OF ranked_sorted [OF assms], of "\<lambda>_. True" c]
      find_best [OF ranked_sorted [OF assms], of "\<lambda>d. xc_peer_id d \<noteq> failed" c]
    by (simp add: pick_exit_find failover_def ranked_set)
qed

theorem exit_choice_exact_witness:
  "registry_inv demo_prims demo_registry
   \<and> (pick_exit demo_registry = Some (the (pick_exit demo_registry)) \<longleftrightarrow> best (relays demo_registry) (the (pick_exit demo_registry)))
   \<and> pick_exit demo_registry \<noteq> None"
  using exit_choice_exact [OF demo_registry_inv, of "the (pick_exit demo_registry)" "PeerId [1]"] demo_registry_inv
  by (auto simp: demo_registry_maps demo_ad_def)

section \<open>The signed request\<close>

text \<open>
  For hosts below 64 KiB (SOCKS5 hosts have at most 255 bytes) the signed bytes determine every
  field of the request: a signature cannot be moved to another target, port, client, time or version.
\<close>

theorem signing_payload_binds:
  assumes "length host < 2 ^ 16" and "length host' < 2 ^ 16"
  shows "signing_payload v host port client t = signing_payload v' host' port' client' t'
    \<longleftrightarrow> v = v' \<and> host = host' \<and> port = port' \<and> client = client' \<and> t = t'"
proof
  let ?len = "\<lambda>h. be_bytes 2 (of_nat (min (length h) (2 ^ 16 - 1)) :: u16)"
  assume eq: "signing_payload v host port client t = signing_payload v' host' port' client' t'"
  then have v: "be_bytes 4 v = be_bytes 4 v'"
    and 1: "?len host @ ascii_bytes host @ be_bytes 2 port @ peer_bytes client @ be_bytes 8 t
      = ?len host' @ ascii_bytes host' @ be_bytes 2 port' @ peer_bytes client' @ be_bytes 8 t'"
    by (simp_all add: signing_payload_def)
  then have "?len host = ?len host'"
    and 2: "ascii_bytes host @ be_bytes 2 port @ peer_bytes client @ be_bytes 8 t
      = ascii_bytes host' @ be_bytes 2 port' @ peer_bytes client' @ be_bytes 8 t'"
    by simp_all
  then have "(of_nat (length host) :: u16) = of_nat (length host')"
    using assms by (auto dest!: be_bytes_inject simp: min_def)
  moreover have "unat (of_nat (length h) :: u16) = length h" if "length h < 2 ^ 16" for h :: string
    using that by (simp add: unat_of_nat)
  ultimately have "length host = length host'" using assms by metis
  then have "ascii_bytes host = ascii_bytes host'" "be_bytes 2 port = be_bytes 2 port'"
      "peer_bytes client @ be_bytes 8 t = peer_bytes client' @ be_bytes 8 t'"
    using 2 by (simp_all add: ascii_bytes_def)
  moreover from this(3) have "peer_bytes client = peer_bytes client'" "be_bytes 8 t = be_bytes 8 t'" by simp_all
  ultimately show "v = v' \<and> host = host' \<and> port = port' \<and> client = client' \<and> t = t'"
    using v by (auto simp: ascii_bytes_inject peer_id.expand dest!: be_bytes_inject)
qed simp

theorem signing_payload_binds_witness:
  "length ''a.ir'' < 2 ^ 16 \<and> length ''b.ir'' < 2 ^ 16
   \<and> signing_payload 1 ''a.ir'' 443 (PeerId [1]) 7 \<noteq> signing_payload 1 ''b.ir'' 443 (PeerId [1]) 7"
  using signing_payload_binds [of "''a.ir''" "''b.ir''" 1 443 "PeerId [1]" 7 1 443 "PeerId [1]" 7] by simp

end
