(* ===== verification/Agent_Spec.thy ===== *)
theory Agent_Spec
  imports Task Json
begin

text \<open>
  Agent definitions (\<open>server/parseh-agent-spec/src/\<close>): schemas (\<open>schema_validation.rs\<close>), knowledge
  references (\<open>knowledge_ref.rs\<close>), lineage (\<open>lineage.rs\<close>) and the signed, content-addressed definition
  (\<open>definition.rs\<close>). The JSON parser and the schema engine are packages of their own; they are the
  parameter \<open>json_env\<close>.
\<close>

section \<open>Schemas\<close>

text \<open>
  \<open>je_parse\<close> is \<open>serde_json::from_str\<close>, \<open>je_size\<close> the length of \<open>serde_json::to_vec\<close>, \<open>je_text\<close> the compact
  printer, \<open>je_compile\<close> is \<open>jsonschema::validator_for\<close> and \<open>je_validate\<close> the compiled validator; \<open>Inl\<close>
  carries the diagnostic. \<open>je_cbor\<close> is the CBOR shape of a JSON value.
\<close>

record 'n json_env =
  je_parse :: "string \<Rightarrow> string + 'n json"
  je_size :: "'n json \<Rightarrow> string + nat"
  je_text :: "'n json \<Rightarrow> string"
  je_compile :: "'n json \<Rightarrow> string + unit"
  je_validate :: "'n json \<Rightarrow> 'n json \<Rightarrow> string + unit"
  je_cbor :: "'n json \<Rightarrow> cbor"

datatype schema_error = InvalidJson string | InvalidSchema string | UnknownRequiredKey string

datatype validation_error = Compile string | InvalidValue string | OversizeValue nat nat

text \<open>\<open>InputSchema\<close> and \<open>OutputSchema\<close> have the same fields and the same methods.\<close>

record io_schema =
  sc_schema_json :: string
  sc_required_keys :: "string list"
  sc_max_size_bytes :: u32

definition compile_schema :: "'n json_env \<Rightarrow> string \<Rightarrow> string list \<Rightarrow> schema_error + unit" where
  "compile_schema J schema_json required_keys =
     (case je_parse J schema_json of
        Inl e \<Rightarrow> Inl (InvalidJson e)
      | Inr value \<Rightarrow>
          (case je_compile J value of
             Inl e \<Rightarrow> Inl (InvalidSchema e)
           | Inr _ \<Rightarrow>
               (case json_get value ''properties'' of
                  Some (JObject props) \<Rightarrow>
                    (case List.find (\<lambda>k. k \<notin> fst ` set props) required_keys of
                       Some k \<Rightarrow> Inl (UnknownRequiredKey k)
                     | None \<Rightarrow> Inr ())
                | _ \<Rightarrow> Inr ())))"

definition schema_compile :: "'n json_env \<Rightarrow> io_schema \<Rightarrow> schema_error + unit" where
  "schema_compile J s = compile_schema J (sc_schema_json s) (sc_required_keys s)"

definition validate_against_schema :: "'n json_env \<Rightarrow> 'n json \<Rightarrow> string \<Rightarrow> validation_error + unit" where
  "validate_against_schema J v schema_json =
     (case je_parse J schema_json of
        Inl e \<Rightarrow> Inl (Compile (''schema not JSON: '' @ e))
      | Inr schema_value \<Rightarrow>
          (case je_compile J schema_value of
             Inl e \<Rightarrow> Inl (Compile e)
           | Inr _ \<Rightarrow> (case je_validate J schema_value v of Inl e \<Rightarrow> Inl (InvalidValue e) | Inr _ \<Rightarrow> Inr ())))"

definition schema_validate :: "'n json_env \<Rightarrow> io_schema \<Rightarrow> 'n json \<Rightarrow> validation_error + unit" where
  "schema_validate J s v =
     (if 0 < sc_max_size_bytes s then
        (case je_size J v of
           Inl e \<Rightarrow> Inl (InvalidValue e)
         | Inr n \<Rightarrow>
             if unat (sc_max_size_bytes s) < n then Inl (OversizeValue n (unat (sc_max_size_bytes s)))
             else validate_against_schema J v (sc_schema_json s))
      else validate_against_schema J v (sc_schema_json s))"

section \<open>References and lineage\<close>

record agent_version =
  av_major :: u32
  av_minor :: u32
  av_patch :: u32

datatype knowledge_kind =
    TextCorpus chash string
  | EmbeddingIndex chash string u32
  | StructuredDataset chash chash
  | UpstreamAgentOutput chash agent_version

record knowledge_ref =
  kr_kind :: knowledge_kind
  kr_fetch_hint :: "string option"
  kr_size_bytes :: u64

definition from_text_bytes :: "prims \<Rightarrow> bytes \<Rightarrow> string \<Rightarrow> knowledge_ref" where
  "from_text_bytes P b encoding =
     \<lparr>kr_kind = TextCorpus (content_hash P b) encoding, kr_fetch_hint = None, kr_size_bytes = of_nat (length b)\<rparr>"

datatype fork_reason = Improvement | Translation | Specialisation | BugFix | Customisation | OtherFork string

record parent_ref =
  pr_agent_id :: chash
  pr_version :: agent_version
  pr_fork_reason :: fork_reason

record agent_metadata =
  am_name :: string
  am_description :: string
  am_languages :: "string list"
  am_tags :: "string list"
  am_license :: string

record model_requirements =
  mr_min_parameters :: "u64 option"
  mr_preferred_model_names :: "string list"
  mr_context_window_tokens :: u32
  mr_deterministic_mode_required :: bool

record agent_definition =
  ad_spec_version :: u32
  ad_id :: chash
  ad_agent_version :: agent_version
  ad_author :: peer_id
  ad_metadata :: agent_metadata
  ad_input_schema :: io_schema
  ad_output_schema :: io_schema
  ad_prompt_template :: string
  ad_knowledge_refs :: "knowledge_ref list"
  ad_model_requirements :: model_requirements
  ad_parents :: "parent_ref list"
  ad_created_at :: u64
  ad_signature :: bytes

section \<open>CBOR shapes\<close>

definition wr_version :: "agent_version \<Rightarrow> cbor" where
  "wr_version v = CMap [(''major'', wr_u (av_major v)), (''minor'', wr_u (av_minor v)), (''patch'', wr_u (av_patch v))]"

definition rd_version :: "cbor \<Rightarrow> agent_version option" where
  "rd_version c = do {
     m \<leftarrow> map_fields c;
     a \<leftarrow> field ''major'' rd_u m;
     b \<leftarrow> field ''minor'' rd_u m;
     p \<leftarrow> field ''patch'' rd_u m;
     Some \<lparr>av_major = a, av_minor = b, av_patch = p\<rparr>
   }"

definition wr_metadata :: "agent_metadata \<Rightarrow> cbor" where
  "wr_metadata a = CMap
     [(''name'', CText (am_name a)), (''description'', CText (am_description a)),
      (''languages'', wr_list CText (am_languages a)), (''tags'', wr_list CText (am_tags a)),
      (''license'', CText (am_license a))]"

definition rd_metadata :: "cbor \<Rightarrow> agent_metadata option" where
  "rd_metadata c = do {
     m \<leftarrow> map_fields c;
     n \<leftarrow> field ''name'' rd_text m;
     d \<leftarrow> field ''description'' rd_text m;
     l \<leftarrow> field ''languages'' (rd_list rd_text) m;
     t \<leftarrow> field ''tags'' (rd_list rd_text) m;
     i \<leftarrow> field ''license'' rd_text m;
     Some \<lparr>am_name = n, am_description = d, am_languages = l, am_tags = t, am_license = i\<rparr>
   }"

definition wr_schema :: "io_schema \<Rightarrow> cbor" where
  "wr_schema s = CMap
     [(''schema_json'', CText (sc_schema_json s)), (''required_keys'', wr_list CText (sc_required_keys s)),
      (''max_size_bytes'', wr_u (sc_max_size_bytes s))]"

definition rd_schema :: "cbor \<Rightarrow> io_schema option" where
  "rd_schema c = do {
     m \<leftarrow> map_fields c;
     j \<leftarrow> field ''schema_json'' rd_text m;
     k \<leftarrow> field ''required_keys'' (rd_list rd_text) m;
     x \<leftarrow> field ''max_size_bytes'' rd_u m;
     Some \<lparr>sc_schema_json = j, sc_required_keys = k, sc_max_size_bytes = x\<rparr>
   }"

definition wr_knowledge_kind :: "knowledge_kind \<Rightarrow> cbor" where
  "wr_knowledge_kind k = (case k of
     TextCorpus h e \<Rightarrow> CMap [(''TextCorpus'', CMap [(''content_hash'', wr_hash h), (''encoding'', CText e)])]
   | EmbeddingIndex h n d \<Rightarrow> CMap [(''EmbeddingIndex'',
       CMap [(''content_hash'', wr_hash h), (''model_name'', CText n), (''dimension'', wr_u d)])]
   | StructuredDataset h g \<Rightarrow> CMap [(''StructuredDataset'',
       CMap [(''content_hash'', wr_hash h), (''schema_hash'', wr_hash g)])]
   | UpstreamAgentOutput a v \<Rightarrow> CMap [(''UpstreamAgentOutput'',
       CMap [(''agent_id'', wr_hash a), (''version'', wr_version v)])])"

definition rd_knowledge_kind :: "cbor \<Rightarrow> knowledge_kind option" where
  "rd_knowledge_kind c = (case c of
     CMap [(n, b)] \<Rightarrow> do {
       m \<leftarrow> map_fields b;
       if n = ''TextCorpus'' then do {
         h \<leftarrow> field ''content_hash'' rd_hash m; e \<leftarrow> field ''encoding'' rd_text m; Some (TextCorpus h e) }
       else if n = ''EmbeddingIndex'' then do {
         h \<leftarrow> field ''content_hash'' rd_hash m; s \<leftarrow> field ''model_name'' rd_text m;
         d \<leftarrow> field ''dimension'' rd_u m; Some (EmbeddingIndex h s d) }
       else if n = ''StructuredDataset'' then do {
         h \<leftarrow> field ''content_hash'' rd_hash m; g \<leftarrow> field ''schema_hash'' rd_hash m;
         Some (StructuredDataset h g) }
       else if n = ''UpstreamAgentOutput'' then do {
         a \<leftarrow> field ''agent_id'' rd_hash m; v \<leftarrow> field ''version'' rd_version m;
         Some (UpstreamAgentOutput a v) }
       else None }
   | _ \<Rightarrow> None)"

definition wr_knowledge_ref :: "knowledge_ref \<Rightarrow> cbor" where
  "wr_knowledge_ref r = CMap
     [(''kind'', wr_knowledge_kind (kr_kind r)), (''fetch_hint'', wr_option CText (kr_fetch_hint r)),
      (''size_bytes'', wr_u (kr_size_bytes r))]"

definition rd_knowledge_ref :: "cbor \<Rightarrow> knowledge_ref option" where
  "rd_knowledge_ref c = do {
     m \<leftarrow> map_fields c;
     k \<leftarrow> field ''kind'' rd_knowledge_kind m;
     f \<leftarrow> field_default ''fetch_hint'' None (rd_option rd_text) m;
     s \<leftarrow> field ''size_bytes'' rd_u m;
     Some \<lparr>kr_kind = k, kr_fetch_hint = f, kr_size_bytes = s\<rparr>
   }"

definition wr_fork_reason :: "fork_reason \<Rightarrow> cbor" where
  "wr_fork_reason r = (case r of Improvement \<Rightarrow> CText ''Improvement'' | Translation \<Rightarrow> CText ''Translation''
     | Specialisation \<Rightarrow> CText ''Specialisation'' | BugFix \<Rightarrow> CText ''BugFix''
     | Customisation \<Rightarrow> CText ''Customisation'' | OtherFork s \<Rightarrow> CMap [(''Other'', CText s)])"

definition rd_fork_reason :: "cbor \<Rightarrow> fork_reason option" where
  "rd_fork_reason c = (case c of
     CText s \<Rightarrow> (if s = ''Improvement'' then Some Improvement else if s = ''Translation'' then Some Translation
       else if s = ''Specialisation'' then Some Specialisation else if s = ''BugFix'' then Some BugFix
       else if s = ''Customisation'' then Some Customisation else None)
   | CMap [(n, b)] \<Rightarrow> (if n = ''Other'' then map_option OtherFork (rd_text b) else None)
   | _ \<Rightarrow> None)"

definition wr_parent :: "parent_ref \<Rightarrow> cbor" where
  "wr_parent p = CMap
     [(''agent_id'', wr_hash (pr_agent_id p)), (''version'', wr_version (pr_version p)),
      (''fork_reason'', wr_fork_reason (pr_fork_reason p))]"

definition rd_parent :: "cbor \<Rightarrow> parent_ref option" where
  "rd_parent c = do {
     m \<leftarrow> map_fields c;
     a \<leftarrow> field ''agent_id'' rd_hash m;
     v \<leftarrow> field ''version'' rd_version m;
     r \<leftarrow> field ''fork_reason'' rd_fork_reason m;
     Some \<lparr>pr_agent_id = a, pr_version = v, pr_fork_reason = r\<rparr>
   }"

definition wr_requirements :: "model_requirements \<Rightarrow> cbor" where
  "wr_requirements r = CMap
     [(''min_parameters'', wr_option wr_u (mr_min_parameters r)),
      (''preferred_model_names'', wr_list CText (mr_preferred_model_names r)),
      (''context_window_tokens'', wr_u (mr_context_window_tokens r)),
      (''deterministic_mode_required'', CBool (mr_deterministic_mode_required r))]"

definition rd_requirements :: "cbor \<Rightarrow> model_requirements option" where
  "rd_requirements c = do {
     m \<leftarrow> map_fields c;
     p \<leftarrow> field_default ''min_parameters'' None (rd_option rd_u) m;
     n \<leftarrow> field ''preferred_model_names'' (rd_list rd_text) m;
     w \<leftarrow> field ''context_window_tokens'' rd_u m;
     d \<leftarrow> field ''deterministic_mode_required'' rd_bool m;
     Some \<lparr>mr_min_parameters = p, mr_preferred_model_names = n, mr_context_window_tokens = w,
       mr_deterministic_mode_required = d\<rparr>
   }"

definition wr_definition :: "agent_definition \<Rightarrow> cbor" where
  "wr_definition d = CMap
     [(''spec_version'', wr_u (ad_spec_version d)), (''id'', wr_hash (ad_id d)),
      (''version'', wr_version (ad_agent_version d)), (''author'', wr_peer (ad_author d)),
      (''metadata'', wr_metadata (ad_metadata d)), (''input_schema'', wr_schema (ad_input_schema d)),
      (''output_schema'', wr_schema (ad_output_schema d)), (''prompt_template'', CText (ad_prompt_template d)),
      (''knowledge_refs'', wr_list wr_knowledge_ref (ad_knowledge_refs d)),
      (''model_requirements'', wr_requirements (ad_model_requirements d)),
      (''parents'', wr_list wr_parent (ad_parents d)), (''created_at'', wr_u (ad_created_at d)),
      (''signature'', CBytes (ad_signature d))]"

definition rd_definition :: "cbor \<Rightarrow> agent_definition option" where
  "rd_definition c = do {
     m \<leftarrow> map_fields c;
     w \<leftarrow> field ''spec_version'' rd_u m;
     i \<leftarrow> field ''id'' rd_hash m;
     v \<leftarrow> field ''version'' rd_version m;
     a \<leftarrow> field ''author'' rd_peer m;
     md \<leftarrow> field ''metadata'' rd_metadata m;
     si \<leftarrow> field ''input_schema'' rd_schema m;
     so \<leftarrow> field ''output_schema'' rd_schema m;
     t \<leftarrow> field ''prompt_template'' rd_text m;
     k \<leftarrow> field ''knowledge_refs'' (rd_list rd_knowledge_ref) m;
     r \<leftarrow> field ''model_requirements'' rd_requirements m;
     p \<leftarrow> field ''parents'' (rd_list rd_parent) m;
     c \<leftarrow> field ''created_at'' rd_u m;
     sg \<leftarrow> field ''signature'' rd_bytes m;
     Some \<lparr>ad_spec_version = w, ad_id = i, ad_agent_version = v, ad_author = a, ad_metadata = md,
       ad_input_schema = si, ad_output_schema = so, ad_prompt_template = t, ad_knowledge_refs = k,
       ad_model_requirements = r, ad_parents = p, ad_created_at = c, ad_signature = sg\<rparr>
   }"

section \<open>Construction and verification\<close>

definition SPEC_VERSION :: u32 where
  "SPEC_VERSION = 1"

datatype definition_error = EmptyPromptTemplate | EmptyName | InvalidLicense string | SchemaFailed schema_error

text \<open>The character class of the licence pattern and the pattern: an id, or an id \<open>WITH\<close> an id.\<close>

definition spdx_char :: "char \<Rightarrow> bool" where
  "spdx_char c \<longleftrightarrow> c \<in> set ''ABCDEFGHIJKLMNOPQRSTUVWXYZabcdefghijklmnopqrstuvwxyz0123456789.+-''"

definition spdx_id :: "string \<Rightarrow> bool" where
  "spdx_id s \<longleftrightarrow> s \<noteq> [] \<and> list_all spdx_char s"

definition is_plausible_spdx_identifier :: "string \<Rightarrow> bool" where
  "is_plausible_spdx_identifier s \<longleftrightarrow>
     trim s \<noteq> [] \<and>
     (let i = takeWhile spdx_char s; r = dropWhile spdx_char s
      in i \<noteq> [] \<and> (r = [] \<or> (case strip_prefix '' WITH '' r of Some e \<Rightarrow> spdx_id e | None \<Rightarrow> False)))"

definition recompute_id :: "prims \<Rightarrow> agent_definition \<Rightarrow> chash" where
  "recompute_id P d = content_hash P (to_cbor_bytes P (wr_definition (d\<lparr>ad_id := zero_hash\<rparr>)))"

definition definition_content_hash :: "prims \<Rightarrow> agent_definition \<Rightarrow> chash" where
  "definition_content_hash P d = content_hash P (to_cbor_bytes P (wr_definition d))"

definition definition_new_signed_at ::
    "'n json_env \<Rightarrow> prims \<Rightarrow> agent_version \<Rightarrow> peer_id \<Rightarrow> agent_metadata \<Rightarrow> io_schema \<Rightarrow> io_schema \<Rightarrow> string
     \<Rightarrow> knowledge_ref list \<Rightarrow> model_requirements \<Rightarrow> parent_ref list \<Rightarrow> u64 \<Rightarrow> bytes
     \<Rightarrow> definition_error + agent_definition \<times> chash" where
  "definition_new_signed_at J P version author metadata input_schema output_schema prompt_template knowledge_refs
       model_requirements parents created_at key =
     (if trim prompt_template = [] then Inl EmptyPromptTemplate
      else if trim (am_name metadata) = [] then Inl EmptyName
      else if \<not> is_plausible_spdx_identifier (am_license metadata) then Inl (InvalidLicense (am_license metadata))
      else case schema_compile J input_schema of Inl e \<Rightarrow> Inl (SchemaFailed e) | Inr _ \<Rightarrow>
        (case schema_compile J output_schema of Inl e \<Rightarrow> Inl (SchemaFailed e) | Inr _ \<Rightarrow>
          (let d = \<lparr>ad_spec_version = SPEC_VERSION, ad_id = zero_hash, ad_agent_version = version,
                 ad_author = author, ad_metadata = metadata, ad_input_schema = input_schema,
                 ad_output_schema = output_schema, ad_prompt_template = prompt_template,
                 ad_knowledge_refs = knowledge_refs, ad_model_requirements = model_requirements,
                 ad_parents = parents, ad_created_at = created_at, ad_signature = []\<rparr>;
               unsigned = to_cbor_bytes P (wr_definition d);
               d = d\<lparr>ad_signature := sign_bytes P key unsigned\<rparr>;
               i = content_hash P (to_cbor_bytes P (wr_definition d))
           in Inr (d\<lparr>ad_id := i\<rparr>, i))))"

definition definition_verify_signature :: "prims \<Rightarrow> agent_definition \<Rightarrow> bytes \<Rightarrow> sign_error + unit" where
  "definition_verify_signature P d vk =
     verify_bytes P vk (to_cbor_bytes P (wr_definition (d\<lparr>ad_id := zero_hash, ad_signature := []\<rparr>))) (ad_signature d)"

section \<open>Round trips\<close>

definition wf_knowledge_kind :: "knowledge_kind \<Rightarrow> bool" where
  "wf_knowledge_kind k = (case k of TextCorpus h _ \<Rightarrow> wf_hash h | EmbeddingIndex h _ _ \<Rightarrow> wf_hash h
     | StructuredDataset h g \<Rightarrow> wf_hash h \<and> wf_hash g | UpstreamAgentOutput a _ \<Rightarrow> wf_hash a)"

definition wf_definition :: "agent_definition \<Rightarrow> bool" where
  "wf_definition d \<longleftrightarrow> wf_hash (ad_id d) \<and> (\<forall>r \<in> set (ad_knowledge_refs d). wf_knowledge_kind (kr_kind r))
     \<and> (\<forall>p \<in> set (ad_parents d). wf_hash (pr_agent_id p))"

lemma rd_wr_version [wire_simps]: "rd_version (wr_version v) = Some v"
  by (simp add: rd_version_def wr_version_def read_defs wire_simps)

lemma rd_wr_metadata [wire_simps]: "rd_metadata (wr_metadata a) = Some a"
  by (simp add: rd_metadata_def wr_metadata_def read_defs wire_simps)

lemma rd_wr_schema [wire_simps]: "rd_schema (wr_schema s) = Some s"
  by (simp add: rd_schema_def wr_schema_def read_defs wire_simps)

lemma rd_wr_knowledge_kind [wire_simps]: "wf_knowledge_kind k \<Longrightarrow> rd_knowledge_kind (wr_knowledge_kind k) = Some k"
  by (cases k) (simp_all add: rd_knowledge_kind_def wr_knowledge_kind_def wf_knowledge_kind_def read_defs wire_simps)

lemma rd_wr_knowledge_ref [wire_simps]: "wf_knowledge_kind (kr_kind r) \<Longrightarrow> rd_knowledge_ref (wr_knowledge_ref r) = Some r"
  by (simp add: rd_knowledge_ref_def wr_knowledge_ref_def read_defs wire_simps)

lemma rd_wr_fork_reason [wire_simps]: "rd_fork_reason (wr_fork_reason r) = Some r"
  by (cases r) (simp_all add: rd_fork_reason_def wr_fork_reason_def wire_simps)

lemma rd_wr_parent [wire_simps]: "wf_hash (pr_agent_id p) \<Longrightarrow> rd_parent (wr_parent p) = Some p"
  by (simp add: rd_parent_def wr_parent_def read_defs wire_simps)

lemma rd_wr_requirements [wire_simps]: "rd_requirements (wr_requirements r) = Some r"
  by (simp add: rd_requirements_def wr_requirements_def read_defs wire_simps)

lemma rd_wr_definition: "wf_definition d \<Longrightarrow> rd_definition (wr_definition d) = Some d"
  by (simp add: rd_definition_def wr_definition_def read_defs wire_simps wf_definition_def)

end
