(* ===== verification/Agent_Runtime.thy ===== *)
theory Agent_Runtime
  imports Agent_Spec
begin

text \<open>
  The agent runtime (\<open>server/parseh-agent-runtime/src/\<close>): prompt rendering (\<open>render.rs\<close>), knowledge from
  the local cache (\<open>knowledge.rs\<close>), the mock backend (\<open>backend.rs\<close>) and the executor (\<open>executor.rs\<close>).
  \<open>None\<close> stands for a panic (a slice off a character boundary).
\<close>

section \<open>Prompt templates\<close>

datatype render_error = UndefinedKey string | UnterminatedPlaceholder | EmptyPlaceholder

definition lookup :: "'n json \<Rightarrow> string \<Rightarrow> 'n json option" where
  "lookup ctx path = walk ctx (split_on CHR ''.'' path)"

definition stringify :: "'n json_env \<Rightarrow> 'n json \<Rightarrow> string" where
  "stringify J v = (case v of JString s \<Rightarrow> s | other \<Rightarrow> je_text J other)"

definition utf8_len :: "nat \<Rightarrow> nat" where
  "utf8_len b = (if b < 0x80 then 1 else if b div 32 = 6 then 2 else if b div 16 = 14 then 3 else 4)"

fun find_sub :: "string \<Rightarrow> string \<Rightarrow> nat option" where
  "find_sub p [] = (if p = [] then Some 0 else None)"
| "find_sub p (c # cs) = (if take (length p) (c # cs) = p then Some 0 else map_option Suc (find_sub p cs))"

text \<open>
  The loop over the byte position \<open>i\<close>, with the text from \<open>i\<close> on as the argument. A slice panics
  when it does not start and end on character boundaries inside the text.
\<close>

function render_loop :: "'n json_env \<Rightarrow> 'n json \<Rightarrow> string \<Rightarrow> string \<Rightarrow> (render_error + string) option" where
  "render_loop J ctx t out =
     (if t = [] then Some (Inr out)
      else if take 4 t = ''{{{{'' then render_loop J ctx (drop 4 t) (out @ ''{{'')
      else if take 4 t = ''}}}}'' then render_loop J ctx (drop 4 t) (out @ ''}}'')
      else if take 2 t = ''{{'' then
        (let rest = drop 2 t in
         if \<not> boundary rest then None
         else case find_sub ''}}'' rest of
           None \<Rightarrow> Some (Inl UnterminatedPlaceholder)
         | Some close \<Rightarrow>
             (let key = trim (take close rest) in
              if key = [] then Some (Inl EmptyPlaceholder)
              else case lookup ctx key of
                None \<Rightarrow> Some (Inl (UndefinedKey key))
              | Some v \<Rightarrow> render_loop J ctx (drop (2 + close + 2) t) (out @ stringify J v)))
      else
        (let ch_len = utf8_len (of_char (hd t)) in
         if length t < ch_len \<or> \<not> boundary t \<or> \<not> boundary (drop ch_len t) then None
         else render_loop J ctx (drop ch_len t) (out @ take ch_len t)))"
  by pat_completeness auto
termination
  by (relation "measure (\<lambda>(J, ctx, t, out). length t)") (auto simp: utf8_len_def)

declare render_loop.simps [simp del]

definition render_prompt :: "'n json_env \<Rightarrow> string \<Rightarrow> 'n json \<Rightarrow> (render_error + string) option" where
  "render_prompt J template context = render_loop J context template []"

section \<open>Knowledge\<close>

text \<open>
  The cache: \<open>kn_files path\<close> is \<open>None\<close> when the path does not exist and otherwise the result of reading it;
  \<open>kn_home\<close> is the home directory; \<open>kn_hex\<close> is \<open>hex::encode\<close>, of which the code relies on injectivity.
\<close>

record knowledge_env =
  kn_files :: "string list \<Rightarrow> (string + bytes) option"
  kn_home :: "string list option"
  kn_hex :: "bytes \<Rightarrow> string"

definition hex_ok :: "knowledge_env \<Rightarrow> bool" where
  "hex_ok K \<longleftrightarrow> inj (kn_hex K)"

datatype knowledge_error =
    NotInLocalCache string
  | HashMismatch string string
  | KnowledgeIo string
  | NoHomeDir
  | EmbeddingIndexUnsupported
  | StructuredDatasetUnsupported
  | UpstreamAgentOutputUnsupported

record resolved_knowledge =
  rk_content_hash_hex :: string
  rk_encoding :: string
  rk_text :: string

definition sha256_hex :: "prims \<Rightarrow> knowledge_env \<Rightarrow> bytes \<Rightarrow> string" where
  "sha256_hex P K b = kn_hex K (sha256 P b)"

definition default_cache_root :: "knowledge_env \<Rightarrow> knowledge_error + string list" where
  "default_cache_root K = (case kn_home K of None \<Rightarrow> Inl NoHomeDir | Some home \<Rightarrow> Inr (home @ [''.parseh'', ''knowledge'']))"

definition resolve_one :: "prims \<Rightarrow> knowledge_env \<Rightarrow> string list \<Rightarrow> knowledge_ref \<Rightarrow> knowledge_error + resolved_knowledge" where
  "resolve_one P K dir r =
     (case kr_kind r of
        TextCorpus h encoding \<Rightarrow>
          (let hex = kn_hex K (hash_bytes h) in
           case kn_files K (dir @ [hex]) of
             None \<Rightarrow> Inl (NotInLocalCache hex)
           | Some (Inl e) \<Rightarrow> Inl (KnowledgeIo e)
           | Some (Inr b) \<Rightarrow>
               (let actual = sha256_hex P K b in
                if actual \<noteq> hex then Inl (HashMismatch hex actual)
                else Inr \<lparr>rk_content_hash_hex = hex, rk_encoding = encoding, rk_text = from_utf8_lossy b\<rparr>))
      | EmbeddingIndex _ _ _ \<Rightarrow> Inl EmbeddingIndexUnsupported
      | StructuredDataset _ _ \<Rightarrow> Inl StructuredDatasetUnsupported
      | UpstreamAgentOutput _ _ \<Rightarrow> Inl UpstreamAgentOutputUnsupported)"

definition resolve_knowledge ::
    "prims \<Rightarrow> knowledge_env \<Rightarrow> knowledge_ref list \<Rightarrow> string list option \<Rightarrow> knowledge_error + resolved_knowledge list" where
  "resolve_knowledge P K refs cache_root =
     (if refs = [] then Inr []
      else bind_result (case cache_root of Some r \<Rightarrow> Inr r | None \<Rightarrow> default_cache_root K)
             (\<lambda>dir. map_results (resolve_one P K dir) refs))"

section \<open>Backends\<close>

text \<open>
  A backend is its \<open>complete\<close> function and its \<open>model_id\<close>. The mock returns a canned answer derived from
  the digest of prompt, seed and budget.
\<close>

record 'b backend =
  bk_complete :: "string \<Rightarrow> u64 \<Rightarrow> u32 \<Rightarrow> 'b + string"
  bk_model_id :: string

definition mock_complete :: "prims \<Rightarrow> string \<Rightarrow> u64 \<Rightarrow> u32 \<Rightarrow> 'b + string" where
  "mock_complete P prompt seed max_tokens =
     (let digest = hex_lower (sha256 P (map of_char prompt @ rev (be_bytes 8 seed) @ rev (be_bytes 4 max_tokens)))
      in Inr (''{\"answer\":\"mock-'' @ take 16 digest @ ''\",\"seed\":'' @ show_base 10 (unat seed) @ ''}''))"

definition mock_backend :: "prims \<Rightarrow> 'b backend" where
  "mock_backend P = \<lparr>bk_complete = mock_complete P, bk_model_id = ''mock-deterministic-v1''\<rparr>"

section \<open>The executor\<close>

text \<open>
  The errors keep their cause where the code keeps its text. \<open>PayloadEncode\<close> is absent: encoding an
  owned value does not fail.
\<close>

datatype 'b exec_error =
    InputSchemaViolation validation_error
  | KnowledgeUnavailable knowledge_error
  | TemplateError render_error
  | BackendFailed 'b
  | OutputNotJson string
  | OutputSchemaViolation validation_error
  | MissingSeed

record 'b executor =
  ax_backend :: "'b backend"
  ax_signing_key :: bytes
  ax_local_peer_id :: peer_id
  ax_knowledge_cache_root :: "string list option"

record 'n exec_outcome =
  eo_output_json :: "'n json"
  eo_job_result :: job_result
  eo_model_id :: string
  eo_execution_time_ms :: u64

definition knowledge_value :: "resolved_knowledge \<Rightarrow> 'n json" where
  "knowledge_value k = JObject [(''content_hash'', JString (rk_content_hash_hex k)),
     (''encoding'', JString (rk_encoding k)), (''text'', JString (rk_text k))]"

definition render_context :: "'n json \<Rightarrow> resolved_knowledge list \<Rightarrow> 'n json" where
  "render_context input resolved = (case input of
     JObject m \<Rightarrow> JObject (AList.update ''knowledge'' (JArray (map knowledge_value resolved)) m)
   | other \<Rightarrow> other)"

definition map_error :: "('e \<Rightarrow> 'f) \<Rightarrow> 'e + 'a \<Rightarrow> 'f + 'a" where
  "map_error f r = (case r of Inl e \<Rightarrow> Inl (f e) | Inr x \<Rightarrow> Inr x)"

text \<open>Steps 4 to 6, once the prompt is rendered; \<open>execution_time_ms\<close> is what the clock measured.\<close>

definition complete_and_sign ::
    "'n json_env \<Rightarrow> prims \<Rightarrow> 'b executor \<Rightarrow> u64 \<Rightarrow> agent_definition \<Rightarrow> job_spec \<Rightarrow> string
     \<Rightarrow> 'b exec_error + 'n exec_outcome" where
  "complete_and_sign J P X execution_time_ms agent spec prompt =
     (case ji_seed (js_inputs spec) of
        None \<Rightarrow> Inl MissingSeed
      | Some seed \<Rightarrow>
          (let max_tokens = (case ji_max_tokens (js_inputs spec) of Some n \<Rightarrow> n | None \<Rightarrow> 2048) in
           bind_result (map_error BackendFailed (bk_complete (ax_backend X) prompt seed max_tokens)) (\<lambda>raw.
           bind_result (map_error OutputNotJson (je_parse J (trim raw))) (\<lambda>output_json.
           bind_result (map_error OutputSchemaViolation (schema_validate J (ad_output_schema agent) output_json)) (\<lambda>_.
             (let model_id = bk_model_id (ax_backend X);
                  payload = to_cbor_bytes P (je_cbor J output_json);
                  meta = \<lparr>rm_verifier_method = Deterministic, rm_execution_time_ms = execution_time_ms,
                    rm_model_used = Some model_id, rm_inference_token_count = None\<rparr>;
                  (job_result, _) = result_new_signed_at P (spec_content_hash P spec) (ax_local_peer_id X)
                    (js_submitted_at spec) meta payload (ax_signing_key X)
              in Inr \<lparr>eo_output_json = output_json, eo_job_result = job_result, eo_model_id = model_id,
                   eo_execution_time_ms = execution_time_ms\<rparr>))))))"

definition execute ::
    "'n json_env \<Rightarrow> prims \<Rightarrow> knowledge_env \<Rightarrow> 'b executor \<Rightarrow> u64 \<Rightarrow> agent_definition \<Rightarrow> job_spec \<Rightarrow> 'n json
     \<Rightarrow> ('b exec_error + 'n exec_outcome) option" where
  "execute J P K X execution_time_ms agent spec input =
     (case schema_validate J (ad_input_schema agent) input of
        Inl e \<Rightarrow> Some (Inl (InputSchemaViolation e))
      | Inr _ \<Rightarrow>
          (case resolve_knowledge P K (ad_knowledge_refs agent) (ax_knowledge_cache_root X) of
             Inl e \<Rightarrow> Some (Inl (KnowledgeUnavailable e))
           | Inr resolved \<Rightarrow>
               (case render_prompt J (ad_prompt_template agent) (render_context input resolved) of
                  None \<Rightarrow> None
                | Some (Inl e) \<Rightarrow> Some (Inl (TemplateError e))
                | Some (Inr prompt) \<Rightarrow> Some (complete_and_sign J P X execution_time_ms agent spec prompt))))"

end
