(* ===== verification/Agent_Properties.thy ===== *)
theory Agent_Properties
  imports Agent_Runtime Task_Properties
begin

text \<open>
  What agent definitions and their execution promise: the id and the signature bind the definition,
  templates of valid UTF-8 never make the renderer panic and escaped text renders to itself, and a
  run is determined by the agent, the spec, the input, the knowledge and the backend, up to who ran
  it and how long it took.
\<close>

section \<open>Definitions\<close>

lemma wf_definition_clear:
  "wf_definition d \<Longrightarrow> wf_definition (d\<lparr>ad_id := zero_hash\<rparr>)"
  "wf_definition d \<Longrightarrow> wf_definition (d\<lparr>ad_id := zero_hash, ad_signature := []\<rparr>)"
  by (simp_all add: wf_definition_def wf_hash_def zero_hash_def)

lemma definition_bytes_inject:
  "cbor_ok P \<Longrightarrow> wf_definition d \<Longrightarrow> wf_definition e \<Longrightarrow>
   to_cbor_bytes P (wr_definition d) = to_cbor_bytes P (wr_definition e) \<longleftrightarrow> d = e"
  by (metis cbor_write_inject option.inject rd_wr_definition to_cbor_bytes_def)

lemma new_signed_definition:
  assumes "definition_new_signed_at J P ver author md si so tpl refs req par t key = Inr (d, i)"
  shows "ad_id d = i" and "recompute_id P d = i"
    and "ad_signature d = sign_bytes P key (to_cbor_bytes P (wr_definition (d\<lparr>ad_id := zero_hash, ad_signature := []\<rparr>)))"
    and "ad_knowledge_refs d = refs" and "ad_parents d = par"
  using assms by (auto simp: definition_new_signed_at_def Let_def recompute_id_def split: if_splits sum.splits)

text \<open>
  C15. A constructed definition carries the id that peers recompute, its signature verifies under the
  author's key and its wire form decodes to itself. A different definition with the same recomputed
  id is a SHA-256 collision on two given encodings, and one that verifies under the author's key with
  any other content is a forgery: a signature on bytes that were not signed. The stored id itself is
  outside the signature.
\<close>

theorem definition_identity:
  assumes "ed25519_ok P" and "sha256_ok P" and "cbor_ok P"
    and new: "definition_new_signed_at J P ver author md si so tpl refs req par t key = Inr (d, i)"
    and wf: "\<forall>r \<in> set refs. wf_knowledge_kind (kr_kind r)" "\<forall>p \<in> set par. wf_hash (pr_agent_id p)"
    and e: "wf_definition e"
  shows "ad_id d = i \<and> recompute_id P d = i
    \<and> definition_verify_signature P d (ed_public P key) = Inr ()
    \<and> from_cbor_bytes P rd_definition (to_cbor_bytes P (wr_definition d)) = Some d
    \<and> (recompute_id P e = i \<longrightarrow> e\<lparr>ad_id := i\<rparr> = d \<or>
        (let b = to_cbor_bytes P (wr_definition (e\<lparr>ad_id := zero_hash\<rparr>));
             b' = to_cbor_bytes P (wr_definition (d\<lparr>ad_id := zero_hash\<rparr>))
         in b \<noteq> b' \<and> sha256 P b = sha256 P b'))
    \<and> (definition_verify_signature P e (ed_public P key) = Inr () \<longrightarrow>
        e\<lparr>ad_id := i, ad_signature := []\<rparr> = d\<lparr>ad_signature := []\<rparr> \<or>
        (let b = to_cbor_bytes P (wr_definition (e\<lparr>ad_id := zero_hash, ad_signature := []\<rparr>))
         in b \<noteq> to_cbor_bytes P (wr_definition (d\<lparr>ad_id := zero_hash, ad_signature := []\<rparr>))
            \<and> ed_verify P (ed_public P key) b (ad_signature e)))"
proof -
  note n = new_signed_definition [OF new]
  have wi: "wf_hash i" unfolding n(2) [symmetric] recompute_id_def by (rule wf_content_hash [OF assms(2)])
  have d: "wf_definition d"
    using wf n(1,4,5) wi by (simp add: wf_definition_def)
  have sig: "definition_verify_signature P d (ed_public P key) = Inr ()"
    unfolding definition_verify_signature_def n(3) by (rule sign_verify_bytes [OF assms(1)])
  have wire: "from_cbor_bytes P rd_definition (to_cbor_bytes P (wr_definition d)) = Some d"
    by (rule from_to_cbor_bytes [where rd = rd_definition and wr = wr_definition, OF assms(3) rd_wr_definition [OF d]])
  let ?b = "\<lambda>x. to_cbor_bytes P (wr_definition (x\<lparr>ad_id := zero_hash\<rparr>))"
  have "e\<lparr>ad_id := i\<rparr> = d" if "?b e = ?b d"
  proof -
    have "e\<lparr>ad_id := zero_hash\<rparr> = d\<lparr>ad_id := zero_hash\<rparr>"
      using that definition_bytes_inject [OF assms(3) wf_definition_clear(1) [OF e] wf_definition_clear(1) [OF d]] by simp
    then have "e\<lparr>ad_id := zero_hash, ad_id := i\<rparr> = d\<lparr>ad_id := zero_hash, ad_id := i\<rparr>" by simp
    then show ?thesis using n(1) by simp
  qed
  then have ids: "recompute_id P e = i \<longrightarrow> e\<lparr>ad_id := i\<rparr> = d \<or> ?b e \<noteq> ?b d \<and> sha256 P (?b e) = sha256 P (?b d)"
    using n(2) by (auto simp: recompute_id_def content_hash_def)
  let ?u = "\<lambda>x. to_cbor_bytes P (wr_definition (x\<lparr>ad_id := zero_hash, ad_signature := []\<rparr>))"
  have "e\<lparr>ad_id := i, ad_signature := []\<rparr> = d\<lparr>ad_signature := []\<rparr>" if "?u e = ?u d"
  proof -
    have "e\<lparr>ad_id := zero_hash, ad_signature := []\<rparr> = d\<lparr>ad_id := zero_hash, ad_signature := []\<rparr>"
      using that definition_bytes_inject [OF assms(3) wf_definition_clear(2) [OF e] wf_definition_clear(2) [OF d]] by simp
    then show ?thesis using n(1) by (cases d; cases e) simp
  qed
  then have "definition_verify_signature P e (ed_public P key) = Inr () \<longrightarrow>
      e\<lparr>ad_id := i, ad_signature := []\<rparr> = d\<lparr>ad_signature := []\<rparr> \<or> ?u e \<noteq> ?u d \<and> ed_verify P (ed_public P key) (?u e) (ad_signature e)"
    by (auto simp: definition_verify_signature_def verify_bytes_ok)
  with n(1,2) sig wire ids show ?thesis by (simp add: Let_def)
qed

section \<open>Rendering\<close>

lemma char_codes_simps [simp]: "char_codes [] = []" "char_codes (c # s) = of_char c # char_codes s"
  "char_codes (s @ t) = char_codes s @ char_codes t" "char_codes (drop n s) = drop n (char_codes s)"
  by (simp_all add: char_codes_def drop_map)

lemma valid_utf8_iff: "valid_utf8 s \<longleftrightarrow> utf8 (char_codes s)"
  by (simp add: valid_utf8_def check_utf8_iff)

lemma utf8_after_ascii: "utf8 bs \<Longrightarrow> bs = xs @ a # ys \<Longrightarrow> a < 0x80 \<Longrightarrow> utf8 ys"
proof (induction arbitrary: xs rule: utf8.induct)
  case (utf8_1 b r)
  then show ?case by (cases xs) auto
next
  case (utf8_2 b c r)
  then show ?case by (auto simp: utf8_leads Cons_eq_append_conv)
next
  case (utf8_3 b c d r)
  then show ?case by (auto simp: utf8_leads Cons_eq_append_conv split: if_splits)
next
  case (utf8_4 b c d e r)
  then show ?case by (auto simp: utf8_leads Cons_eq_append_conv split: if_splits)
qed simp

lemma utf8_first_char:
  assumes "utf8 (a # r)"
  shows "utf8_len a \<le> length (a # r) \<and> utf8 (drop (utf8_len a) (a # r))"
  using assms
proof (cases rule: utf8.cases)
  case utf8_1
  then show ?thesis by (simp add: utf8_len_def)
next
  case (utf8_2 b r2)
  then have "utf8_len a = 2" by (auto simp: utf8_len_def lead2_def)
  with utf8_2 show ?thesis by simp
next
  case (utf8_3 b c r3)
  then have "utf8_len a = 3" by (auto simp: utf8_len_def lead3_def split: if_splits)
  with utf8_3 show ?thesis by simp
next
  case (utf8_4 b c d r4)
  then have "utf8_len a = 4" by (auto simp: utf8_len_def lead4_def split: if_splits)
  with utf8_4 show ?thesis by simp
qed

lemma find_sub_SomeD: "find_sub p s = Some n \<Longrightarrow> \<exists>u v. s = u @ p @ v \<and> length u = n"
proof (induction p s arbitrary: n rule: find_sub.induct)
  case (2 p c cs)
  show ?case
  proof (cases "take (length p) (c # cs) = p")
    case True
    with "2.prems" have "n = 0" by simp
    moreover have "c # cs = p @ drop (length p) (c # cs)" using True by (metis append_take_drop_id)
    ultimately show ?thesis by (metis append_Nil list.size(3))
  next
    case False
    with "2.prems" obtain m where m: "find_sub p cs = Some m" "n = Suc m" by auto
    with "2.IH" [OF False] obtain u v where "cs = u @ p @ v" "length u = m" by blast
    with m show ?thesis by (intro exI [of _ "c # u"] exI [of _ v]) simp
  qed
qed (auto split: if_splits)

lemma valid_after_brace:
  assumes "valid_utf8 (u @ c # v)" and "c = CHR ''{'' \<or> c = CHR ''}''"
  shows "valid_utf8 v"
  using assms utf8_after_ascii [of "char_codes (u @ c # v)" "char_codes u" "of_char c" "char_codes v"]
  by (auto simp: valid_utf8_iff)

lemma take_Suc_decomp: "take n s = p \<Longrightarrow> s = p @ drop n s"
  by (metis append_take_drop_id)

lemma valid_after_braces:
  assumes "valid_utf8 t" and "take n t = p" and "last p = CHR ''{'' \<or> last p = CHR ''}''" and "p \<noteq> []"
  shows "valid_utf8 (drop n t)"
proof -
  have "t = butlast p @ last p # drop n t" using assms(2,4) by (metis append.assoc append_Cons append_Nil append_butlast_last_id take_Suc_decomp)
  then show ?thesis using valid_after_brace [of "butlast p" "last p" "drop n t"] assms(1,3) by metis
qed

lemma valid_after_placeholder:
  assumes "valid_utf8 (drop 2 t)" and "find_sub ''}}'' (drop 2 t) = Some close"
  shows "valid_utf8 (drop (2 + close + 2) t)"
proof -
  obtain u v where uv: "drop 2 t = u @ ''}}'' @ v" "length u = close" using find_sub_SomeD [OF assms(2)] by blast
  have "drop (2 + close + 2) t = drop (close + 2) (drop 2 t)" by (simp add: add.commute add.left_commute)
  also have "\<dots> = v" using uv by simp
  finally show ?thesis using valid_after_brace [of "u @ ''}''" "CHR ''}''" v] assms(1) uv(1) by simp
qed

lemma copy_char:
  assumes "valid_utf8 t" and "t \<noteq> []" and n: "n = utf8_len (of_char (hd t))"
  shows "n \<le> length t" and "boundary t" and "boundary (drop n t)" and "valid_utf8 (drop n t)"
proof -
  obtain c r where t: "t = c # r" using assms(2) by (cases t) auto
  have "utf8_len (of_char c) \<le> length (char_codes t) \<and> utf8 (drop (utf8_len (of_char c)) (char_codes t))"
    using utf8_first_char [of "of_char c" "char_codes r"] assms(1) unfolding t by (simp add: valid_utf8_iff)
  then show "n \<le> length t" "valid_utf8 (drop n t)" using n t by (simp_all add: valid_utf8_iff, simp add: char_codes_def)
  then show "boundary t" "boundary (drop n t)" using valid_utf8_boundary assms(1) by blast+
qed

text \<open>
  C40. Rendering a template that is valid UTF-8 (as every Rust string is) never slices off a character
  boundary: it returns text or one of the documented errors.
\<close>

theorem render_never_panics:
  assumes "valid_utf8 template"
  shows "render_prompt J template context \<noteq> None"
proof -
  have "valid_utf8 t \<Longrightarrow> render_loop J ctx t out \<noteq> None" for J :: "'a json_env" and ctx t out
  proof (induction J ctx t out rule: render_loop.induct)
    case (1 J ctx t out)
    note v = "1.prems"
    note drops = valid_after_braces [OF v, of 2 "''{{''"] valid_after_braces [OF v, of 4 "''{{{{''"]
      valid_after_braces [OF v, of 4 "''}}}}''"] valid_after_placeholder [of t]
    show ?case
    proof (cases "t = []")
      case True
      then show ?thesis by (subst render_loop.simps) simp
    next
      case False
      then show ?thesis
        using "1.IH" drops copy_char [OF v False refl] valid_utf8_boundary [of "drop 2 t"]
        by (subst render_loop.simps) (auto simp: Let_def split: option.splits)
    qed
  qed
  then show ?thesis using assms by (simp add: render_prompt_def)
qed

text \<open>Writing text so that it renders to itself: the documented escapes of \<open>{{\<close> and \<open>}}\<close>.\<close>

fun escape :: "string \<Rightarrow> string" where
  "escape (a # b # r) =
     (if a = CHR ''{'' \<and> b = CHR ''{'' then ''{{{{'' @ escape r
      else if a = CHR ''}'' \<and> b = CHR ''}'' then ''}}}}'' @ escape r
      else a # escape (b # r))"
| "escape [a] = [a]"
| "escape [] = []"

lemma hd_escape: "s \<noteq> [] \<Longrightarrow> escape s \<noteq> [] \<and> hd (escape s) = hd s"
  by (induction s rule: escape.induct) auto

lemma escape_plain:
  "list_all (\<lambda>c. c \<noteq> CHR ''{'' \<and> c \<noteq> CHR ''}'') xs \<Longrightarrow> escape (xs @ r) = xs @ escape r"
proof (induction xs)
  case (Cons x xs)
  then show ?case by (cases "xs @ r") auto
qed simp

lemma render_loop_braces:
  "render_loop J ctx (''{{{{'' @ t) out = render_loop J ctx t (out @ ''{{'')"
  "render_loop J ctx (''}}}}'' @ t) out = render_loop J ctx t (out @ ''}}'')"
  by (subst render_loop.simps, simp)+

lemma render_loop_char:
  assumes "t \<noteq> []" and "take 2 t \<noteq> ''{{''" and "take 2 t \<noteq> ''}}''" and "n = utf8_len (of_char (hd t))"
    and "n \<le> length t" and "boundary t" and "boundary (drop n t)"
  shows "render_loop J ctx t out = render_loop J ctx (drop n t) (out @ take n t)"
proof -
  have "take 2 t = take 2 (take 4 t)" by simp
  then have "take 4 t \<noteq> ''{{{{''" "take 4 t \<noteq> ''}}}}''"
    using assms(2,3) by (metis (no_types) numeral_2_eq_2 take0 take_Suc_Cons)+
  then show ?thesis using assms by (subst render_loop.simps) (simp add: Let_def)
qed

lemma take2_escape:
  "take 2 s \<noteq> ''{{'' \<Longrightarrow> take 2 s \<noteq> ''}}'' \<Longrightarrow> take 2 (escape s) = take 2 s"
proof (induction s rule: escape.induct)
  case (1 a b r)
  then have "escape (a # b # r) = a # escape (b # r)" by auto
  moreover obtain es where "escape (b # r) = b # es" using hd_escape [of "b # r"] by (cases "escape (b # r)") auto
  ultimately show ?case by simp
qed simp_all

lemma boundary_hd: "s \<noteq> [] \<Longrightarrow> t \<noteq> [] \<Longrightarrow> hd s = hd t \<Longrightarrow> boundary s = boundary t"
  by (cases s; cases t) (auto simp: boundary_def)

lemma boundary_escape: "boundary (escape s) = boundary s"
  using boundary_hd [of "escape s" s] hd_escape [of s] by (cases "s = []") auto

lemma of_char_brace: "of_char c \<ge> (0x80 :: nat) \<Longrightarrow> c \<noteq> CHR ''{'' \<and> c \<noteq> CHR ''}''"
  by auto

lemma utf8_char_plain:
  assumes "utf8 (a # r)" and "0x80 \<le> a" and "x \<in> set (take (utf8_len a) (a # r))"
  shows "0x80 \<le> x"
  using assms
proof (cases rule: utf8.cases)
  case (utf8_2 b r2)
  then have "utf8_len a = 2" by (auto simp: utf8_len_def lead2_def)
  with utf8_2 assms show ?thesis by (auto simp: continuation_def)
next
  case (utf8_3 b c r3)
  then have "utf8_len a = 3" by (auto simp: utf8_len_def lead3_def split: if_splits)
  with utf8_3 assms show ?thesis by (auto simp: lead3_def continuation_def numeral_3_eq_3 split: if_splits)
next
  case (utf8_4 b c d r4)
  then have "utf8_len a = 4" by (auto simp: utf8_len_def lead4_def split: if_splits)
  with utf8_4 assms show ?thesis by (auto simp: lead4_def continuation_def eval_nat_numeral split: if_splits)
qed (use assms in auto)

text \<open>The first character of a text that does not start with a doubled brace is escaped to itself.\<close>

lemma escape_first_char:
  assumes "valid_utf8 s" and "s \<noteq> []" and "take 2 s \<noteq> ''{{''" and "take 2 s \<noteq> ''}}''"
  shows "escape s = take (utf8_len (of_char (hd s))) s @ escape (drop (utf8_len (of_char (hd s))) s)"
proof -
  obtain c r where s: "s = c # r" using assms(2) by (cases s) auto
  show ?thesis
  proof (cases "of_char c < (0x80 :: nat)")
    case True
    with assms(3,4) show ?thesis unfolding s by (cases r) (auto simp: utf8_len_def)
  next
    case False
    let ?n = "utf8_len (of_char c)"
    have "list_all (\<lambda>x. x \<noteq> CHR ''{'' \<and> x \<noteq> CHR ''}'') (take ?n s)"
    proof (unfold list_all_iff, rule ballI)
      fix x assume x: "x \<in> set (take ?n s)"
      then have "of_char x \<in> set (take ?n (char_codes s))" by (simp add: char_codes_def take_map)
      with utf8_char_plain [of "of_char c" "char_codes r" "of_char x"] assms(1) False
      have "0x80 \<le> (of_char x :: nat)" unfolding s by (simp add: valid_utf8_iff)
      then show "x \<noteq> CHR ''{'' \<and> x \<noteq> CHR ''}''" by (rule of_char_brace)
    qed
    then have "escape (take ?n s @ drop ?n s) = take ?n s @ escape (drop ?n s)" by (rule escape_plain)
    then show ?thesis using s by simp
  qed
qed

lemma take2_cons: "take 2 s = [a, b] \<longleftrightarrow> (\<exists>r. s = a # b # r)"
  by (cases s; cases "tl s") auto

lemma render_escaped:
  "valid_utf8 s \<Longrightarrow> render_loop J ctx (escape s) out = Some (Inr (out @ s))"
proof (induction s arbitrary: out rule: length_induct)
  case (1 s)
  consider "s = []" | r where "s = ''{{'' @ r" | r where "s = ''}}'' @ r"
    | "s \<noteq> []" "take 2 s \<noteq> ''{{''" "take 2 s \<noteq> ''}}''"
    by (auto simp: take2_cons)
  then show ?case
  proof cases
    case 1
    then show ?thesis by (subst render_loop.simps) simp
  next
    case (2 r)
    then have "valid_utf8 r" using valid_after_brace [of "''{''" "CHR ''{''" r] "1.prems" by simp
    with "1.IH" 2 show ?thesis using render_loop_braces(1) [of J ctx "escape r" out] by simp
  next
    case (3 r)
    then have "valid_utf8 r" using valid_after_brace [of "''}''" "CHR ''}''" r] "1.prems" by simp
    with "1.IH" 3 show ?thesis using render_loop_braces(2) [of J ctx "escape r" out] by simp
  next
    case 4
    let ?n = "utf8_len (of_char (hd s))"
    note cc = copy_char [OF "1.prems" 4(1) refl]
    have pos: "0 < ?n" by (simp add: utf8_len_def)
    have e: "escape s = take ?n s @ escape (drop ?n s)" by (rule escape_first_char [OF "1.prems" 4])
    have split: "take ?n (escape s) = take ?n s" "drop ?n (escape s) = escape (drop ?n s)" "?n \<le> length (escape s)"
      using cc(1) unfolding e by simp_all
    have "render_loop J ctx (escape s) out = render_loop J ctx (drop ?n (escape s)) (out @ take ?n (escape s))"
      using hd_escape [OF 4(1)] take2_escape [OF 4(2,3)] 4 cc split boundary_escape
      by (intro render_loop_char) simp_all
    also have "\<dots> = render_loop J ctx (escape (drop ?n s)) (out @ take ?n s)" unfolding split ..
    also have "\<dots> = Some (Inr (out @ take ?n s @ drop ?n s))"
      using "1.IH" cc(4) pos 4(1) by simp
    finally show ?thesis by simp
  qed
qed

text \<open>
  The documented escapes work on every text: valid UTF-8 with each \<open>{{\<close> and \<open>}}\<close> doubled renders to
  the text itself, whatever the context holds.
\<close>

theorem escaped_text_renders_to_itself:
  "valid_utf8 s \<Longrightarrow> render_prompt J (escape s) ctx = Some (Inr s)"
  using render_escaped [of s J ctx "[]"] by (simp add: render_prompt_def)

section \<open>Execution\<close>

text \<open>A reference resolved: a text corpus whose cached bytes have the declared hash.\<close>

definition authentic_ref :: "prims \<Rightarrow> knowledge_ref \<Rightarrow> resolved_knowledge \<Rightarrow> bool" where
  "authentic_ref P r k \<longleftrightarrow> (\<exists>b encoding. kr_kind r = TextCorpus (content_hash P b) encoding
     \<and> rk_encoding k = encoding \<and> rk_text k = from_utf8_lossy b)"

lemma resolve_one_authentic:
  assumes "hex_ok K" and "resolve_one P K dir r = Inr k"
  shows "authentic_ref P r k"
proof -
  obtain h encoding b where r: "kr_kind r = TextCorpus h encoding" "sha256_hex P K b = kn_hex K (hash_bytes h)"
      "k = \<lparr>rk_content_hash_hex = kn_hex K (hash_bytes h), rk_encoding = encoding, rk_text = from_utf8_lossy b\<rparr>"
    using assms(2) by (auto simp: resolve_one_def Let_def split: knowledge_kind.splits option.splits sum.splits if_splits)
  then have "hash_bytes h = sha256 P b" using assms(1) by (auto simp: hex_ok_def sha256_hex_def dest: injD)
  then have "h = content_hash P b" by (cases h) (simp add: content_hash_def)
  with r show ?thesis by (auto simp: authentic_ref_def)
qed

lemma resolve_knowledge_authentic:
  assumes "hex_ok K" and "resolve_knowledge P K refs dir = Inr ks"
  shows "list_all2 (authentic_ref P) refs ks"
proof -
  have "map_results (resolve_one P K d) rs = Inr ks' \<Longrightarrow> list_all2 (authentic_ref P) rs ks'" for d rs ks'
    by (induction rs arbitrary: ks') (auto simp: bind_result_eq_Inr intro: resolve_one_authentic [OF assms(1)])
  then show ?thesis using assms(2) by (auto simp: resolve_knowledge_def bind_result_eq_Inr split: if_splits)
qed

lemma map_error_Inr [simp]: "map_error f r = Inr x \<longleftrightarrow> r = Inr x"
  by (auto simp: map_error_def split: sum.splits)

definition signed_result ::
    "prims \<Rightarrow> 'b executor \<Rightarrow> u64 \<Rightarrow> job_spec \<Rightarrow> bytes \<Rightarrow> job_result" where
  "signed_result P X time spec payload = fst (result_new_signed_at P (spec_content_hash P spec) (ax_local_peer_id X)
     (js_submitted_at spec) \<lparr>rm_verifier_method = Deterministic, rm_execution_time_ms = time,
       rm_model_used = Some (bk_model_id (ax_backend X)), rm_inference_token_count = None\<rparr> payload (ax_signing_key X))"

lemma complete_and_sign_Inr:
  "complete_and_sign J P X time agent spec prompt = Inr oc \<longleftrightarrow>
     (\<exists>seed raw out. ji_seed (js_inputs spec) = Some seed
        \<and> bk_complete (ax_backend X) prompt seed (case ji_max_tokens (js_inputs spec) of Some n \<Rightarrow> n | None \<Rightarrow> 2048) = Inr raw
        \<and> je_parse J (trim raw) = Inr out \<and> schema_validate J (ad_output_schema agent) out = Inr ()
        \<and> oc = \<lparr>eo_output_json = out, eo_job_result = signed_result P X time spec (to_cbor_bytes P (je_cbor J out)),
             eo_model_id = bk_model_id (ax_backend X), eo_execution_time_ms = time\<rparr>)"
  by (auto simp: complete_and_sign_def Let_def bind_result_eq_Inr signed_result_def split_beta split: option.splits)

lemma execute_Inr:
  "execute J P K X time agent spec input = Some (Inr oc) \<longleftrightarrow>
     schema_validate J (ad_input_schema agent) input = Inr () \<and>
     (\<exists>resolved prompt. resolve_knowledge P K (ad_knowledge_refs agent) (ax_knowledge_cache_root X) = Inr resolved
        \<and> render_prompt J (ad_prompt_template agent) (render_context input resolved) = Some (Inr prompt)
        \<and> complete_and_sign J P X time agent spec prompt = Inr oc)"
  by (auto simp: execute_def split: sum.splits option.splits)

lemma signed_result_fields:
  "jr_spec_hash (signed_result P X time spec payload) = spec_content_hash P spec"
  "jr_executor (signed_result P X time spec payload) = ax_local_peer_id X"
  "jr_executed_at (signed_result P X time spec payload) = js_submitted_at spec"
  "jr_result_payload (signed_result P X time spec payload) = payload"
  "rm_execution_time_ms (jr_result_meta (signed_result P X time spec payload)) = time"
  by (simp_all add: signed_result_def result_new_signed_at_def Let_def)

text \<open>
  C14. A successful run is what it should be, from the input to the signature. The input passed the
  agent's input schema; for every knowledge reference of the agent, in order, a text was taken whose
  bytes have the declared hash, and the prompt is the agent's template rendered over the input and
  exactly these texts; the backend completed exactly this prompt with the seed and budget of the
  spec; the output is what its answer parses to and passed the output schema; and the result names
  the spec and the executor, is dated by the spec, decodes to this output and verifies under the
  executor's key.
\<close>

theorem executed_result_sound:
  assumes "ed25519_ok P" and "cbor_ok P" and "hex_ok K"
    and run: "execute J P K X time agent spec input = Some (Inr oc)"
  shows "schema_validate J (ad_input_schema agent) input = Inr ()
    \<and> (\<exists>ks prompt seed raw. list_all2 (authentic_ref P) (ad_knowledge_refs agent) ks
        \<and> render_prompt J (ad_prompt_template agent) (render_context input ks) = Some (Inr prompt)
        \<and> ji_seed (js_inputs spec) = Some seed
        \<and> bk_complete (ax_backend X) prompt seed (case ji_max_tokens (js_inputs spec) of Some n \<Rightarrow> n | None \<Rightarrow> 2048) = Inr raw
        \<and> je_parse J (trim raw) = Inr (eo_output_json oc))
    \<and> schema_validate J (ad_output_schema agent) (eo_output_json oc) = Inr ()
    \<and> jr_spec_hash (eo_job_result oc) = spec_content_hash P spec \<and> jr_executor (eo_job_result oc) = ax_local_peer_id X
    \<and> jr_executed_at (eo_job_result oc) = js_submitted_at spec
    \<and> cbor_read P (jr_result_payload (eo_job_result oc)) = Some (je_cbor J (eo_output_json oc))
    \<and> result_verify_signature P (eo_job_result oc) (ed_public P (ax_signing_key X)) = Inr ()"
proof -
  from run obtain ks prompt where ks: "resolve_knowledge P K (ad_knowledge_refs agent) (ax_knowledge_cache_root X) = Inr ks"
    and prompt: "render_prompt J (ad_prompt_template agent) (render_context input ks) = Some (Inr prompt)"
    and valid: "schema_validate J (ad_input_schema agent) input = Inr ()"
    and fin: "complete_and_sign J P X time agent spec prompt = Inr oc"
    unfolding execute_Inr by blast
  from fin obtain seed raw where raw: "ji_seed (js_inputs spec) = Some seed"
      "bk_complete (ax_backend X) prompt seed (case ji_max_tokens (js_inputs spec) of Some n \<Rightarrow> n | None \<Rightarrow> 2048) = Inr raw"
      "je_parse J (trim raw) = Inr (eo_output_json oc)" "schema_validate J (ad_output_schema agent) (eo_output_json oc) = Inr ()"
    and res: "eo_job_result oc = signed_result P X time spec (to_cbor_bytes P (je_cbor J (eo_output_json oc)))"
    unfolding complete_and_sign_Inr by auto
  have cbor: "cbor_read P (to_cbor_bytes P v) = Some v" for v using assms(2) by (simp add: cbor_ok_def to_cbor_bytes_def)
  have sig: "result_verify_signature P (signed_result P X time spec payload) (ed_public P (ax_signing_key X)) = Inr ()" for payload
    unfolding signed_result_def by (rule result_new_signed_verifies [OF assms(1)])
  have "\<exists>ks prompt seed raw. list_all2 (authentic_ref P) (ad_knowledge_refs agent) ks
        \<and> render_prompt J (ad_prompt_template agent) (render_context input ks) = Some (Inr prompt)
        \<and> ji_seed (js_inputs spec) = Some seed
        \<and> bk_complete (ax_backend X) prompt seed (case ji_max_tokens (js_inputs spec) of Some n \<Rightarrow> n | None \<Rightarrow> 2048) = Inr raw
        \<and> je_parse J (trim raw) = Inr (eo_output_json oc)"
    using resolve_knowledge_authentic [OF assms(3) ks] prompt raw(1-3) by blast
  with valid raw(4) show ?thesis by (simp add: res signed_result_fields cbor sig)
qed

text \<open>What a verifier compares: the output, the spec, the date, the payload and the model.\<close>

definition run_content :: "'n exec_outcome \<Rightarrow> 'n json \<times> chash \<times> u64 \<times> bytes \<times> string" where
  "run_content oc = (eo_output_json oc, jr_spec_hash (eo_job_result oc), jr_executed_at (eo_job_result oc),
     jr_result_payload (eo_job_result oc), eo_model_id oc)"

lemma map_sum_bind: "map_sum id f (bind_result r g) = bind_result r (\<lambda>x. map_sum id f (g x))"
  by (cases r) simp_all

lemma complete_and_sign_content:
  assumes "ax_backend X = ax_backend Y"
  shows "map_sum id run_content (complete_and_sign J P X time agent spec prompt)
    = map_sum id run_content (complete_and_sign J P Y time' agent spec prompt)"
  by (cases "ji_seed (js_inputs spec)")
    (simp_all add: complete_and_sign_def Let_def map_sum_bind run_content_def result_new_signed_at_def assms)

text \<open>
  C13. Re-execution: two executors with the same backend and the same knowledge get the same outcome
  for an agent, a spec and an input (the same error, or a result with the same output, payload, spec,
  date and model) whoever they are and however long they take. The signed result is not the same:
  even for one executor it is the same exactly when the measured times are.
\<close>

theorem execution_reproducible:
  assumes "ax_backend X = ax_backend Y" and "ax_knowledge_cache_root X = ax_knowledge_cache_root Y"
  shows "map_option (map_sum id run_content) (execute J P K X time agent spec input)
      = map_option (map_sum id run_content) (execute J P K Y time' agent spec input)
    \<and> (execute J P K X time agent spec input = Some (Inr oc) \<longrightarrow> execute J P K X time' agent spec input = Some (Inr oc')
       \<longrightarrow> (eo_job_result oc = eo_job_result oc' \<longleftrightarrow> time = time'))"
proof
  show "map_option (map_sum id run_content) (execute J P K X time agent spec input)
      = map_option (map_sum id run_content) (execute J P K Y time' agent spec input)"
    using assms(2) complete_and_sign_content [OF assms(1), of J P time agent spec _ time']
    by (simp add: execute_def split: sum.splits option.splits)
  show "execute J P K X time agent spec input = Some (Inr oc) \<longrightarrow> execute J P K X time' agent spec input = Some (Inr oc')
       \<longrightarrow> (eo_job_result oc = eo_job_result oc' \<longleftrightarrow> time = time')"
    by (auto simp: execute_Inr complete_and_sign_Inr) (metis signed_result_fields(5))
qed

section \<open>A concrete agent\<close>

text \<open>An engine that reads any text as a string and accepts every value, and an echoing backend.\<close>

definition demo_json_env :: "nat json_env" where
  "demo_json_env = \<lparr>je_parse = (\<lambda>s. Inr (JString s)), je_size = (\<lambda>_. Inr 2), je_text = (\<lambda>_. ''0''),
     je_compile = (\<lambda>_. Inr ()), je_validate = (\<lambda>_ _. Inr ()), je_cbor = (\<lambda>_. CNull)\<rparr>"

definition demo_knowledge :: knowledge_env where
  "demo_knowledge = \<lparr>kn_files = (\<lambda>_. None), kn_home = None, kn_hex = byte_string\<rparr>"

definition demo_schema :: io_schema where
  "demo_schema = \<lparr>sc_schema_json = ''{}'', sc_required_keys = [], sc_max_size_bytes = 16\<rparr>"

definition demo_agent :: agent_definition where
  "demo_agent = \<lparr>ad_spec_version = SPEC_VERSION, ad_id = zero_hash, ad_agent_version = \<lparr>av_major = 1, av_minor = 0, av_patch = 0\<rparr>,
     ad_author = PeerId [1], ad_metadata = \<lparr>am_name = ''a'', am_description = [], am_languages = [], am_tags = [],
       am_license = ''MIT''\<rparr>, ad_input_schema = demo_schema, ad_output_schema = demo_schema,
     ad_prompt_template = ''{{q}}'', ad_knowledge_refs = [],
     ad_model_requirements = \<lparr>mr_min_parameters = None, mr_preferred_model_names = [], mr_context_window_tokens = 1,
       mr_deterministic_mode_required = True\<rparr>, ad_parents = [], ad_created_at = 5, ad_signature = []\<rparr>"

definition demo_executor :: "u8 \<Rightarrow> unit executor" where
  "demo_executor k = \<lparr>ax_backend = \<lparr>bk_complete = (\<lambda>p _ _. Inr p), bk_model_id = ''echo''\<rparr>, ax_signing_key = [k],
     ax_local_peer_id = PeerId [k], ax_knowledge_cache_root = None\<rparr>"

definition demo_job :: job_spec where
  "demo_job = \<lparr>js_wire_version = 1, js_kind = JobInference, js_inputs = inference_prompt ''hi'' 3,
     js_service = SvcInference, js_sensitive = False, js_submitted_at = 4, js_submitter = PeerId [2], js_signature = []\<rparr>"

definition demo_input :: "nat json" where
  "demo_input = JObject [(''q'', JString ''x'')]"

definition demo_exec_outcome :: "u8 \<Rightarrow> u64 \<Rightarrow> nat exec_outcome" where
  "demo_exec_outcome k time = \<lparr>eo_output_json = JString ''x'',
     eo_job_result = signed_result demo_prims (demo_executor k) time demo_job (to_cbor_bytes demo_prims CNull),
     eo_model_id = ''echo'', eo_execution_time_ms = time\<rparr>"

lemma inj_byte_char: "inj (\<lambda>w :: u8. char_of (unat w) :: char)"
proof (rule injI)
  fix v w :: u8
  assume "(char_of (unat v) :: char) = char_of (unat w)"
  then have "(of_char (char_of (unat v) :: char) :: nat) = of_char (char_of (unat w) :: char)" by simp
  then show "v = w"
    using unsigned_less [of v, where ?'a = nat] unsigned_less [of w, where ?'a = nat] by (simp add: word_unat_eq_iff)
qed

lemma demo_hex_ok: "hex_ok demo_knowledge"
  using inj_byte_char by (simp add: hex_ok_def demo_knowledge_def byte_string_def [abs_def] inj_mapI)

lemma demo_trimmed: "trim ''x'' = ''x''" "trim ''q'' = ''q''"
  by code_simp+

lemma demo_rendered: "render_prompt J ''{{q}}'' (render_context demo_input []) = Some (Inr ''x'')"
proof -
  have ctx: "lookup (render_context demo_input []) ''q'' = Some (JString ''x'')"
    by (simp add: lookup_def render_context_def demo_input_def walk_seg_def json_get_def parse_unsigned_def is_digit_def)
  have "render_loop J ctx [] out = Some (Inr out)" for ctx :: "nat json" and out
    by (subst render_loop.simps) simp
  then show ?thesis
    unfolding render_prompt_def
    by (subst render_loop.simps) (simp add: Let_def boundary_def continuation_def demo_trimmed ctx stringify_def)
qed

lemma demo_executed:
  "execute demo_json_env demo_prims demo_knowledge (demo_executor k) time demo_agent demo_job demo_input
     = Some (Inr (demo_exec_outcome k time))"
  unfolding execute_Inr complete_and_sign_Inr
  by (simp add: demo_rendered demo_trimmed demo_agent_def demo_job_def inference_prompt_def resolve_knowledge_def
      schema_validate_def validate_against_schema_def demo_json_env_def demo_schema_def
      demo_executor_def demo_exec_outcome_def signed_result_def)

definition demo_signed_agent :: "definition_error + agent_definition \<times> chash" where
  "demo_signed_agent = definition_new_signed_at demo_json_env demo_prims (ad_agent_version demo_agent) (PeerId [1])
     (ad_metadata demo_agent) demo_schema demo_schema ''{{q}}'' [] (ad_model_requirements demo_agent) [] 5 [1]"

lemma demo_license: "is_plausible_spdx_identifier ''MIT''" "trim ''{{q}}'' = ''{{q}}''" "trim ''a'' = ''a''"
  by code_simp+

lemma demo_signed: "demo_signed_agent = Inr (projr demo_signed_agent)"
  by (simp add: demo_signed_agent_def definition_new_signed_at_def demo_agent_def demo_license schema_compile_def
      compile_schema_def demo_json_env_def json_get_def Let_def)

theorem definition_identity_witness:
  "ed25519_ok demo_prims \<and> sha256_ok demo_prims \<and> cbor_ok demo_prims \<and> demo_signed_agent = Inr (projr demo_signed_agent)
   \<and> wf_definition demo_agent
   \<and> definition_verify_signature demo_prims (fst (projr demo_signed_agent)) (ed_public demo_prims [1]) = Inr ()
   \<and> recompute_id demo_prims (fst (projr demo_signed_agent)) = snd (projr demo_signed_agent)"
proof -
  have wf: "wf_definition demo_agent" by (simp add: wf_definition_def demo_agent_def wf_hash_def zero_hash_def)
  have "definition_new_signed_at demo_json_env demo_prims (ad_agent_version demo_agent) (PeerId [1])
     (ad_metadata demo_agent) demo_schema demo_schema ''{{q}}'' [] (ad_model_requirements demo_agent) [] 5 [1]
     = Inr (fst (projr demo_signed_agent), snd (projr demo_signed_agent))"
    using demo_signed by (simp add: demo_signed_agent_def)
  from definition_identity [OF demo_ok this _ _ wf] show ?thesis using demo_ok demo_signed wf by simp
qed

theorem render_never_panics_witness:
  "valid_utf8 ''say {{q}}'' \<and> render_prompt demo_json_env ''say {{q}}'' demo_input \<noteq> None"
proof -
  have "valid_utf8 ''say {{q}}''" by code_simp
  with render_never_panics [OF this, of demo_json_env demo_input] show ?thesis by blast
qed

theorem escaped_text_renders_to_itself_witness:
  "valid_utf8 ''a {{b}}'' \<and> escape ''a {{b}}'' = ''a {{{{b}}}}''
   \<and> render_prompt demo_json_env ''a {{{{b}}}}'' demo_input = Some (Inr ''a {{b}}'')"
proof -
  have v: "valid_utf8 ''a {{b}}''" by code_simp
  have "escape ''a {{b}}'' = ''a {{{{b}}}}''" by simp
  with escaped_text_renders_to_itself [OF v, of demo_json_env demo_input] v show ?thesis by simp
qed

text \<open>An agent whose whole prompt is the text of its one knowledge reference, and a cache that holds it.\<close>

definition demo_reader :: agent_definition where
  "demo_reader = demo_agent\<lparr>ad_prompt_template := ''{{knowledge.0.text}}'', ad_knowledge_refs :=
     [from_text_bytes demo_prims [120] ''utf-8'']\<rparr>"

definition demo_library :: knowledge_env where
  "demo_library = \<lparr>kn_files = (\<lambda>p. if p = [''c'', byte_string (sha256 demo_prims [120])] then Some (Inr [120]) else None),
     kn_home = None, kn_hex = byte_string\<rparr>"

definition demo_scholar :: "unit executor" where
  "demo_scholar = (demo_executor 1)\<lparr>ax_knowledge_cache_root := Some [''c'']\<rparr>"

definition demo_resolved :: resolved_knowledge where
  "demo_resolved = \<lparr>rk_content_hash_hex = byte_string (sha256 demo_prims [120]), rk_encoding = ''utf-8'', rk_text = ''x''\<rparr>"

lemma demo_library_hex: "hex_ok demo_library"
  using demo_hex_ok by (simp add: hex_ok_def demo_knowledge_def demo_library_def)

lemma demo_path: "trim ''knowledge.0.text'' = ''knowledge.0.text''"
    "split_on CHR ''.'' ''knowledge.0.text'' = [''knowledge'', ''0'', ''text'']"
    "from_utf8_lossy [120] = ''x''"
  by code_simp+

lemma demo_index: "parse_unsigned 18446744073709551616 ''0'' = Some 0"
  by (simp add: parse_unsigned_def is_digit_def decimal_def)

lemma demo_read: "render_prompt J ''{{knowledge.0.text}}'' (render_context demo_input [demo_resolved]) = Some (Inr ''x'')"
proof -
  have ctx: "lookup (render_context demo_input [demo_resolved]) ''knowledge.0.text'' = Some (JString ''x'')"
    unfolding lookup_def demo_path
    by (simp add: render_context_def demo_input_def walk_seg_def json_get_def demo_index knowledge_value_def demo_resolved_def)
  have "render_loop J ctx [] out = Some (Inr out)" for ctx :: "nat json" and out
    by (subst render_loop.simps) simp
  then show ?thesis
    unfolding render_prompt_def
    by (subst render_loop.simps) (simp add: Let_def boundary_def continuation_def demo_path ctx stringify_def)
qed

lemma demo_studied:
  "execute demo_json_env demo_prims demo_library demo_scholar 9 demo_reader demo_job demo_input
     = Some (Inr (demo_exec_outcome 1 9))"
proof -
  have "resolve_knowledge demo_prims demo_library (ad_knowledge_refs demo_reader) (Some [''c'']) = Inr [demo_resolved]"
    by (simp add: resolve_knowledge_def resolve_one_def from_text_bytes_def demo_reader_def demo_library_def demo_resolved_def sha256_hex_def
        content_hash_def demo_path Let_def)
  then show ?thesis
    unfolding execute_Inr complete_and_sign_Inr
    by (simp add: demo_read demo_trimmed demo_reader_def demo_agent_def demo_job_def inference_prompt_def
        schema_validate_def validate_against_schema_def demo_json_env_def demo_schema_def
        demo_scholar_def demo_executor_def demo_exec_outcome_def signed_result_def)
qed

theorem executed_result_sound_witness:
  "ed25519_ok demo_prims \<and> cbor_ok demo_prims \<and> hex_ok demo_library
   \<and> execute demo_json_env demo_prims demo_library demo_scholar 9 demo_reader demo_job demo_input
       = Some (Inr (demo_exec_outcome 1 9))
   \<and> (\<exists>ks prompt. list_all2 (authentic_ref demo_prims) (ad_knowledge_refs demo_reader) ks \<and>
        render_prompt demo_json_env ''{{knowledge.0.text}}'' (render_context demo_input ks) = Some (Inr prompt))
   \<and> result_verify_signature demo_prims (eo_job_result (demo_exec_outcome 1 9)) (ed_public demo_prims [1]) = Inr ()"
proof -
  have "ad_prompt_template demo_reader = ''{{knowledge.0.text}}''" "ax_signing_key demo_scholar = [1]"
    by (simp_all add: demo_reader_def demo_scholar_def demo_executor_def)
  then show ?thesis
    using executed_result_sound [OF demo_ok(1,3) demo_library_hex demo_studied] demo_ok demo_library_hex demo_studied
    by auto
qed

theorem execution_reproducible_witness:
  "execute demo_json_env demo_prims demo_knowledge (demo_executor 1) 9 demo_agent demo_job demo_input
     = Some (Inr (demo_exec_outcome 1 9))
   \<and> run_content (demo_exec_outcome 1 9) = run_content (demo_exec_outcome 2 4)
   \<and> eo_job_result (demo_exec_outcome 1 9) \<noteq> eo_job_result (demo_exec_outcome 1 4)"
proof -
  have "ax_backend (demo_executor 1) = ax_backend (demo_executor 2)"
    "ax_knowledge_cache_root (demo_executor 1) = ax_knowledge_cache_root (demo_executor 2)"
    by (simp_all add: demo_executor_def)
  from execution_reproducible [OF this, of demo_json_env demo_prims demo_knowledge 9 demo_agent demo_job demo_input 4
      "demo_exec_outcome 1 9" "demo_exec_outcome 1 4"]
  show ?thesis by (simp add: demo_executed)
qed

end
