(* ===== verification/Reality.thy ===== *)
theory Reality
  imports Socket Net_Addr Json
begin

text \<open>
  The stealth transport of the relay (\<open>server/relay/src/reality/\<close>): the operator's configuration and its
  validation (\<open>config.rs\<close>), the xray-core subprocess with the configuration file written for it
  (\<open>subprocess.rs\<close>), and the SOCKS5 client that dials through it (\<open>transport.rs\<close>). The operating system
  (temporary files, \<open>PATH\<close>, processes) is a parameter; the set of configuration files left on disk is the
  state.
\<close>

section \<open>Configuration\<close>

datatype reality_role = Server | Client

record fallback_server =
  fb_host :: string
  fb_port :: u16

record reality_config =
  rc_role :: reality_role
  rc_server_name :: string
  rc_fallback_server :: fallback_server
  rc_private_key_b64 :: string
  rc_local_listen :: string
  rc_remote :: "string option"

definition fallback_default :: fallback_server where
  "fallback_default = \<lparr>fb_host = ''www.cloudflare.com'', fb_port = 443\<rparr>"

definition reality_config_default :: reality_config where
  "reality_config_default = \<lparr>rc_role = Client, rc_server_name = ''www.cloudflare.com'',
     rc_fallback_server = fallback_default, rc_private_key_b64 = [], rc_local_listen = ''127.0.0.1:18421'',
     rc_remote = None\<rparr>"

datatype config_error =
    EmptyServerName
  | EmptyPrivateKey
  | PrivateKeyNotBase64 nat
  | SniMismatch string string
  | ZeroFallbackPort
  | EmptyFallbackHost
  | NonLoopbackLocalListen string
  | InvalidLocalListen string
  | ClientMissingRemote

definition is_ascii_alphanumeric :: "char \<Rightarrow> bool" where
  "is_ascii_alphanumeric c \<longleftrightarrow> is_digit c \<or> 65 \<le> (of_char c :: nat) \<and> (of_char c :: nat) \<le> 90
     \<or> 97 \<le> (of_char c :: nat) \<and> (of_char c :: nat) \<le> 122"

definition key_char :: "char \<Rightarrow> bool" where
  "key_char c \<longleftrightarrow> is_ascii_alphanumeric c \<or> c \<in> set ''+/-_=''"

definition validate :: "reality_config \<Rightarrow> config_error + unit" where
  "validate cfg =
     (let fb = rc_fallback_server cfg; pk_trim = trim (rc_private_key_b64 cfg)
      in if trim (rc_server_name cfg) = [] then Inl EmptyServerName
         else if trim (fb_host fb) = [] then Inl EmptyFallbackHost
         else if fb_port fb = 0 then Inl ZeroFallbackPort
         else if rc_server_name cfg \<noteq> fb_host fb then Inl (SniMismatch (rc_server_name cfg) (fb_host fb))
         else if pk_trim = [] then Inl EmptyPrivateKey
         else if \<not> (40 \<le> length pk_trim \<and> length pk_trim \<le> 64) \<or> \<not> list_all key_char pk_trim
           then Inl (PrivateKeyNotBase64 (length pk_trim))
         else (case parse_socket_addr (rc_local_listen cfg) of
             None \<Rightarrow> Inl (InvalidLocalListen (rc_local_listen cfg))
           | Some parsed \<Rightarrow>
               if \<not> is_loopback (fst parsed) then Inl (NonLoopbackLocalListen (rc_local_listen cfg))
               else if rc_role cfg = Client \<and> rc_remote cfg = None then Inl ClientMissingRemote
               else Inr ()))"

section \<open>The configuration of the subprocess\<close>

text \<open>The host and the port as \<open>split(':')\<close> cuts them out, with the fallbacks of the code.\<close>

definition split_host :: "string \<Rightarrow> string" where
  "split_host s = hd (split_on CHR '':'' s)"

definition split_port :: "nat \<Rightarrow> string \<Rightarrow> nat" where
  "split_port dflt s = (let parts = split_on CHR '':'' s in
     if 1 < length parts then (case parse_u16 (parts ! 1) of Some p \<Rightarrow> p | None \<Rightarrow> dflt) else dflt)"

definition xray_user_id :: string where
  "xray_user_id = ''00000000-0000-0000-0000-000000000000''"

definition build_xray_config :: "reality_config \<Rightarrow> nat json" where
  "build_xray_config cfg =
     (let log = (''log'', JObject [(''loglevel'', JString ''warning'')]);
          listen = (''listen'', JString (split_host (rc_local_listen cfg)));
          port = (''port'', JNumber (split_port 18421 (rc_local_listen cfg)));
          address = (case rc_remote cfg of Some r \<Rightarrow> split_host r | None \<Rightarrow> ''127.0.0.1'');
          remote_port = (case rc_remote cfg of Some r \<Rightarrow> split_port 443 r | None \<Rightarrow> 443);
          fb = rc_fallback_server cfg
      in case rc_role cfg of
        Client \<Rightarrow> JObject [log,
          (''inbounds'', JArray [JObject [(''tag'', JString ''socks-in''), listen, port,
             (''protocol'', JString ''socks''), (''settings'', JObject [(''udp'', JBool False)])]]),
          (''outbounds'', JArray [JObject [(''tag'', JString ''reality-out''), (''protocol'', JString ''vless''),
             (''settings'', JObject [(''vnext'', JArray [JObject [(''address'', JString address),
                (''port'', JNumber remote_port), (''users'', JArray [JObject [(''id'', JString xray_user_id),
                   (''encryption'', JString ''none'')]])]])]),
             (''streamSettings'', JObject [(''network'', JString ''tcp''), (''security'', JString ''reality''),
                (''realitySettings'', JObject [(''serverName'', JString (rc_server_name cfg)),
                   (''fingerprint'', JString ''chrome''), (''publicKey'', JString []), (''shortId'', JString [])])])]])]
      | Server \<Rightarrow> JObject [log,
          (''inbounds'', JArray [JObject [(''tag'', JString ''reality-in''), listen, port,
             (''protocol'', JString ''vless''),
             (''settings'', JObject [(''clients'', JArray [JObject [(''id'', JString xray_user_id)]]),
                (''decryption'', JString ''none'')]),
             (''streamSettings'', JObject [(''network'', JString ''tcp''), (''security'', JString ''reality''),
                (''realitySettings'', JObject [(''show'', JBool False),
                   (''dest'', JString (fb_host fb @ '':'' @ show_base 10 (unat (fb_port fb)))),
                   (''serverNames'', JArray [JString (rc_server_name cfg)]),
                   (''privateKey'', JString (rc_private_key_b64 cfg)), (''shortIds'', JArray [JString []])])])]]),
          (''outbounds'', JArray [JObject [(''tag'', JString ''direct''), (''protocol'', JString ''freedom'')]])])"

section \<open>The subprocess\<close>

datatype subprocess_error = ConfigInvalid config_error | BinaryNotFound | TempFile | Spawn | EarlyExit | StartTimeout | Shutdown

datatype subprocess_state = NotStarted | Running | Stopped | Crashed

definition state_from_u8 :: "u8 \<Rightarrow> subprocess_state" where
  "state_from_u8 v = (if v = 1 then Running else if v = 2 then Stopped else if v = 3 then Crashed else NotStarted)"

definition state_to_u8 :: "subprocess_state \<Rightarrow> u8" where
  "state_to_u8 st = (case st of NotStarted \<Rightarrow> 0 | Running \<Rightarrow> 1 | Stopped \<Rightarrow> 2 | Crashed \<Rightarrow> 3)"

record subprocess =
  sp_state :: u8
  sp_config_path :: string
  sp_socks_addr :: string

text \<open>
  What the operating system and the serialiser do: the directory for temporary files, the process id
  and the clock (nanoseconds since the epoch) that name the file; whether a file can be created;
  whether writing fails (\<open>Some n\<close>: after \<open>n\<close> characters), whether flushing succeeds, whether an attempt
  to remove a file succeeds; \<open>PATH\<close> split into directories; and \<open>os_run\<close>, which starts a binary on a
  configuration and delivers what its standard error yields within \<open>SPAWN_TIMEOUT\<close>. The files on
  disk are a map from paths to contents.
\<close>

datatype stderr_event = Line string | Closed | ReadFailed

type_synonym files = "string \<rightharpoonup> string"

record os =
  os_temp_dir :: string
  os_process_id :: nat
  os_nanos :: nat
  os_pretty :: "nat json \<Rightarrow> string"
  os_create :: "string \<Rightarrow> bool"
  os_write_all :: "string \<Rightarrow> string \<Rightarrow> nat option"
  os_flush :: "string \<Rightarrow> bool"
  os_remove :: "nat \<Rightarrow> string \<Rightarrow> bool"
  os_path :: "string list option"
  os_is_file :: "string \<Rightarrow> bool"
  os_run :: "string \<Rightarrow> string \<Rightarrow> stderr_event list option"

definition temp_config_path :: "os \<Rightarrow> string" where
  "temp_config_path os = os_temp_dir os @ ''/parseh-relay-reality-'' @ show_base 10 (os_process_id os) @ ''-'' @
     show_base 10 (os_nanos os) @ ''.json''"

text \<open>\<open>create_new\<close> refuses a path that exists; a failed write leaves what was written.\<close>

definition write_temp_config :: "os \<Rightarrow> nat json \<Rightarrow> files \<Rightarrow> string option \<times> files" where
  "write_temp_config os cfg files =
     (let p = temp_config_path os; serialised = os_pretty os cfg
      in if p \<in> dom files \<or> \<not> os_create os p then (None, files)
         else (case os_write_all os p serialised of
             Some n \<Rightarrow> (None, files(p \<mapsto> take n serialised))
           | None \<Rightarrow> (if os_flush os p then Some p else None, files(p \<mapsto> serialised))))"

text \<open>\<open>std::fs::remove_file\<close> with its result ignored, at the \<open>n\<close>-th attempt of an operation.\<close>

definition remove_ignored :: "os \<Rightarrow> nat \<Rightarrow> string \<Rightarrow> files \<Rightarrow> files" where
  "remove_ignored os n p files = (if os_remove os n p then files(p := None) else files)"

definition which_or_path :: "os \<Rightarrow> string \<Rightarrow> string option" where
  "which_or_path os name = Option.bind (os_path os)
     (\<lambda>dirs. List.find (os_is_file os) (map (\<lambda>dir. dir @ ''/'' @ name) dirs))"

fun await_started :: "stderr_event list \<Rightarrow> subprocess_error + unit" where
  "await_started [] = Inl StartTimeout"
| "await_started (Line line # es) =
     (if contains_str line ''started'' \<or> contains_str line ''listening'' then Inr () else await_started es)"
| "await_started (Closed # es) = Inl EarlyExit"
| "await_started (ReadFailed # es) = Inl EarlyExit"

definition spawn :: "os \<Rightarrow> reality_config \<Rightarrow> files \<Rightarrow> (subprocess_error + subprocess) \<times> files" where
  "spawn os cfg files =
     (case validate cfg of
        Inl e \<Rightarrow> (Inl (ConfigInvalid e), files)
      | Inr _ \<Rightarrow>
        (case write_temp_config os (build_xray_config cfg) files of
           (None, files) \<Rightarrow> (Inl TempFile, files)
         | (Some config_path, files) \<Rightarrow>
           (case which_or_path os ''xray'' of
              None \<Rightarrow> (Inl BinaryNotFound, remove_ignored os 0 config_path files)
            | Some bin \<Rightarrow>
              (case os_run os bin config_path of
                 None \<Rightarrow> (Inl Spawn, files)
               | Some es \<Rightarrow>
                 (case await_started es of
                    Inl e \<Rightarrow> (Inl e, remove_ignored os 0 config_path files)
                  | Inr _ \<Rightarrow>
                      (Inr \<lparr>sp_state = state_to_u8 Running, sp_config_path = config_path,
                         sp_socks_addr = rc_local_listen cfg\<rparr>, files))))))"

text \<open>
  \<open>stop\<close> consumes the handle, so \<open>Drop\<close> runs at its end: after its own attempt to remove the file, or
  as the only one when waiting for the child fails and it returns early.
\<close>

datatype wait_result = Exited | WaitFailed | IgnoredSigterm

definition subprocess_drop :: "os \<Rightarrow> nat \<Rightarrow> subprocess \<Rightarrow> files \<Rightarrow> files" where
  "subprocess_drop os n sp files = remove_ignored os n (sp_config_path sp) files"

definition stop :: "os \<Rightarrow> subprocess \<Rightarrow> wait_result \<Rightarrow> files \<Rightarrow> (subprocess_error + unit) \<times> files" where
  "stop os sp w files = (case w of
       WaitFailed \<Rightarrow> (Inl Shutdown, subprocess_drop os 0 sp files)
     | _ \<Rightarrow> (Inr (), subprocess_drop os 1 sp (remove_ignored os 0 (sp_config_path sp) files)))"

section \<open>Dialling through the subprocess\<close>

datatype handshake_cause =
    GreetingReplyVersion u8
  | MethodRejected u8
  | ReplyVersion u8
  | ConnectFailed u8
  | UnknownReplyAtyp u8

datatype transport_error =
    SubprocessNotRunning subprocess_state
  | SocksConnect
  | SocksHandshake handshake_cause
  | InvalidTarget string
  | TransportIo

abbreviation recv :: "nat \<Rightarrow> (transport_error, bytes) sio" where
  "recv \<equiv> read_or TransportIo"

abbreviation send :: "bytes \<Rightarrow> (transport_error, unit) sio" where
  "send \<equiv> write_or TransportIo"

definition connect_request :: "string \<Rightarrow> u16 \<Rightarrow> transport_error + bytes" where
  "connect_request host port =
     bind_result
       (case parse_ipv4 host of
          Some v4 \<Rightarrow> Inr (0x01 # v4)
        | None \<Rightarrow>
          (case parse_ipv6 host of
             Some v6 \<Rightarrow> Inr (0x04 # v6)
           | None \<Rightarrow> if 255 < length host then Inl (InvalidTarget host)
               else Inr (0x03 # of_nat (length host) # ascii_bytes host)))
       (\<lambda>addr. Inr ([0x05, 0x01, 0x00] @ addr @ [ucast (drop_bit 8 port), ucast (and port 0xff)]))"

definition drain_bound_addr :: "u8 \<Rightarrow> (transport_error, unit) sio" where
  "drain_bound_addr atyp =
     (if atyp = 0x01 then bind_io (recv (4 + 2)) (\<lambda>_. return_io ())
      else if atyp = 0x03 then bind_io (recv 1) (\<lambda>len. bind_io (recv (unat (len ! 0) + 2)) (\<lambda>_. return_io ()))
      else if atyp = 0x04 then bind_io (recv (16 + 2)) (\<lambda>_. return_io ())
      else fail_io (SocksHandshake (UnknownReplyAtyp atyp)))"

definition socks5_handshake :: "string \<Rightarrow> u16 \<Rightarrow> (transport_error, unit) sio" where
  "socks5_handshake host port =
     bind_io (send [0x05, 0x01, 0x00]) (\<lambda>_. bind_io (recv 2) (\<lambda>greet_reply.
       if greet_reply ! 0 \<noteq> 0x05 then fail_io (SocksHandshake (GreetingReplyVersion (greet_reply ! 0)))
       else if greet_reply ! 1 \<noteq> 0x00 then fail_io (SocksHandshake (MethodRejected (greet_reply ! 1)))
       else (case connect_request host port of
           Inl e \<Rightarrow> fail_io e
         | Inr req \<Rightarrow> bind_io (send req) (\<lambda>_. bind_io (recv 4) (\<lambda>hdr.
             if hdr ! 0 \<noteq> 0x05 then fail_io (SocksHandshake (ReplyVersion (hdr ! 0)))
             else if hdr ! 1 \<noteq> 0x00 then fail_io (SocksHandshake (ConnectFailed (hdr ! 1)))
             else drain_bound_addr (hdr ! 3))))))"

definition relay_parse_host_port :: "string \<Rightarrow> (string \<times> u16) option" where
  "relay_parse_host_port s =
     (case strip_prefix ''['' s of
        Some rest \<Rightarrow> Option.bind (split_once '']:'' rest) (\<lambda>(host, port). map_option (\<lambda>p. (host, of_nat p)) (parse_u16 port))
      | None \<Rightarrow> Option.bind (rsplit_once CHR '':'' s) (\<lambda>(host, port). map_option (\<lambda>p. (host, of_nat p)) (parse_u16 port)))"

text \<open>\<open>connect\<close> is \<open>TcpStream::connect\<close> on the loopback address.\<close>

definition dial_via_socks5 :: "(string \<Rightarrow> socket option) \<Rightarrow> subprocess \<Rightarrow> string \<Rightarrow> transport_error + socket" where
  "dial_via_socks5 connect sp target =
     (if state_from_u8 (sp_state sp) \<noteq> Running then Inl (SubprocessNotRunning (state_from_u8 (sp_state sp)))
      else (case relay_parse_host_port target of
          None \<Rightarrow> Inl (InvalidTarget target)
        | Some (host, port) \<Rightarrow>
          (case connect (sp_socks_addr sp) of
             None \<Rightarrow> Inl SocksConnect
           | Some stream \<Rightarrow>
             (case socks5_handshake host port stream of
                (Inl e, _) \<Rightarrow> Inl e
              | (Inr _, stream) \<Rightarrow> Inr stream))))"

end
