(* ===== verification/Reality_Properties.thy ===== *)
theory Reality_Properties
  imports Reality Tunnel_Properties
begin

text \<open>
  What the stealth transport does: the tunnel's SOCKS5 server reads the requests of its SOCKS5 client, the
  subprocess listens where the validated configuration says (for IPv4; not for IPv6), and when the
  configuration file with the private key is left on disk.
\<close>

section \<open>The request of the client\<close>

definition client_addr :: "string \<Rightarrow> request_addr" where
  "client_addr host = (case parse_ipv4 host of Some b \<Rightarrow> ReqV4 b
     | None \<Rightarrow> (case parse_ipv6 host of Some b \<Rightarrow> ReqV6 b | None \<Rightarrow> ReqDomain (ascii_bytes host)))"

lemma length_segments: "even (length b) \<Longrightarrow> length (segments b) = length b div 2"
  by (induction b rule: segments.induct) auto

lemma read_separator_v4_length: "read_separator c i read_ipv4_addr s = Some (v4, r) \<Longrightarrow> length (segments v4) = 2"
  by (auto simp: read_separator_def bind_eq_Some_conv length_segments dest!: read_ipv4_text split: if_splits)

lemma read_groups_length: "read_groups limit i s = ((gs, v4), r) \<Longrightarrow> length gs \<le> limit - i"
proof (induction limit i s arbitrary: gs v4 r rule: read_groups.induct)
  case (1 limit i s)
  then show ?case
    by (subst (asm) read_groups.simps [of limit i s])
      (fastforce dest: read_separator_v4_length split: if_splits option.splits prod.splits)
qed

lemma length_group_bytes [simp]: "length (group_bytes gs) = 2 * length gs"
  by (induction gs) (simp_all add: group_bytes_def)

lemma parse_ipv6_length: "parse_ipv6 s = Some b \<Longrightarrow> length b = 16"
proof -
  assume "parse_ipv6 s = Some b"
  then have read: "read_ipv6_addr s = Some (b, [])"
    by (auto simp: parse_ipv6_def parse_with_def split: option.splits list.splits)
  obtain front v4 s1 where front: "read_groups 8 0 s = ((front, v4), s1)" by (metis surj_pair)
  have len: "length front \<le> 8" using read_groups_length [OF front] by simp
  show ?thesis
  proof (cases "length front = 8")
    case False
    with read obtain s3 where b: "(case read_groups (8 - (length front + 1)) 0 s3 of ((tl6, _), s4) \<Rightarrow>
        Some (group_bytes (front @ replicate (8 - length front - length tl6) 0 @ tl6), s4)) = Some (b, [])"
      by (auto simp: read_ipv6_addr_def front bind_eq_Some_conv split: if_splits)
    obtain tl6 v s4 where tl6: "read_groups (8 - (length front + 1)) 0 s3 = ((tl6, v), s4)" by (metis surj_pair)
    show ?thesis using b len False read_groups_length [OF tl6] unfolding tl6 by auto
  qed (use read front in \<open>auto simp: read_ipv6_addr_def\<close>)
qed

lemma port_bytes: "[ucast (drop_bit 8 p), ucast (and p 0xff)] = be_bytes 2 (p :: u16)"
proof -
  have ff: "(0xff :: u16) = mask 8" by (simp add: mask_eq_exp_minus_1)
  have "(ucast (and p 0xff) :: u8) = ucast p"
    unfolding ff by (rule bit_word_eqI) (simp add: bit_and_iff bit_ucast_iff bit_mask_iff)
  then show ?thesis by (simp add: be_bytes_2)
qed

lemma connect_request_encoded:
  assumes "connect_request host port = Inr req"
  shows "req = encode_connect 0x00 (client_addr host) port"
  using assms
  by (auto simp: connect_request_def bind_result_def client_addr_def encode_connect_def encode_addr_def
      port_bytes split: option.splits if_splits)

lemma client_addr_text:
  "addr_text (client_addr host) =
     (if parse_ipv4 host = None then (case parse_ipv6 host of Some b \<Rightarrow> show_ipv6 b | None \<Rightarrow> host) else host)"
  by (auto simp: client_addr_def addr_text_def dest: parse_ipv4_text split: option.splits)

lemma client_addr_wf:
  assumes "connect_request host port = Inr req" and "valid_utf8 host"
  shows "wf_addr (client_addr host)"
  using assms by (auto simp: connect_request_def bind_result_def client_addr_def wf_addr_def
      dest: parse_ipv4_text parse_ipv6_length split: option.splits if_splits)

lemma handshake_run:
  assumes "sk_open s" and "sk_in s = [0x05, 0x00] @ hdr @ rest" and "length hdr = 4" and "connect_request host port = Inr req"
  shows "socks5_handshake host port s =
    (let s' = s\<lparr>sk_out := sk_out s @ [0x05, 0x01, 0x00] @ req, sk_in := rest\<rparr>
     in if hdr ! 0 \<noteq> 0x05 then (Inl (SocksHandshake (ReplyVersion (hdr ! 0))), s')
        else if hdr ! 1 \<noteq> 0x00 then (Inl (SocksHandshake (ConnectFailed (hdr ! 1))), s')
        else drain_bound_addr (hdr ! 3) s')"
  using assms by (simp add: socks5_handshake_def bind_io_def write_or_def read_or_def fail_io_def)

text \<open>
  C28. The SOCKS5 server of the tunnel reads the request of the SOCKS5 client of the relay: for a host
  in valid UTF-8 that can be encoded it consumes exactly the bytes the client writes and obtains the
  same port and the host, unchanged for a domain name and an IPv4 address, in its canonical text for
  an IPv6 literal. A whole exchange of the two always ends in failure, as the server has no exit
  stream: the server consumes greeting and request, answers the greeting and sends its failure reply
  (0x03 without an exit, 0x01 otherwise); given these bytes the client reports that code, after four
  of the ten bytes of the reply.
\<close>

theorem client_and_server_agree:
  assumes "valid_utf8 host" and "connect_request host port = Inr req"
  shows "read_connect_request \<lparr>sk_in = req @ rest, sk_out = out, sk_open = c\<rparr> =
      (Inr \<lparr>st_host = if parse_ipv4 host = None then (case parse_ipv6 host of Some b \<Rightarrow> show_ipv6 b | None \<Rightarrow> host) else host,
         st_port = port\<rparr>, \<lparr>sk_in = rest, sk_out = out, sk_open = c\<rparr>)
    \<and> socks5_handshake host port \<lparr>sk_in = [0x05, 0x00] @ final_reply g, sk_out = [], sk_open = True\<rparr> =
      (Inl (SocksHandshake (ConnectFailed (if pick_exit g = None then 0x03 else 0x01))),
       \<lparr>sk_in = drop 4 (final_reply g), sk_out = [0x05, 0x01, 0x00] @ req, sk_open = True\<rparr>)
    \<and> run_session g \<lparr>sk_in = [0x05, 0x01, 0x00] @ req, sk_out = [], sk_open = True\<rparr> =
      (Inl (if pick_exit g = None then NoExitAvailable else ExitStreamNotImplemented),
       \<lparr>sk_in = [], sk_out = [0x05, 0x00] @ final_reply g, sk_open = True\<rparr>)" (is "?read \<and> ?client \<and> ?server")
proof (intro conjI)
  have req: "req = encode_connect 0x00 (client_addr host) port" by (rule connect_request_encoded [OF assms(2)])
  have addr: "wf_addr (client_addr host)" by (rule client_addr_wf [OF assms(2,1)])
  show ?read
    using read_connect_encoded [OF addr, of _ "0x00" port rest] by (simp add: req client_addr_text)
  show ?client
    by (subst handshake_run [where hdr = "take 4 (final_reply g)" and rest = "drop 4 (final_reply g)", OF _ _ _ assms(2)])
      (simp_all add: final_reply_def)
  show ?server
    by (subst session_reply [where methods = "[METHOD_NO_AUTH]" and a = "client_addr host" and rsv = 0 and port = port and rest = "[]"])
      (simp_all add: addr req METHOD_NO_AUTH_def)
qed

theorem client_and_server_agree_witness:
  "valid_utf8 ''10.0.0.7'' \<and> read_connect_request \<lparr>sk_in = [5, 1, 0, 1, 10, 0, 0, 7, 1, 187] @ [9], sk_out = [], sk_open = True\<rparr> =
     (Inr \<lparr>st_host = ''10.0.0.7'', st_port = 443\<rparr>, \<lparr>sk_in = [9], sk_out = [], sk_open = True\<rparr>)"
proof -
  have "valid_utf8 ''10.0.0.7''" by code_simp
  moreover have "connect_request ''10.0.0.7'' 443 = Inr [5, 1, 0, 1, 10, 0, 0, 7, 1, 187]" by code_simp
  moreover have "parse_ipv4 ''10.0.0.7'' = Some [10, 0, 0, 7]" by code_simp
  ultimately show ?thesis
    using client_and_server_agree [of "''10.0.0.7''" 443 "[5, 1, 0, 1, 10, 0, 0, 7, 1, 187]" "[9]" "[]" True] by simp
qed

section \<open>The handshake\<close>

definition wf_bound :: "request_addr \<Rightarrow> bool" where
  "wf_bound a = (case a of ReqV4 b \<Rightarrow> length b = 4 | ReqV6 b \<Rightarrow> length b = 16 | ReqDomain b \<Rightarrow> length b < 256)"

lemma split_last2: "length x = n + 2 \<Longrightarrow> \<exists>b p. x = b @ p \<and> length b = n \<and> length p = 2"
  by (intro exI [of _ "take n x"] exI [of _ "drop n x"]) simp

lemma drain_iff:
  "drain_bound_addr atyp s = (Inr (), s') \<longleftrightarrow>
     (\<exists>a p rest. wf_bound a \<and> length p = 2 \<and> atyp # sk_in s = encode_addr a @ p @ rest \<and> s' = s\<lparr>sk_in := rest\<rparr>)" (is "?l \<longleftrightarrow> ?r")
proof
  assume ?l
  then consider x rest where "atyp = 0x01" "length x = 4 + 2" "sk_in s = x @ rest" "s' = s\<lparr>sk_in := rest\<rparr>"
    | n x rest where "atyp = 0x03" "length x = unat (n :: u8) + 2" "sk_in s = n # x @ rest" "s' = s\<lparr>sk_in := rest\<rparr>"
    | x rest where "atyp = 0x04" "length x = 16 + 2" "sk_in s = x @ rest" "s' = s\<lparr>sk_in := rest\<rparr>"
    by (auto simp: drain_bound_addr_def io_iff list1_iff simp del: One_nat_def split: if_splits)
  then show ?r
  proof cases
    case (1 x rest)
    then obtain b p where "x = b @ p" "length b = 4" "length p = 2" by (metis split_last2)
    with 1 show ?thesis by (intro exI [of _ "ReqV4 b"] exI [of _ p] exI [of _ rest]) (simp add: wf_bound_def encode_addr_def)
  next
    case (2 n x rest)
    then obtain b p where "x = b @ p" "length b = unat n" "length p = 2" by (metis split_last2)
    with 2 show ?thesis
      by (intro exI [of _ "ReqDomain b"] exI [of _ p] exI [of _ rest]) (auto simp: wf_bound_def encode_addr_def length_unat_byte)
  next
    case (3 x rest)
    then obtain b p where "x = b @ p" "length b = 16" "length p = 2" by (metis split_last2)
    with 3 show ?thesis by (intro exI [of _ "ReqV6 b"] exI [of _ p] exI [of _ rest]) (simp add: wf_bound_def encode_addr_def)
  qed
next
  assume ?r
  then obtain a p rest where a: "wf_bound a" "length p = 2" "atyp # sk_in s = encode_addr a @ p @ rest" "s' = s\<lparr>sk_in := rest\<rparr>"
    by blast
  then show ?l
    by (cases a) (auto simp: drain_bound_addr_def bind_io_def read_or_def return_io_def wf_bound_def encode_addr_def unat_of_nat)
qed

text \<open>
  The handshake with the subprocess succeeds exactly when the target can be encoded and the peer
  chooses no authentication and reports success with a well-formed bound address of any of the three
  types. It then has written the greeting and the encoded CONNECT request, and has read nothing beyond
  the reply, so the bytes that follow belong to the tunnelled stream.
\<close>

theorem handshake_exact:
  "socks5_handshake host port s = (Inr (), s') \<longleftrightarrow>
     (\<exists>req rsv a p rest. connect_request host port = Inr req \<and> sk_open s \<and> wf_bound a \<and> length p = 2
        \<and> sk_in s = [0x05, 0x00, 0x05, 0x00, rsv] @ encode_addr a @ p @ rest
        \<and> s' = s\<lparr>sk_out := sk_out s @ [0x05, 0x01, 0x00] @ req, sk_in := rest\<rparr>)" (is "?l \<longleftrightarrow> ?r")
proof
  assume ?l
  then obtain req rsv atyp r where h: "connect_request host port = Inr req" "sk_open s"
      "sk_in s = [0x05, 0x00, 0x05, 0x00, rsv, atyp] @ r"
      "drain_bound_addr atyp (s\<lparr>sk_out := sk_out s @ [0x05, 0x01, 0x00] @ req, sk_in := r\<rparr>) = (Inr (), s')"
    by (auto simp: socks5_handshake_def io_iff list2_iff list4_iff split: if_splits sum.splits)
  then obtain a p rest where "wf_bound a" "length p = 2" "atyp # r = encode_addr a @ p @ rest"
      "s' = s\<lparr>sk_out := sk_out s @ [0x05, 0x01, 0x00] @ req, sk_in := rest\<rparr>"
    by (auto simp: drain_iff)
  with h show ?r
    by (intro exI [of _ req] exI [of _ rsv] exI [of _ a] exI [of _ p] exI [of _ rest]) simp
next
  assume ?r
  then obtain req rsv a p rest where h: "connect_request host port = Inr req" "sk_open s" "wf_bound a" "length p = 2"
      "sk_in s = [0x05, 0x00, 0x05, 0x00, rsv] @ encode_addr a @ p @ rest"
      "s' = s\<lparr>sk_out := sk_out s @ [0x05, 0x01, 0x00] @ req, sk_in := rest\<rparr>" by blast
  obtain atyp more where more: "encode_addr a @ p @ rest = atyp # more" by (cases a) (simp_all add: encode_addr_def)
  have "drain_bound_addr atyp (s\<lparr>sk_out := sk_out s @ [0x05, 0x01, 0x00] @ req, sk_in := more\<rparr>) = (Inr (), s')"
    unfolding drain_iff using h more by (intro exI [of _ a] exI [of _ p] exI [of _ rest]) simp
  then show ?l
    using h more by (subst handshake_run [where hdr = "[0x05, 0x00, rsv, atyp]" and rest = more]) simp_all
qed

section \<open>Where the subprocess listens\<close>

lemma split_host_v4: "CHR '':'' \<notin> set h \<Longrightarrow> split_host (h @ '':'' @ ds) = h"
  by (simp add: split_host_def split_on_append_sep)

lemma split_port_v4:
  "CHR '':'' \<notin> set h \<Longrightarrow> CHR '':'' \<notin> set ds \<Longrightarrow> parse_u16 ds = Some p \<Longrightarrow> split_port d (h @ '':'' @ ds) = p"
  by (simp add: split_port_def split_on_append_sep split_on_none)

lemma split_host_bracket: "\<exists>r'. split_host (CHR ''['' # r) = CHR ''['' # r'"
  by (auto simp: split_host_def split: list.splits)

lemma bracket_no_number: "read_number r m z bound (CHR ''['' # s) = None"
  by (simp add: read_number_def radix_digit_def is_digit_def)

lemma bracket_no_address: "parse_ipv4 (CHR ''['' # r) = None \<and> parse_ipv6 (CHR ''['' # r) = None"
proof -
  have v4: "read_ipv4_addr (CHR ''['' # r) = None"
    by (simp add: read_ipv4_addr_def numeral_eq_Suc read_separator_def bracket_no_number [simplified])
  have "read_groups 8 0 (CHR ''['' # r) = (([], False), CHR ''['' # r)"
    by (subst read_groups.simps) (simp add: read_separator_def v4 bracket_no_number)
  then have "read_ipv6_addr (CHR ''['' # r) = None" by (simp add: read_ipv6_addr_def read_given_char_def)
  with v4 show ?thesis by (simp add: parse_ipv4_def parse_ipv6_def parse_with_def)
qed

lemma parse_unsigned_0: "0 < bound \<Longrightarrow> parse_unsigned bound ''0'' = Some 0"
  by (simp add: parse_unsigned_def is_digit_def decimal_def)

text \<open>The address and the port of the only inbound of the generated configuration.\<close>

lemma inbound_listen:
  "walk (build_xray_config cfg) [''inbounds'', ''0'', ''listen''] = Some (JString (split_host (rc_local_listen cfg)))
   \<and> walk (build_xray_config cfg) [''inbounds'', ''0'', ''port''] = Some (JNumber (split_port 18421 (rc_local_listen cfg)))"
  by (simp add: build_xray_config_def Let_def walk_seg_def json_get_def parse_unsigned_0 split: reality_role.splits)

text \<open>
  C31. A validated configuration makes the subprocess listen on loopback, at the address and the port the
  relay connects to, when the address is an IPv4 one. A validated IPv6 address is cut at its first
  colon: what the subprocess is given is not an address.
\<close>

theorem subprocess_listens_on_validated_address:
  assumes "validate cfg = Inr ()"
  shows "\<exists>ip port. parse_socket_addr (rc_local_listen cfg) = Some (ip, port) \<and> is_loopback ip
    \<and> (case ip of
         V4 b \<Rightarrow> walk (build_xray_config cfg) [''inbounds'', ''0'', ''listen''] = Some (JString (show_ipv4 b)) \<and> b ! 0 = 127
           \<and> walk (build_xray_config cfg) [''inbounds'', ''0'', ''port''] = Some (JNumber (unat port))
       | V6 b \<Rightarrow> \<exists>h. walk (build_xray_config cfg) [''inbounds'', ''0'', ''listen''] = Some (JString h)
           \<and> parse_ipv4 h = None \<and> parse_ipv6 h = None)"
proof -
  obtain ip port where addr: "parse_socket_addr (rc_local_listen cfg) = Some (ip, port)" "is_loopback ip"
    using assms by (auto simp: validate_def Let_def split: if_splits option.splits)
  show ?thesis
  proof (cases ip)
    case (V4 b)
    then obtain ds where ds: "rc_local_listen cfg = show_ipv4 b @ '':'' @ ds" "parse_u16 ds = Some (unat port)" "CHR '':'' \<notin> set ds"
      using parse_socket_addr_v4 addr(1) by metis
    then show ?thesis
      using addr V4 show_ipv4_no_colon [of b] inbound_listen [of cfg] unfolding ds(1) split_host_v4 [OF show_ipv4_no_colon]
      by (auto simp: is_loopback_def split_port_v4 [OF show_ipv4_no_colon, simplified])
  next
    case (V6 b)
    then obtain r where "rc_local_listen cfg = CHR ''['' # r" using parse_socket_addr_v6 addr(1) by metis
    then obtain r' where "split_host (rc_local_listen cfg) = CHR ''['' # r'" using split_host_bracket by metis
    then show ?thesis using addr V6 inbound_listen [of cfg] bracket_no_address [of r'] by auto
  qed
qed

definition demo_reality :: reality_config where
  "demo_reality = reality_config_default\<lparr>rc_private_key_b64 := replicate 43 CHR ''A'' @ ''='', rc_remote := Some ''203.0.113.1:443''\<rparr>"

lemmas number_reader_defs = read_separator_def read_number_def read_given_char_def radix_digit_def is_digit_def
  number_of_def digit_val_def read_ipv4_addr_def read_port_def

lemma four_octets: "read_octets 4 i = read_octets (Suc (Suc (Suc (Suc 0)))) i"
  by (simp add: numeral_eq_Suc)

lemma demo_listen_v4: "parse_socket_addr ''127.0.0.1:18421'' = Some (V4 [127, 0, 0, 1], 18421)"
  by (simp add: parse_socket_addr_def parse_with_def read_socket_addr_v4_def number_reader_defs four_octets)

lemma demo_listen_v6: "parse_socket_addr ''[::1]:9000'' = Some (V6 (replicate 15 0 @ [1]), 9000)"
proof -
  have "read_groups 8 0 ''::1]:9000'' = (([], False), ''::1]:9000'')"
    by (subst read_groups.simps) (simp add: number_reader_defs four_octets)
  moreover have "read_groups 7 (Suc 0) '']:9000'' = (([], False), '']:9000'')"
    by (subst read_groups.simps) (simp add: number_reader_defs four_octets)
  then have "read_groups 7 0 ''1]:9000'' = (([1], False), '']:9000'')"
    by (subst read_groups.simps) (simp add: number_reader_defs four_octets)
  moreover have "group_bytes (replicate 7 0 @ [1]) = replicate 15 0 @ [1]" by code_simp
  ultimately have "read_ipv6_addr ''::1]:9000'' = Some (replicate 15 0 @ [1], '']:9000'')"
    by (simp add: read_ipv6_addr_def read_given_char_def)
  then show ?thesis
    by (simp add: parse_socket_addr_def parse_with_def read_socket_addr_v4_def read_socket_addr_v6_def read_scope_id_def
        number_reader_defs four_octets)
qed

lemma demo_reality_valid: "validate demo_reality = Inr () \<and> validate (demo_reality\<lparr>rc_local_listen := ''[::1]:9000''\<rparr>) = Inr ()"
proof -
  have "trim ''www.cloudflare.com'' = ''www.cloudflare.com''" by code_simp
  moreover have "trim (replicate 43 CHR ''A'' @ ''='') = replicate 43 CHR ''A'' @ ''=''" by code_simp
  moreover have "list_all key_char (replicate 43 CHR ''A'' @ ''='')" by code_simp
  ultimately show ?thesis
    by (simp add: validate_def demo_reality_def reality_config_default_def fallback_default_def Let_def demo_listen_v4
        demo_listen_v6 is_loopback_def)
qed

theorem subprocess_listens_on_validated_address_witness:
  "validate demo_reality = Inr () \<and> (\<exists>ip port. parse_socket_addr ''127.0.0.1:18421'' = Some (ip, port) \<and> is_loopback ip)"
  using subprocess_listens_on_validated_address [OF conjunct1 [OF demo_reality_valid]] demo_reality_valid
  by (auto simp: demo_reality_def reality_config_default_def)

section \<open>The life of the configuration file\<close>

lemma await_started_error: "await_started es = Inl e \<Longrightarrow> e = StartTimeout \<or> e = EarlyExit"
  by (induction es rule: await_started.induct) (auto split: if_splits)

lemma private_key_inbound:
  "rc_role cfg = Server \<Longrightarrow> walk (build_xray_config cfg) [''inbounds'', ''0'', ''streamSettings'', ''realitySettings'', ''privateKey'']
     = Some (JString (rc_private_key_b64 cfg))"
  by (simp add: build_xray_config_def Let_def walk_seg_def json_get_def parse_unsigned_0)

text \<open>
  C32. Where the configuration file, which holds the private key in the server role, is left. Nothing
  but this file is touched. A successful start leaves it complete, and \<open>stop\<close> takes it away if one of
  its attempts to remove it succeeds (two, or one when waiting for the child fails); if all fail it
  stays, and \<open>stop\<close> reports nothing of it. A start that fails because there is no binary, or because
  the child exits or stays silent, takes the file away if the one attempt succeeds, and otherwise
  leaves it, equally unreported. Two failures always leave it: when the binary cannot be launched
  the whole file, and when writing or flushing it fails what was written of it. An invalid
  configuration, and a file that cannot be created, leave the disk as it was.
\<close>

theorem config_file_lifecycle:
  fixes os cfg files
  defines "path \<equiv> temp_config_path os" and "text \<equiv> os_pretty os (build_xray_config cfg)"
  defines "left \<equiv> files(path \<mapsto> text)"
  shows "(case spawn os cfg files of
      (Inr sp, files') \<Rightarrow> validate cfg = Inr () \<and> files path = None \<and> files' = left \<and> sp_config_path sp = path
        \<and> sp_socks_addr sp = rc_local_listen cfg \<and> state_from_u8 (sp_state sp) = Running
        \<and> stop os sp WaitFailed files' = (Inl Shutdown, if os_remove os 0 path then files else left)
        \<and> stop os sp Exited files' = (Inr (), if os_remove os 0 path \<or> os_remove os 1 path then files else left)
        \<and> stop os sp IgnoredSigterm files' = stop os sp Exited files'
    | (Inl (ConfigInvalid e), files') \<Rightarrow> validate cfg = Inl e \<and> files' = files
    | (Inl TempFile, files') \<Rightarrow>
        (files path \<noteq> None \<or> \<not> os_create os path) \<and> files' = files
        \<or> (\<exists>n. os_write_all os path text = Some n \<and> files path = None \<and> files' = files(path \<mapsto> take n text))
        \<or> \<not> os_flush os path \<and> files path = None \<and> files' = left
    | (Inl Spawn, files') \<Rightarrow> files path = None \<and> files' = left
    | (Inl Shutdown, files') \<Rightarrow> False
    | (Inl _, files') \<Rightarrow> files path = None \<and> files' = (if os_remove os 0 path then files else left))
    \<and> (rc_role cfg = Server \<longrightarrow> walk (build_xray_config cfg)
         [''inbounds'', ''0'', ''streamSettings'', ''realitySettings'', ''privateKey''] = Some (JString (rc_private_key_b64 cfg)))"
proof (intro conjI impI private_key_inbound)
  show "case spawn os cfg files of
      (Inr sp, files') \<Rightarrow> validate cfg = Inr () \<and> files path = None \<and> files' = left \<and> sp_config_path sp = path
        \<and> sp_socks_addr sp = rc_local_listen cfg \<and> state_from_u8 (sp_state sp) = Running
        \<and> stop os sp WaitFailed files' = (Inl Shutdown, if os_remove os 0 path then files else left)
        \<and> stop os sp Exited files' = (Inr (), if os_remove os 0 path \<or> os_remove os 1 path then files else left)
        \<and> stop os sp IgnoredSigterm files' = stop os sp Exited files'
    | (Inl (ConfigInvalid e), files') \<Rightarrow> validate cfg = Inl e \<and> files' = files
    | (Inl TempFile, files') \<Rightarrow>
        (files path \<noteq> None \<or> \<not> os_create os path) \<and> files' = files
        \<or> (\<exists>n. os_write_all os path text = Some n \<and> files path = None \<and> files' = files(path \<mapsto> take n text))
        \<or> \<not> os_flush os path \<and> files path = None \<and> files' = left
    | (Inl Spawn, files') \<Rightarrow> files path = None \<and> files' = left
    | (Inl Shutdown, files') \<Rightarrow> False
    | (Inl _, files') \<Rightarrow> files path = None \<and> files' = (if os_remove os 0 path then files else left)"
    by (auto simp: path_def text_def left_def spawn_def write_temp_config_def remove_ignored_def subprocess_drop_def stop_def
        Let_def state_from_u8_def state_to_u8_def domIff fun_upd_idem dest: await_started_error
        split: sum.splits option.splits if_splits subprocess_error.splits)
qed

definition demo_os :: "string \<Rightarrow> nat option \<Rightarrow> os" where
  "demo_os banner broken = \<lparr>os_temp_dir = ''/tmp'', os_process_id = 7, os_nanos = 5, os_pretty = (\<lambda>_. ''key''), os_create = (\<lambda>_. True),
     os_write_all = (\<lambda>_ _. broken), os_flush = (\<lambda>_. True), os_remove = (\<lambda>_ _. True),
     os_path = Some [''/usr/bin''], os_is_file = (\<lambda>_. True), os_run = (\<lambda>_ _. if banner = [] then None else Some [Line banner])\<rparr>"

lemma demo_temp_path: "temp_config_path (demo_os b n) = ''/tmp/parseh-relay-reality-7-5.json''"
  by (simp add: temp_config_path_def demo_os_def show_base.simps digit_def)

text \<open>The binary cannot be launched; the disk is full after two characters; a start that succeeds and a stop.\<close>

theorem config_file_lifecycle_witness:
  "spawn (demo_os [] None) demo_reality Map.empty = (Inl Spawn, [''/tmp/parseh-relay-reality-7-5.json'' \<mapsto> ''key''])
   \<and> spawn (demo_os ''started'' (Some 2)) demo_reality Map.empty = (Inl TempFile, [''/tmp/parseh-relay-reality-7-5.json'' \<mapsto> ''ke''])
   \<and> (\<exists>sp. spawn (demo_os ''started'' None) demo_reality Map.empty = (Inr sp, [''/tmp/parseh-relay-reality-7-5.json'' \<mapsto> ''key''])
        \<and> stop (demo_os ''started'' None) sp Exited [''/tmp/parseh-relay-reality-7-5.json'' \<mapsto> ''key''] = (Inr (), Map.empty))"
proof -
  have valid: "validate demo_reality = Inr ()" using demo_reality_valid by blast
  have run: "os_run (demo_os b n) bin p = (if b = [] then None else Some [Line b])" for b n bin p by (simp add: demo_os_def)
  have bin: "which_or_path (demo_os b n) ''xray'' = Some ''/usr/bin/xray''" for b n by (simp add: which_or_path_def demo_os_def)
  have started: "contains_str ''started'' ''started''" by code_simp
  have stored: "write_temp_config (demo_os b n) c Map.empty = (case n of None \<Rightarrow> (Some ''/tmp/parseh-relay-reality-7-5.json'',
      [''/tmp/parseh-relay-reality-7-5.json'' \<mapsto> ''key'']) | Some k \<Rightarrow> (None, [''/tmp/parseh-relay-reality-7-5.json'' \<mapsto> take k ''key'']))" for b n c
    unfolding write_temp_config_def demo_temp_path by (simp add: demo_os_def Let_def split: option.split)
  have fails: "fst (spawn (demo_os [] None) demo_reality Map.empty) = Inl Spawn"
      "fst (spawn (demo_os ''started'' (Some 2)) demo_reality Map.empty) = Inl TempFile"
    by (simp_all add: spawn_def valid stored bin run)
  obtain sp where sp: "fst (spawn (demo_os ''started'' None) demo_reality Map.empty) = Inr sp"
    by (simp add: spawn_def valid stored bin run started)
  note one = config_file_lifecycle [where os = "demo_os [] None" and cfg = demo_reality and files = Map.empty, unfolded demo_temp_path]
    and two = config_file_lifecycle [where os = "demo_os ''started'' (Some 2)" and cfg = demo_reality and files = Map.empty, unfolded demo_temp_path]
    and three = config_file_lifecycle [where os = "demo_os ''started'' None" and cfg = demo_reality and files = Map.empty, unfolded demo_temp_path]
  have "spawn (demo_os [] None) demo_reality Map.empty = (Inl Spawn, [''/tmp/parseh-relay-reality-7-5.json'' \<mapsto> ''key''])"
    using one fails(1) by (cases "spawn (demo_os [] None) demo_reality Map.empty") (simp add: demo_os_def)
  moreover have "spawn (demo_os ''started'' (Some 2)) demo_reality Map.empty =
      (Inl TempFile, [''/tmp/parseh-relay-reality-7-5.json'' \<mapsto> ''ke''])"
    using two fails(2) by (cases "spawn (demo_os ''started'' (Some 2)) demo_reality Map.empty") (simp add: demo_os_def)
  moreover have "spawn (demo_os ''started'' None) demo_reality Map.empty = (Inr sp, [''/tmp/parseh-relay-reality-7-5.json'' \<mapsto> ''key''])
      \<and> stop (demo_os ''started'' None) sp Exited [''/tmp/parseh-relay-reality-7-5.json'' \<mapsto> ''key''] = (Inr (), Map.empty)"
    using three sp by (cases "spawn (demo_os ''started'' None) demo_reality Map.empty") (simp add: demo_os_def)
  ultimately show ?thesis by blast
qed

end
