(* ===== verification/Store_Open.thy ===== *)
theory Store_Open
  imports Store Rust_Str
begin

text \<open>
  Opening the shared-state database (\<open>server/parseh-shared-state/src/\<close>): deriving the key (\<open>cipher.rs\<close>),
  \<open>SharedState::open\<close> (\<open>store.rs\<close>) and the forward-only migrations (\<open>migrations.rs\<close>). A database file is the key
  it was created with, the names of its tables, the rows of \<open>schema_version\<close>, whether the finalisation
  index exists, and the contents of the tables. Argon2id is a parameter, and so is whether the linked
  SQLite can read a file created with one key when given another (\<open>readable\<close>): always in the plain build,
  with the same key only under SQLCipher.
\<close>

section \<open>Keys\<close>

definition IDENTITY_KEY_DOMAIN :: bytes where
  "IDENTITY_KEY_DOMAIN = ascii_bytes ''parseh-shared-state-v1''"

datatype key_source = Passphrase string bytes | IdentityFile bytes | RawKey bytes

datatype key_error = SaltTooShort nat | IdentityEmpty | Argon2Failed

record argon2_params =
  a2_memory_kib :: u32
  a2_iterations :: u32
  a2_parallelism :: u32
  a2_output_len :: nat

definition argon2_params_used :: argon2_params where
  "argon2_params_used = \<lparr>a2_memory_kib = 256 * 1024, a2_iterations = 3, a2_parallelism = 2, a2_output_len = 32\<rparr>"

type_synonym argon2 = "argon2_params \<Rightarrow> bytes \<Rightarrow> bytes \<Rightarrow> bytes option"

definition from_source :: "prims \<Rightarrow> argon2 \<Rightarrow> key_source \<Rightarrow> key_error + bytes" where
  "from_source P argon source =
     (case source of
        Passphrase phrase salt \<Rightarrow>
          if length salt < 8 then Inl (SaltTooShort (length salt))
          else (case argon argon2_params_used (ascii_bytes phrase) salt of None \<Rightarrow> Inl Argon2Failed | Some key \<Rightarrow> Inr key)
      | IdentityFile identity_bytes \<Rightarrow>
          if identity_bytes = [] then Inl IdentityEmpty
          else Inr (sha256 P (IDENTITY_KEY_DOMAIN @ identity_bytes))
      | RawKey b \<Rightarrow> Inr b)"

definition to_sqlcipher_hex :: "bytes \<Rightarrow> string" where
  "to_sqlcipher_hex key = hex_lower key"

text \<open>The text between the quotes is \<open>x'...'\<close>; a double quote is the character 0x22, an apostrophe 0x27.\<close>

definition key_pragma :: "bytes \<Rightarrow> string" where
  "key_pragma key = ''PRAGMA key = '' @ [CHR 0x22] @ ''x'' @ [CHR 0x27] @ to_sqlcipher_hex key @ [CHR 0x27, CHR 0x22] @ '';''"

section \<open>Migrations\<close>

record database =
  db_key :: bytes
  db_tables :: "string set"
  db_versions :: "(int \<times> int) list"
  db_finalised_index :: bool
  db_store :: store

definition SCHEMA_VERSION :: u32 where
  "SCHEMA_VERSION = 1"

definition schema_v1_tables :: "string set" where
  "schema_v1_tables = {''tasks'', ''results'', ''verifications'', ''outcomes'', ''reputation_log'', ''governance_rules'',
     ''schema_version''}"

text \<open>The indices of \<open>SCHEMA_V1\<close> other than the one on \<open>finalised_at\<close> have no effect on results and are left out.\<close>

definition apply_schema_v1 :: "database \<Rightarrow> database" where
  "apply_schema_v1 db = db\<lparr>db_tables := db_tables db \<union> schema_v1_tables, db_finalised_index := True\<rparr>"

definition current_version :: "database \<Rightarrow> u32" where
  "current_version db = word_of_int (foldr max (map fst (db_versions db)) 0)"

datatype migration_error = NoSuchTable string

definition run_migrations :: "int \<Rightarrow> database \<Rightarrow> migration_error + u32 \<times> database" where
  "run_migrations now db =
     (let db = db\<lparr>db_tables := insert ''schema_version'' (db_tables db)\<rparr>;
          db = (if current_version db < 1
            then (apply_schema_v1 db)\<lparr>db_versions :=
              if 1 \<in> fst ` set (db_versions db) then db_versions db else db_versions db @ [(1, max 0 now)]\<rparr>
            else db)
      in if ''outcomes'' \<notin> db_tables db then Inl (NoSuchTable ''outcomes'')
         else Inr (SCHEMA_VERSION, db\<lparr>db_finalised_index := True\<rparr>))"

section \<open>Opening\<close>

datatype open_error = NotFound | WrongKey | Migration migration_error | SqliteOpen

record open_options =
  oo_path :: string
  oo_key :: bytes
  oo_create_if_missing :: bool

definition open_options_create :: "string \<Rightarrow> bytes \<Rightarrow> open_options" where
  "open_options_create path key = \<lparr>oo_path = path, oo_key = key, oo_create_if_missing = True\<rparr>"

definition new_database :: "bytes \<Rightarrow> database" where
  "new_database key = \<lparr>db_key = key, db_tables = {}, db_versions = [], db_finalised_index = False, db_store = empty_store\<rparr>"

text \<open>The databases on disk by path. A failed migration rolls back; a file that was created stays.\<close>

type_synonym disk = "string \<Rightarrow> database option"

definition open_db :: "(bytes \<Rightarrow> bytes \<Rightarrow> bool) \<Rightarrow> int \<Rightarrow> open_options \<Rightarrow> disk \<Rightarrow> (open_error + database) \<times> disk" where
  "open_db readable now opts d =
     (if d (oo_path opts) = None \<and> \<not> oo_create_if_missing opts then (Inl NotFound, d)
      else let existed = d (oo_path opts) \<noteq> None; db = (case d (oo_path opts) of None \<Rightarrow> new_database (oo_key opts) | Some db \<Rightarrow> db);
               d = d(oo_path opts \<mapsto> db)
           in if \<not> readable (db_key db) (oo_key opts) then (Inl (if existed then WrongKey else SqliteOpen), d)
              else (case run_migrations now db of
                  Inl e \<Rightarrow> (Inl (Migration e), d)
                | Inr (_, db) \<Rightarrow> (Inr db, d(oo_path opts \<mapsto> db))))"

end
