(* ===== verification/Node_Files.thy ===== *)
theory Node_Files
  imports Store_Open
begin

text \<open>
  What the binaries keep on disk: the identity file of the miner, the relay and the CLI (three copies of
  \<open>load_or_generate\<close>), the miner's default configuration (\<open>server/miner/src/config.rs\<close>) and the bring-up of its
  database (\<open>cmd_init\<close> and its helpers in \<open>server/miner/src/main.rs\<close>). The host is its files and its databases;
  directories are created on demand and writes succeed. Random bytes and the clock are arguments.
\<close>

section \<open>The host\<close>

record host =
  ho_files :: "string \<Rightarrow> bytes option"
  ho_dbs :: disk

text \<open>What the binaries are linked against; \<open>mc_peer_of\<close> is the peer id of the key pair of a secret.\<close>

record machine =
  mc_prims :: prims
  mc_argon2 :: argon2
  mc_readable :: "bytes \<Rightarrow> bytes \<Rightarrow> bool"
  mc_peer_of :: "bytes \<Rightarrow> peer_id"
  mc_home_dir :: "string option"
  mc_config_dir :: "string option"

definition path_join :: "string \<Rightarrow> string \<Rightarrow> string" where
  "path_join dir name = dir @ ''/'' @ name"

section \<open>Identity files\<close>

datatype identity_error = BadIdentityLength nat | NoParentDirectory

text \<open>\<open>write_secret_file\<close> creates a new file; it is only called when there is none.\<close>

definition write_secret_file :: "string \<Rightarrow> bytes \<Rightarrow> (string \<Rightarrow> bytes option) \<Rightarrow> (string \<Rightarrow> bytes option)" where
  "write_secret_file path b files = files(path \<mapsto> b)"

definition load_or_generate_at ::
    "bytes \<Rightarrow> string \<Rightarrow> (string \<Rightarrow> bytes option) \<Rightarrow> (identity_error + bytes \<times> bool) \<times> (string \<Rightarrow> bytes option)" where
  "load_or_generate_at random path files =
     (case files path of
        Some b \<Rightarrow> if length b \<noteq> 32 then (Inl (BadIdentityLength (length b)), files) else (Inr (b, False), files)
      | None \<Rightarrow> (Inr (random, True), write_secret_file path random files))"

definition MINER_IDENTITY_FILE :: string where
  "MINER_IDENTITY_FILE = ''identity.ed25519''"

definition RELAY_IDENTITY_FILE :: string where
  "RELAY_IDENTITY_FILE = ''relay-identity.ed25519''"

definition miner_load_or_generate ::
    "bytes \<Rightarrow> string \<Rightarrow> (string \<Rightarrow> bytes option) \<Rightarrow> (identity_error + bytes \<times> bool) \<times> (string \<Rightarrow> bytes option)" where
  "miner_load_or_generate random config_dir = load_or_generate_at random (path_join config_dir MINER_IDENTITY_FILE)"

definition relay_load_or_generate ::
    "bytes \<Rightarrow> string \<Rightarrow> (string \<Rightarrow> bytes option) \<Rightarrow> (identity_error + bytes \<times> bool) \<times> (string \<Rightarrow> bytes option)" where
  "relay_load_or_generate random config_dir = load_or_generate_at random (path_join config_dir RELAY_IDENTITY_FILE)"

text \<open>\<open>Path::parent\<close> has no answer for the empty path and for the root.\<close>

definition has_parent :: "string \<Rightarrow> bool" where
  "has_parent path \<longleftrightarrow> (\<exists>c \<in> set path. c \<noteq> CHR ''/'')"

definition cli_load_or_generate ::
    "bytes \<Rightarrow> string \<Rightarrow> (string \<Rightarrow> bytes option) \<Rightarrow> (identity_error + bytes \<times> bool) \<times> (string \<Rightarrow> bytes option)" where
  "cli_load_or_generate random path files =
     (if files path = None \<and> \<not> has_parent path then (Inl NoParentDirectory, files)
      else load_or_generate_at random path files)"

section \<open>Bring-up of the miner\<close>

record miner_config =
  cf_moniker :: string
  cf_relay :: bool
  cf_inference :: bool
  cf_gpu_memory_mb :: u32
  cf_model_tags :: "string list"
  cf_uplink_mbps :: u32
  cf_bootstrap :: "string list"
  cf_chain_rpc :: string

text \<open>\<open>COMPUTERNAME\<close>, else \<open>HOSTNAME\<close>, else the fallback.\<close>

definition hostname_or :: "string option \<Rightarrow> string option \<Rightarrow> string \<Rightarrow> string" where
  "hostname_or computername hostname fallback =
     (case computername of Some n \<Rightarrow> n | None \<Rightarrow> (case hostname of Some n \<Rightarrow> n | None \<Rightarrow> fallback))"

definition miner_config_default :: "string option \<Rightarrow> string option \<Rightarrow> miner_config" where
  "miner_config_default computername hostname =
     \<lparr>cf_moniker = hostname_or computername hostname ''parseh-miner'', cf_relay = True, cf_inference = False,
      cf_gpu_memory_mb = 0, cf_model_tags = [], cf_uplink_mbps = 0, cf_bootstrap = [],
      cf_chain_rpc = ''https://rpc.parseh.network''\<rparr>"

definition show_bool :: "bool \<Rightarrow> string" where
  "show_bool b = (if b then ''true'' else ''false'')"

definition default_config_text :: "miner_config \<Rightarrow> string" where
  \<open>default_config_text c = concat (map (\<lambda>l. l @ [CHR 0x0A]) [
     ''# PARSEH miner configuration'',
     ''# Edit any value, save the file, and restart the miner.'',
     [],
     ''# Display name. Shown to other peers via the Identify protocol. Not signed.'',
     ''moniker = "'' @ cf_moniker c @ ''"'',
     [],
     ''# PARSEH chain RPC endpoint. Used by the wallet to query balance and submit'',
     ''# txs. Override to a self-hosted node if you don't trust the public endpoint.'',
     ''chain_rpc = "'' @ cf_chain_rpc c @ ''"'',
     [],
     ''# Bootstrap peers (libp2p multiaddrs). Empty list = wait for inbound.'',
     ''bootstrap = ['',
     ''  # "/dns/seed.parseh.network/tcp/8421/p2p/12D3KooW...",'',
     '']'',
     [],
     ''[capabilities]'',
     ''# Will you route encrypted traffic on behalf of users behind a national filter?'',
     ''relay = '' @ show_bool (cf_relay c),
     [],
     ''# Will you serve LLM inference jobs? Requires GPU; capability is auto-'',
     ''# disabled if gpu_memory_mb == 0.'',
     ''inference = '' @ show_bool (cf_inference c),
     [],
     ''# Self-reported VRAM in MB. The bigger this is, the bigger the models you'',
     ''# can serve. The on-chain audit catches lies (redundant execution).'',
     ''gpu_memory_mb = '' @ show_base 10 (unat (cf_gpu_memory_mb c)),
     [],
     ''# Comma-separated model tags you can run, e.g. ["qwen2.5:7b", "llama-3.1:8b"].'',
     ''model_tags = []'',
     [],
     ''# Your uplink in megabits per second. Used by the router to size relay jobs.'',
     ''uplink_mbps = '' @ show_base 10 (unat (cf_uplink_mbps c))])\<close>

datatype bringup_error =
    ConfigExists
  | IdentityFailed identity_error
  | IdentityUnreadable
  | KeyFailed key_error
  | OpenFailed open_error

definition write_default :: "miner_config \<Rightarrow> string \<Rightarrow> (string \<Rightarrow> bytes option) \<Rightarrow> (bringup_error + unit) \<times> (string \<Rightarrow> bytes option)" where
  "write_default dflt path files =
     (if files path \<noteq> None then (Inl ConfigExists, files)
      else (Inr (), files(path \<mapsto> ascii_bytes (default_config_text dflt))))"

definition read_identity_bytes :: "string \<Rightarrow> (string \<Rightarrow> bytes option) \<Rightarrow> bringup_error + bytes" where
  "read_identity_bytes config_dir files =
     (case files (path_join config_dir ''identity.ed25519'') of
        None \<Rightarrow> Inl IdentityUnreadable
      | Some b \<Rightarrow> if length b \<noteq> 32 then Inl (IdentityFailed (BadIdentityLength (length b))) else Inr b)"

definition miner_open_shared_state :: "machine \<Rightarrow> int \<Rightarrow> string \<Rightarrow> bytes \<Rightarrow> disk \<Rightarrow> (bringup_error + database) \<times> disk" where
  "miner_open_shared_state M now path identity_bytes d =
     (case from_source (mc_prims M) (mc_argon2 M) (IdentityFile identity_bytes) of
        Inl e \<Rightarrow> (Inl (KeyFailed e), d)
      | Inr key \<Rightarrow> apfst (map_err OpenFailed) (open_db (mc_readable M) now (open_options_create path key) d))"

definition cmd_init ::
    "machine \<Rightarrow> bytes \<Rightarrow> int \<Rightarrow> miner_config \<Rightarrow> string \<Rightarrow> string \<Rightarrow> host \<Rightarrow> (bringup_error + peer_id \<times> bool) \<times> host" where
  "cmd_init M random now dflt config_dir shared_state_path h =
     (case miner_load_or_generate random config_dir (ho_files h) of
        (Inl e, files) \<Rightarrow> (Inl (IdentityFailed e), h\<lparr>ho_files := files\<rparr>)
      | (Inr (kp, created), files) \<Rightarrow>
        (let cfg_path = path_join config_dir ''miner.toml'';
             (written, files) = (if files cfg_path = None then write_default dflt cfg_path files else (Inr (), files));
             h = h\<lparr>ho_files := files\<rparr>
         in case written of
              Inl e \<Rightarrow> (Inl e, h)
            | Inr _ \<Rightarrow>
              (case read_identity_bytes config_dir files of
                 Inl e \<Rightarrow> (Inl e, h)
               | Inr identity_bytes \<Rightarrow>
                 (case miner_open_shared_state M now shared_state_path identity_bytes (ho_dbs h) of
                    (Inl e, d) \<Rightarrow> (Inl e, h\<lparr>ho_dbs := d\<rparr>)
                  | (Inr _, d) \<Rightarrow> (Inr (mc_peer_of M kp, created), h\<lparr>ho_dbs := d\<rparr>)))))"

end
