(* ===== verification/Cli.thy ===== *)
theory Cli
  imports Node_Files
begin

text \<open>
  The developer CLI (\<open>server/parseh-cli/src/\<close>): paths (\<open>paths.rs\<close>) and the commands that work on the node's own
  files (\<open>commands.rs\<close>): \<open>status\<close>, \<open>whoami\<close>, \<open>peers\<close>, \<open>submit\<close>, \<open>tail\<close> and the argument list of \<open>tunnel\<close>. A command
  returns its report or its error and the files it leaves; printing is the report itself.
\<close>

section \<open>Paths\<close>

datatype cli_error =
    NoHome
  | NoConfigDir
  | CliIdentity identity_error
  | IdentityNotRead
  | CliKey key_error
  | DbMissing
  | DbWrongKey
  | DbOpen open_error
  | DbQuery store_error
  | NoPrompt
  | PromptNotRead

definition default_db_path :: "machine \<Rightarrow> cli_error + string" where
  "default_db_path M = (case mc_home_dir M of None \<Rightarrow> Inl NoHome
     | Some home \<Rightarrow> Inr (path_join (path_join home ''.parseh'') ''shared-state.db''))"

definition default_identity_path :: "machine \<Rightarrow> cli_error + string" where
  "default_identity_path M = (case mc_config_dir M of None \<Rightarrow> Inl NoConfigDir
     | Some cfg \<Rightarrow> Inr (path_join (path_join cfg ''parseh'') ''identity.ed25519''))"

definition resolve_db_path :: "machine \<Rightarrow> string option \<Rightarrow> cli_error + string" where
  "resolve_db_path M p = (case p of Some p \<Rightarrow> Inr p | None \<Rightarrow> default_db_path M)"

definition resolve_identity_path :: "machine \<Rightarrow> string option \<Rightarrow> cli_error + string" where
  "resolve_identity_path M p = (case p of Some p \<Rightarrow> Inr p | None \<Rightarrow> default_identity_path M)"

section \<open>Opening the store\<close>

definition build_identity_key :: "machine \<Rightarrow> (string \<Rightarrow> bytes option) \<Rightarrow> string \<Rightarrow> cli_error + bytes" where
  "build_identity_key M files identity_path =
     (case files identity_path of
        None \<Rightarrow> Inl IdentityNotRead
      | Some b \<Rightarrow> map_err CliKey (from_source (mc_prims M) (mc_argon2 M) (IdentityFile b)))"

definition cli_open_shared_state ::
    "machine \<Rightarrow> int \<Rightarrow> string \<Rightarrow> string \<Rightarrow> host \<Rightarrow> (cli_error + database) \<times> host" where
  "cli_open_shared_state M now db_path identity_path h =
     (case build_identity_key M (ho_files h) identity_path of
        Inl e \<Rightarrow> (Inl e, h)
      | Inr key \<Rightarrow>
        (case open_db (mc_readable M) now
                \<lparr>oo_path = db_path, oo_key = key, oo_create_if_missing = (ho_dbs h db_path \<noteq> None)\<rparr> (ho_dbs h) of
           (Inr db, d) \<Rightarrow> (Inr db, h\<lparr>ho_dbs := d\<rparr>)
         | (Inl NotFound, d) \<Rightarrow> (Inl DbMissing, h\<lparr>ho_dbs := d\<rparr>)
         | (Inl WrongKey, d) \<Rightarrow> (Inl DbWrongKey, h\<lparr>ho_dbs := d\<rparr>)
         | (Inl e, d) \<Rightarrow> (Inl (DbOpen e), h\<lparr>ho_dbs := d\<rparr>)))"

section \<open>Status\<close>

record shared_state_report =
  sr_db_path :: string
  sr_db_exists :: bool
  sr_schema_version :: u32
  sr_tasks_count :: nat
  sr_outcomes_count :: nat
  sr_reputation_log_entries :: nat
  sr_established_peers :: nat

definition length_or_zero :: "'e + 'a list \<Rightarrow> nat" where
  "length_or_zero r = (case r of Inl _ \<Rightarrow> 0 | Inr xs \<Rightarrow> length xs)"

definition snapshot_shared_state :: "prims \<Rightarrow> store \<Rightarrow> string \<Rightarrow> shared_state_report" where
  "snapshot_shared_state P st db_path =
     (let tasks = length_or_zero (recent_tasks P st 0);
          outcomes = length_or_zero (deltas_since P st 0);
          est = length_or_zero (established_peers st 0)
      in \<lparr>sr_db_path = db_path, sr_db_exists = True, sr_schema_version = SCHEMA_VERSION, sr_tasks_count = tasks,
           sr_outcomes_count = outcomes, sr_reputation_log_entries = est, sr_established_peers = est\<rparr>)"

definition empty_report :: "string \<Rightarrow> bool \<Rightarrow> shared_state_report" where
  "empty_report db_path db_exists =
     \<lparr>sr_db_path = db_path, sr_db_exists = db_exists, sr_schema_version = SCHEMA_VERSION, sr_tasks_count = 0,
      sr_outcomes_count = 0, sr_reputation_log_entries = 0, sr_established_peers = 0\<rparr>"

text \<open>The pid file is text; its digits are read after trimming.\<close>

definition detect_miner_running :: "machine \<Rightarrow> (string \<Rightarrow> bytes option) \<Rightarrow> bool \<times> nat option" where
  "detect_miner_running M files =
     (case Option.bind (mc_home_dir M) (\<lambda>home. files (path_join (path_join home ''.parseh'') ''miner.pid'')) of
        None \<Rightarrow> (False, None)
      | Some b \<Rightarrow>
          if valid_utf8 (byte_string b)
          then (case parse_unsigned (2 ^ 32) (trim (byte_string b)) of None \<Rightarrow> (False, None) | Some pid \<Rightarrow> (True, Some pid))
          else (False, None))"

record 'l status_report =
  rp_peer_id :: peer_id
  rp_identity_path :: string
  rp_shared_state :: shared_state_report
  rp_llm_runtime :: "'l option"
  rp_miner_running :: bool
  rp_miner_pid :: "nat option"

definition cmd_status ::
    "machine \<Rightarrow> bytes \<Rightarrow> int \<Rightarrow> 'l option \<Rightarrow> string option \<Rightarrow> string option \<Rightarrow> host \<Rightarrow> (cli_error + 'l status_report) \<times> host" where
  "cmd_status M random now detection identity db h =
     (case resolve_identity_path M identity of Inl e \<Rightarrow> (Inl e, h) | Inr id_path \<Rightarrow>
     (case resolve_db_path M db of Inl e \<Rightarrow> (Inl e, h) | Inr db_path \<Rightarrow>
     (case cli_load_or_generate random id_path (ho_files h) of
        (Inl e, files) \<Rightarrow> (Inl (CliIdentity e), h\<lparr>ho_files := files\<rparr>)
      | (Inr (kp, _), files) \<Rightarrow>
        (let h = h\<lparr>ho_files := files\<rparr>;
             (shared, h) =
               (if ho_dbs h db_path \<noteq> None
                then (case cli_open_shared_state M now db_path id_path h of
                    (Inr s, h) \<Rightarrow> (snapshot_shared_state (mc_prims M) (db_store s) db_path, h)
                  | (Inl _, h) \<Rightarrow> (empty_report db_path True, h))
                else (empty_report db_path False, h));
             (running, pid) = detect_miner_running M (ho_files h)
         in (Inr \<lparr>rp_peer_id = mc_peer_of M kp, rp_identity_path = id_path, rp_shared_state = shared,
                rp_llm_runtime = detection, rp_miner_running = running, rp_miner_pid = pid\<rparr>, h)))))"

section \<open>Whoami and peers\<close>

record whoami =
  wh_peer_id :: peer_id
  wh_identity_path :: string
  wh_identity_created_now :: bool
  wh_reputation :: int

definition reputation_or_zero :: "store \<Rightarrow> peer_id \<Rightarrow> int" where
  "reputation_or_zero st p = (case reputation_of st p of Inl _ \<Rightarrow> 0 | Inr n \<Rightarrow> n)"

definition cmd_whoami ::
    "machine \<Rightarrow> bytes \<Rightarrow> int \<Rightarrow> string option \<Rightarrow> string option \<Rightarrow> host \<Rightarrow> (cli_error + whoami) \<times> host" where
  "cmd_whoami M random now identity db h =
     (case resolve_identity_path M identity of Inl e \<Rightarrow> (Inl e, h) | Inr id_path \<Rightarrow>
     (case resolve_db_path M db of Inl e \<Rightarrow> (Inl e, h) | Inr db_path \<Rightarrow>
     (case cli_load_or_generate random id_path (ho_files h) of
        (Inl e, files) \<Rightarrow> (Inl (CliIdentity e), h\<lparr>ho_files := files\<rparr>)
      | (Inr (kp, created), files) \<Rightarrow>
        (let h = h\<lparr>ho_files := files\<rparr>; peer = mc_peer_of M kp;
             (reputation, h) =
               (if ho_dbs h db_path \<noteq> None
                then (case cli_open_shared_state M now db_path id_path h of
                    (Inr s, h) \<Rightarrow> (reputation_or_zero (db_store s) peer, h)
                  | (Inl _, h) \<Rightarrow> (0, h))
                else (0, h))
         in (Inr \<lparr>wh_peer_id = peer, wh_identity_path = id_path, wh_identity_created_now = created,
                wh_reputation = reputation\<rparr>, h)))))"

definition guess_capabilities_for :: "peer_id \<Rightarrow> string list" where
  "guess_capabilities_for p = []"

record peer_row =
  pw_peer_id :: peer_id
  pw_reputation :: int
  pw_capabilities :: "string list"

text \<open>\<open>lower\<close> is \<open>str::to_lowercase\<close>, whose table is Unicode's.\<close>

definition peer_rows :: "(string \<Rightarrow> string) \<Rightarrow> store \<Rightarrow> string option \<Rightarrow> peer_id list \<Rightarrow> peer_row list" where
  "peer_rows lower st flt peers =
     map (\<lambda>p. \<lparr>pw_peer_id = p, pw_reputation = reputation_or_zero st p, pw_capabilities = guess_capabilities_for p\<rparr>)
       (filter (\<lambda>p. case flt of None \<Rightarrow> True
          | Some f \<Rightarrow> list_ex (\<lambda>c. contains_str (lower c) (lower f)) (guess_capabilities_for p)) peers)"

definition cmd_peers ::
    "machine \<Rightarrow> bytes \<Rightarrow> int \<Rightarrow> (string \<Rightarrow> string) \<Rightarrow> string option \<Rightarrow> string option \<Rightarrow> string option \<Rightarrow> host
       \<Rightarrow> (cli_error + peer_row list) \<times> host" where
  "cmd_peers M random now lower identity db flt h =
     (case resolve_identity_path M identity of Inl e \<Rightarrow> (Inl e, h) | Inr id_path \<Rightarrow>
     (case resolve_db_path M db of Inl e \<Rightarrow> (Inl e, h) | Inr db_path \<Rightarrow>
        if ho_dbs h db_path = None then (Inr [], h)
        else (case cli_load_or_generate random id_path (ho_files h) of
          (Inl e, files) \<Rightarrow> (Inl (CliIdentity e), h\<lparr>ho_files := files\<rparr>)
        | (Inr _, files) \<Rightarrow>
          (case cli_open_shared_state M now db_path id_path (h\<lparr>ho_files := files\<rparr>) of
             (Inl e, h) \<Rightarrow> (Inl e, h)
           | (Inr s, h) \<Rightarrow>
             (case established_peers (db_store s) 0 of
                Inl e \<Rightarrow> (Inl (DbQuery e), h)
              | Inr peers \<Rightarrow> (Inr (peer_rows lower (db_store s) flt peers), h))))))"

section \<open>Submit\<close>

record submit_report =
  su_task_id :: string
  su_spec_cbor_hex :: string
  su_submitter :: peer_id
  su_sensitive :: bool
  su_bytes :: nat

text \<open>
  The prompt comes from the argument or from a file; clap excludes both (\<open>None\<close> of the outer option is
  \<open>unreachable!\<close>). The clock of \<open>new_signed\<close> is \<open>submitted_at\<close>.
\<close>

definition prompt_text :: "(string \<Rightarrow> bytes option) \<Rightarrow> string option \<Rightarrow> string option \<Rightarrow> (cli_error + string) option" where
  "prompt_text files prompt file = (case (prompt, file) of
       (Some p, None) \<Rightarrow> Some (Inr p)
     | (None, Some f) \<Rightarrow> Some (case files f of None \<Rightarrow> Inl PromptNotRead
         | Some b \<Rightarrow> if valid_utf8 (byte_string b) then Inr (byte_string b) else Inl PromptNotRead)
     | (None, None) \<Rightarrow> Some (Inl NoPrompt)
     | (Some _, Some _) \<Rightarrow> None)"

definition submit_spec :: "prims \<Rightarrow> string \<Rightarrow> u64 \<Rightarrow> bool \<Rightarrow> u64 \<Rightarrow> peer_id \<Rightarrow> bytes \<Rightarrow> submit_report" where
  "submit_spec P prompt seed sensitive submitted_at peer signing_key =
     (let (spec, hash) = spec_new_signed_at P JobInference (inference_prompt (trim prompt) seed) SvcInference
            sensitive submitted_at peer signing_key;
          cbor = to_cbor_bytes P (wr_job_spec spec)
      in \<lparr>su_task_id = hex_lower (hash_bytes hash), su_spec_cbor_hex = hex_lower cbor, su_submitter = peer,
           su_sensitive = sensitive, su_bytes = length cbor\<rparr>)"

definition cmd_submit ::
    "machine \<Rightarrow> bytes \<Rightarrow> u64 \<Rightarrow> string option \<Rightarrow> string option \<Rightarrow> string option \<Rightarrow> u64 \<Rightarrow> bool \<Rightarrow> host
       \<Rightarrow> ((cli_error + submit_report) \<times> host) option" where
  "cmd_submit M random submitted_at identity prompt file seed sensitive h =
     Option.bind (prompt_text (ho_files h) prompt file) (\<lambda>text.
       Some (case text of Inl e \<Rightarrow> (Inl e, h) | Inr text \<Rightarrow>
         (case resolve_identity_path M identity of Inl e \<Rightarrow> (Inl e, h) | Inr id_path \<Rightarrow>
         (case cli_load_or_generate random id_path (ho_files h) of
            (Inl e, files) \<Rightarrow> (Inl (CliIdentity e), h\<lparr>ho_files := files\<rparr>)
          | (Inr (kp, _), files) \<Rightarrow>
              (Inr (submit_spec (mc_prims M) text seed sensitive submitted_at (mc_peer_of M kp) kp), h\<lparr>ho_files := files\<rparr>)))))"

section \<open>Tail\<close>

record tail_line =
  tl_observer :: peer_id
  tl_observed_at :: u64
  tl_kind :: string

definition tail_line_of :: "state_delta \<Rightarrow> tail_line" where
  "tail_line_of d = \<lparr>tl_observer = sd_observer d, tl_observed_at = sd_observed_at d,
     tl_kind = (case sd_kind d of DeltaOutcome _ \<Rightarrow> ''Outcome'' | DeltaReputation _ _ _ _ \<Rightarrow> ''Reputation''
       | DeltaGovernanceRule _ _ _ _ \<Rightarrow> ''GovernanceRule'')\<rparr>"

text \<open>One poll: the lines printed, the new watermark and count, and whether the command returns.\<close>

fun tail_emit :: "u64 \<Rightarrow> state_delta list \<Rightarrow> u64 \<Rightarrow> u64 \<Rightarrow> tail_line list \<times> u64 \<times> u64 \<times> bool" where
  "tail_emit limit [] watermark emitted = ([], watermark, emitted, False)"
| "tail_emit limit (d # ds) watermark emitted =
     (let watermark = max watermark (sd_observed_at d); emitted = emitted + 1
      in if limit \<noteq> 0 \<and> limit \<le> emitted then ([tail_line_of d], watermark, emitted, True)
         else (case tail_emit limit ds watermark emitted of (ls, r) \<Rightarrow> (tail_line_of d # ls, r)))"

datatype tail_end = TailReturned | TailFailed store_error | TailPolling u64 u64

text \<open>The loop over the contents of the store at its successive polls, as many as there have been.\<close>

fun tail_loop :: "prims \<Rightarrow> u64 \<Rightarrow> store list \<Rightarrow> u64 \<Rightarrow> u64 \<Rightarrow> tail_line list \<times> tail_end" where
  "tail_loop P limit [] watermark emitted = ([], TailPolling watermark emitted)"
| "tail_loop P limit (st # sts) watermark emitted =
     (case deltas_since P st watermark of
        Inl e \<Rightarrow> ([], TailFailed e)
      | Inr ds \<Rightarrow>
        (case tail_emit limit ds watermark emitted of
           (ls, _, _, True) \<Rightarrow> (ls, TailReturned)
         | (ls, watermark, emitted, False) \<Rightarrow>
             (case tail_loop P limit sts watermark emitted of (ls', r) \<Rightarrow> (ls @ ls', r))))"

section \<open>Tunnel\<close>

datatype tunnel_action = TunnelStart u16 "string list" | TunnelStatus u16 | TunnelTest string | TunnelStop

text \<open>The arguments forwarded to \<open>parseh-tunnel\<close>; \<open>stop\<close> runs nothing.\<close>

definition tunnel_args :: "tunnel_action \<Rightarrow> string list option" where
  "tunnel_args a = (case a of
       TunnelStart port bootstrap \<Rightarrow> Some ([''start'', ''--port'', show_base 10 (unat port)]
         @ concat (map (\<lambda>b. [''--bootstrap'', b]) bootstrap))
     | TunnelStatus port \<Rightarrow> Some [''status'', ''--port'', show_base 10 (unat port)]
     | TunnelTest url \<Rightarrow> Some [''test'', url]
     | TunnelStop \<Rightarrow> None)"

end
