(* ===== verification/Cli_Properties.thy ===== *)
theory Cli_Properties
  imports Cli Store_Properties
begin

text \<open>
  Opening and reading a node's files: migrations keep the data and are idempotent, identities are
  stable, the CLI opens exactly the database the miner created with the same identity, and what
  \<open>tail\<close> prints over a sequence of polls.
\<close>

section \<open>Migrations\<close>

lemma current_version_tables [simp]: "current_version (db\<lparr>db_tables := t\<rparr>) = current_version db"
  by (simp add: current_version_def)

lemma run_migrations_cases:
  "run_migrations now db =
     (if current_version db < 1
      then Inr (SCHEMA_VERSION, db\<lparr>db_tables := db_tables db \<union> schema_v1_tables, db_finalised_index := True,
        db_versions := if 1 \<in> fst ` set (db_versions db) then db_versions db else db_versions db @ [(1, max 0 now)]\<rparr>)
      else if ''outcomes'' \<notin> db_tables db then Inl (NoSuchTable ''outcomes'')
      else Inr (SCHEMA_VERSION, db\<lparr>db_tables := insert ''schema_version'' (db_tables db), db_finalised_index := True\<rparr>))"
proof -
  have "insert ''schema_version'' (db_tables db) \<union> schema_v1_tables = db_tables db \<union> schema_v1_tables"
    by (auto simp: schema_v1_tables_def)
  moreover have "''outcomes'' \<in> schema_v1_tables" by (simp add: schema_v1_tables_def)
  ultimately show ?thesis by (simp add: run_migrations_def Let_def apply_schema_v1_def)
qed

lemma migrated_again:
  assumes "run_migrations now db = Inr (v, db')"
  shows "run_migrations now' db' = Inr (v, db')"
proof (cases "current_version db < 1")
  case True
  then have db': "db' = db\<lparr>db_tables := db_tables db \<union> schema_v1_tables, db_finalised_index := True,
        db_versions := if 1 \<in> fst ` set (db_versions db) then db_versions db else db_versions db @ [(1, max 0 now)]\<rparr>"
      and v: "v = SCHEMA_VERSION"
    using assms by (auto simp: run_migrations_cases)
  have "1 \<in> fst ` set (db_versions db')" by (auto simp: db')
  moreover have "db_tables db' \<union> schema_v1_tables = db_tables db'" "''outcomes'' \<in> db_tables db'"
      "insert ''schema_version'' (db_tables db') = db_tables db'"
    by (auto simp: db' schema_v1_tables_def)
  moreover have "db_finalised_index db'" by (simp add: db')
  ultimately show ?thesis by (simp add: run_migrations_cases v)
next
  case False
  then show ?thesis using assms by (auto simp: run_migrations_cases current_version_def split: if_splits)
qed

lemma run_migrations_store:
  "run_migrations now db = Inr (v, db') \<Longrightarrow> run_migrations now (db\<lparr>db_store := st\<rparr>) = Inr (v, db'\<lparr>db_store := st\<rparr>)"
  by (cases db) (auto simp: run_migrations_cases current_version_def split: if_splits)

text \<open>
  Migrations never touch the stored data or the key, only add tables and version rows, and leave a
  database on which they are a no-op; they fail, with nothing changed, exactly on a database that
  claims a version other than 0 and has no \<open>outcomes\<close> table.
\<close>

lemma migrations_exact:
  "(\<exists>db'. run_migrations now db = Inr (1, db') \<and> db_store db' = db_store db \<and> db_key db' = db_key db
      \<and> ''outcomes'' \<in> db_tables db' \<and> db_finalised_index db' \<and> db_tables db \<subseteq> db_tables db'
      \<and> set (db_versions db) \<subseteq> set (db_versions db') \<and> run_migrations now' db' = Inr (1, db'))
   \<or> (current_version db \<noteq> 0 \<and> ''outcomes'' \<notin> db_tables db \<and> run_migrations now db = Inl (NoSuchTable ''outcomes''))"
proof (cases "run_migrations now db")
  case (Inl e)
  then show ?thesis by (auto simp: run_migrations_cases not_less split: if_splits)
next
  case (Inr r)
  then obtain db' where r: "run_migrations now db = Inr (1, db')"
    by (auto simp: run_migrations_cases SCHEMA_VERSION_def split: if_splits)
  then have "db_store db' = db_store db \<and> db_key db' = db_key db \<and> ''outcomes'' \<in> db_tables db' \<and> db_finalised_index db'
      \<and> db_tables db \<subseteq> db_tables db' \<and> set (db_versions db) \<subseteq> set (db_versions db')"
    by (auto simp: run_migrations_cases schema_v1_tables_def split: if_splits)
  with r migrated_again [OF r] show ?thesis by blast
qed

section \<open>Identities\<close>

text \<open>
  An identity is generated once: every later load returns the same secret and writes nothing, and
  the relay's file is not the miner's, so that both can share a directory.
\<close>

lemma identity_stable:
  assumes "load_or_generate_at random path files = (Inr (secret, created), files')" and "length random = 32"
  shows "length secret = 32 \<and> files' path = Some secret \<and> (created \<longleftrightarrow> files path = None)
    \<and> load_or_generate_at random' path files' = (Inr (secret, False), files')"
  using assms by (auto simp: load_or_generate_at_def write_secret_file_def split: option.splits if_splits)

lemma relay_identity_separate: "path_join dir RELAY_IDENTITY_FILE \<noteq> path_join dir MINER_IDENTITY_FILE"
  by (simp add: path_join_def RELAY_IDENTITY_FILE_def MINER_IDENTITY_FILE_def)

section \<open>The miner's database from the CLI\<close>

lemma open_db_existing:
  assumes "d path = Some db" and "readable (db_key db) key" and "run_migrations now db = Inr (v, db)"
  shows "open_db readable now \<lparr>oo_path = path, oo_key = key, oo_create_if_missing = c\<rparr> d = (Inr db, d)"
  using assms by (auto simp: open_db_def Let_def fun_upd_idem)

lemma open_db_wrong_key:
  assumes "d path = Some db" and "\<not> readable (db_key db) key"
  shows "open_db readable now \<lparr>oo_path = path, oo_key = key, oo_create_if_missing = c\<rparr> d = (Inl WrongKey, d)"
  using assms by (auto simp: open_db_def Let_def fun_upd_idem)

lemma open_db_Inr:
  assumes "open_db readable now opts d = (Inr db, d')" and "\<And>k. readable k k"
  shows "d' (oo_path opts) = Some db \<and> readable (db_key db) (oo_key opts) \<and> (\<exists>v. run_migrations now db = Inr (v, db))"
proof -
  obtain db0 v where db0: "readable (db_key db0) (oo_key opts)" "run_migrations now db0 = Inr (v, db)"
      and d': "d' = d(oo_path opts \<mapsto> db0, oo_path opts \<mapsto> db)"
    using assms(1) by (auto simp: open_db_def Let_def split: if_splits option.splits sum.splits prod.splits)
  moreover have "db_key db = db_key db0" using db0(2) by (auto simp: run_migrations_cases split: if_splits)
  ultimately show ?thesis using migrated_again [OF db0(2), of now] by auto
qed

lemma identity_key: "length b = 32 \<Longrightarrow> from_source P argon (IdentityFile b) = Inr (sha256 P (IDENTITY_KEY_DOMAIN @ b))"
  by (auto simp: from_source_def)

lemma apfst_map_err_Inr: "apfst (map_err f) r = (Inr x, d) \<longleftrightarrow> r = (Inr x, d)"
  by (cases r) (auto simp: map_err_def split: sum.splits)

lemma cmd_init_result:
  assumes "cmd_init M random now dflt dir path h = (Inr (peer, created), h')" and "length random = 32"
    and "\<And>k. mc_readable M k k"
  shows "\<exists>b db. ho_files h' (path_join dir ''identity.ed25519'') = Some b \<and> length b = 32 \<and> ho_dbs h' path = Some db
    \<and> mc_readable M (db_key db) (sha256 (mc_prims M) (IDENTITY_KEY_DOMAIN @ b)) \<and> (\<exists>v. run_migrations now db = Inr (v, db))"
proof -
  obtain kp c files where load: "miner_load_or_generate random dir (ho_files h) = (Inr (kp, c), files)"
    using assms(1) by (auto simp: cmd_init_def split: prod.splits sum.splits)
  obtain files' where files': "(if files (path_join dir ''miner.toml'') = None
      then write_default dflt (path_join dir ''miner.toml'') files else (Inr (), files)) = (Inr (), files')"
    by (cases "files (path_join dir ''miner.toml'') = None") (auto simp: write_default_def)
  have "files' (path_join dir ''identity.ed25519'') = files (path_join dir ''identity.ed25519'')"
    using files' by (auto simp: write_default_def path_join_def split: if_splits)
  then obtain b where b: "read_identity_bytes dir files' = Inr b" "files' (path_join dir ''identity.ed25519'') = Some b" "length b = 32"
    using identity_stable [OF load [unfolded miner_load_or_generate_def MINER_IDENTITY_FILE_def] assms(2)]
    by (auto simp: read_identity_bytes_def)
  then obtain db d where o: "open_db (mc_readable M) now (open_options_create path (sha256 (mc_prims M) (IDENTITY_KEY_DOMAIN @ b)))
      (ho_dbs h) = (Inr db, d)" and h': "h' = h\<lparr>ho_files := files', ho_dbs := d\<rparr>"
    using assms(1) load files'
    by (auto simp: cmd_init_def Let_def miner_open_shared_state_def identity_key apfst_map_err_Inr split: prod.splits sum.splits)
  show ?thesis using open_db_Inr [OF o assms(3)] b by (auto simp: h' open_options_create_def)
qed

lemma cli_open_identity:
  assumes "ho_files h identity = Some b" and "ho_dbs h path = Some db" and "run_migrations now db = Inr (v, db)"
  shows "cli_open_shared_state M now path identity h =
    (if b = [] then Inl (CliKey IdentityEmpty)
     else if mc_readable M (db_key db) (sha256 (mc_prims M) (IDENTITY_KEY_DOMAIN @ b)) then Inr db else Inl DbWrongKey, h)"
  using assms by (simp add: cli_open_shared_state_def build_identity_key_def from_source_def map_err_def open_db_existing
      open_db_wrong_key)

text \<open>
  C29. What the CLI sees of the database that \<open>parseh-miner init\<close> created, in either build of the store:
  plain SQLite, the default, which ignores the key, and SQLCipher (the feature \<open>encrypted\<close>), which reads
  a file only with the key it was created with. In both the CLI opens the database with the miner's
  identity file, finds exactly what has been stored in it since, and leaves everything on disk as it
  is. With another identity file: an empty one is refused; with SQLCipher the wrong key is reported
  exactly when the SHA-256 digests of the two files under the domain prefix differ; with plain SQLite
  the database opens all the same, and a wrong key is never reported.
\<close>

theorem cli_reads_miner_store:
  assumes "cmd_init M random now dflt dir path h = (Inr (peer, created), h')" and "length random = 32"
    and "mc_readable M = (if encrypted then (=) else (\<lambda>_ _. True))"
  shows "\<exists>b db. ho_files h' (path_join dir ''identity.ed25519'') = Some b \<and> ho_dbs h' path = Some db
    \<and> (\<forall>st now'. let h2 = h'\<lparr>ho_dbs := (ho_dbs h')(path \<mapsto> db\<lparr>db_store := st\<rparr>)\<rparr>
       in cli_open_shared_state M now' path (path_join dir ''identity.ed25519'') h2 = (Inr (db\<lparr>db_store := st\<rparr>), h2))
    \<and> (\<forall>other b' now'. ho_files h' other = Some b' \<longrightarrow> cli_open_shared_state M now' path other h' =
         (if b' = [] then Inl (CliKey IdentityEmpty)
          else if encrypted \<and> sha256 (mc_prims M) (IDENTITY_KEY_DOMAIN @ b') \<noteq> sha256 (mc_prims M) (IDENTITY_KEY_DOMAIN @ b)
          then Inl DbWrongKey else Inr db, h'))"
proof -
  have refl: "mc_readable M k k" for k using assms(3) by simp
  obtain b db v where b: "ho_files h' (path_join dir ''identity.ed25519'') = Some b" "length b = 32"
      and db: "ho_dbs h' path = Some db" "mc_readable M (db_key db) (sha256 (mc_prims M) (IDENTITY_KEY_DOMAIN @ b))"
      and mig: "run_migrations now db = Inr (v, db)"
    using cmd_init_result [OF assms(1,2) refl] by blast
  have "cli_open_shared_state M now' path (path_join dir ''identity.ed25519'') h2 = (Inr (db\<lparr>db_store := st\<rparr>), h2)"
    if h2: "h2 = h'\<lparr>ho_dbs := (ho_dbs h')(path \<mapsto> db\<lparr>db_store := st\<rparr>)\<rparr>" for st now' h2
  proof -
    have "run_migrations now' (db\<lparr>db_store := st\<rparr>) = Inr (v, db\<lparr>db_store := st\<rparr>)"
      by (rule run_migrations_store [OF migrated_again [OF mig]])
    then show ?thesis using b db(2) by (subst cli_open_identity) (auto simp: h2)
  qed
  moreover have "cli_open_shared_state M now' path other h' =
         (if b' = [] then Inl (CliKey IdentityEmpty)
          else if encrypted \<and> sha256 (mc_prims M) (IDENTITY_KEY_DOMAIN @ b') \<noteq> sha256 (mc_prims M) (IDENTITY_KEY_DOMAIN @ b)
          then Inl DbWrongKey else Inr db, h')"
    if "ho_files h' other = Some b'" for other b' now'
    using cli_open_identity [OF that db(1) migrated_again [OF mig], of M now'] assms(3) db(2) by auto
  ultimately show ?thesis using b db(1) by (auto simp: Let_def)
qed

section \<open>Tail\<close>

text \<open>The times of a store are those of its clock: they are not negative and fit the column.\<close>

definition observed_typed :: "store \<Rightarrow> bool" where
  "observed_typed st \<longleftrightarrow> (\<forall>r \<in> set (st_outcomes st). 0 \<le> or_observed_at r \<and> or_observed_at r < 2 ^ 63)"

lemma map_results_Inr_map:
  "map_results f xs = Inr ys \<Longrightarrow> (\<And>x y. x \<in> set xs \<Longrightarrow> f x = Inr y \<Longrightarrow> h y = k x) \<Longrightarrow> map h ys = map k xs"
  by (induction xs arbitrary: ys) (auto simp: bind_result_eq_Inr)

lemma uint_of_time: "0 \<le> t \<Longrightarrow> t < 2 ^ 63 \<Longrightarrow> uint (word_of_int t :: u64) = t"
  by (simp add: uint_word_of_int)

lemma map_sort_key_self: "map f (sort_key f xs) = sort (map f xs)"
  by (rule properties_for_sort [symmetric]) simp_all

lemma deltas_since_times:
  assumes "deltas_since P st w = Inr ds" and "observed_typed st" and "uint w < 2 ^ 63"
  shows "map (\<lambda>d. uint (sd_observed_at d)) ds = sort (filter (\<lambda>t. uint w < t) (map or_observed_at (st_outcomes st)))"
proof -
  let ?rs = "sort_key or_observed_at (filter (\<lambda>r. as_i64 w < or_observed_at r) (st_outcomes st))"
  have "int (unat w) < 2 ^ 63" using assms(3) by (simp only: uint_nat)
  then have "unat w < 2 ^ 63" by (metis of_nat_less_iff of_nat_numeral of_nat_power)
  then have w: "as_i64 w = uint w" by (simp only: as_i64_small uint_nat)
  have "map (\<lambda>d. uint (sd_observed_at d)) ds = map or_observed_at ?rs"
    using assms(1) unfolding deltas_since_def
    by (rule map_results_Inr_map) (use assms(2) in \<open>auto simp: observed_typed_def delta_unsigned_def uint_of_time split: option.splits\<close>)
  also have "\<dots> = sort (map or_observed_at (filter (\<lambda>r. as_i64 w < or_observed_at r) (st_outcomes st)))"
    by (rule map_sort_key_self)
  finally show ?thesis by (simp add: w filter_map comp_def)
qed

lemma tail_emit_unlimited:
  "tail_emit 0 ds w e = (map tail_line_of ds, foldl max w (map sd_observed_at ds), e + of_nat (length ds), False)"
  by (induction ds arbitrary: w e) (simp_all add: Let_def add.commute add.left_commute)

lemma tail_loop_append:
  "tail_loop P limit sts1 w e = (ls1, TailPolling w1 e1) \<Longrightarrow>
   tail_loop P limit (sts1 @ sts2) w e = (case tail_loop P limit sts2 w1 e1 of (ls2, r) \<Rightarrow> (ls1 @ ls2, r))"
  by (induction sts1 arbitrary: w e ls1) (auto split: sum.splits prod.splits bool.splits)

lemma foldl_max_bounds:
  fixes w :: "'a::linorder"
  shows "w \<le> foldl max w xs \<and> (\<forall>x \<in> set xs. x \<le> foldl max w xs) \<and> foldl max w xs \<in> insert w (set xs)"
proof (induction xs arbitrary: w)
  case (Cons x xs)
  show ?case using Cons [of "max w x"] by (auto simp: max_def split: if_splits)
qed simp

lemma tail_loop_lines:
  assumes "\<forall>st \<in> set sts. observed_typed st" and "uint w < 2 ^ 63" and "tail_loop P 0 sts w e = (ls, r)"
  shows "sorted (map tl_observed_at ls) \<and> (\<forall>l \<in> set ls. w < tl_observed_at l) \<and> r \<noteq> TailReturned
    \<and> (\<forall>w' e'. r = TailPolling w' e' \<longrightarrow> uint w' < 2 ^ 63 \<and> w \<le> w' \<and> (\<forall>l \<in> set ls. tl_observed_at l \<le> w'))"
  using assms
proof (induction sts arbitrary: w e ls r)
  case (Cons st sts)
  show ?case
  proof (cases "deltas_since P st w")
    case (Inr ds)
    let ?w = "foldl max w (map sd_observed_at ds)"
    obtain ls' where ls: "ls = map tail_line_of ds @ ls'" and rest: "tail_loop P 0 sts ?w (e + of_nat (length ds)) = (ls', r)"
      using Cons.prems(3) Inr by (auto simp: tail_emit_unlimited split: prod.splits)
    have times: "map (\<lambda>d. uint (sd_observed_at d)) ds = sort (filter (\<lambda>t. uint w < t) (map or_observed_at (st_outcomes st)))"
      using Inr Cons.prems by (intro deltas_since_times) simp_all
    have "sorted (map (\<lambda>d. uint (sd_observed_at d)) ds)" unfolding times by simp
    then have sorted: "sorted (map sd_observed_at ds)" by (simp add: sorted_map word_le_def)
    have after: "\<forall>d \<in> set ds. w < sd_observed_at d \<and> uint (sd_observed_at d) < 2 ^ 63"
    proof
      fix d assume "d \<in> set ds"
      then have "uint (sd_observed_at d) \<in> set (map (\<lambda>d. uint (sd_observed_at d)) ds)" by simp
      then show "w < sd_observed_at d \<and> uint (sd_observed_at d) < 2 ^ 63"
        unfolding times using Cons.prems(1) by (auto simp: word_less_def observed_typed_def)
    qed
    have w: "w \<le> ?w" "\<forall>d \<in> set ds. sd_observed_at d \<le> ?w" "uint ?w < 2 ^ 63"
      using foldl_max_bounds [of w "map sd_observed_at ds"] after Cons.prems(2) by auto
    from Cons.IH [OF _ w(3) rest] Cons.prems(1) show ?thesis
      using sorted after w by (fastforce simp: ls sorted_append tail_line_of_def comp_def)
  qed (use Cons.prems(3) in auto)
qed auto

text \<open>
  C30. What \<open>tail\<close> prints without a limit, over any number of polls of a growing store: the lines are in the
  order of their times and every poll prints exactly the outcomes whose time is after the watermark,
  which is the latest time printed so far, so nothing is printed twice. For the same reason an outcome
  that is recorded after a poll with a time up to the watermark, in the same second as a printed one,
  is never printed.
\<close>

theorem tail_prints_after_watermark:
  assumes "\<forall>st \<in> set (sts1 @ [st]). observed_typed st" and "uint w < 2 ^ 63"
    and "tail_loop P 0 sts1 w e = (ls1, TailPolling w1 e1)" and "tail_loop P 0 (sts1 @ [st]) w e = (ls, TailPolling w2 e2)"
  shows "sorted (map tl_observed_at ls) \<and> (\<forall>l \<in> set ls1. tl_observed_at l \<le> w1) \<and> w1 \<le> w2
    \<and> (\<exists>ls2. ls = ls1 @ ls2 \<and>
         map (\<lambda>l. uint (tl_observed_at l)) ls2 = sort (filter (\<lambda>t. uint w1 < t) (map or_observed_at (st_outcomes st))))"
proof -
  have 1: "uint w1 < 2 ^ 63" "\<forall>l \<in> set ls1. tl_observed_at l \<le> w1"
    using tail_loop_lines [OF _ assms(2,3)] assms(1) by auto
  obtain ls2 where ls: "ls = ls1 @ ls2" and poll: "tail_loop P 0 [st] w1 e1 = (ls2, TailPolling w2 e2)"
    using assms(4) unfolding tail_loop_append [OF assms(3)] by (auto split: prod.splits)
  obtain ds where ds: "deltas_since P st w1 = Inr ds" "ls2 = map tail_line_of ds"
    using poll by (auto simp: tail_emit_unlimited split: sum.splits)
  have "map (\<lambda>l. uint (tl_observed_at l)) ls2 = sort (filter (\<lambda>t. uint w1 < t) (map or_observed_at (st_outcomes st)))"
    using deltas_since_times [OF ds(1) _ 1(1)] assms(1) by (simp add: ds(2) comp_def tail_line_of_def)
  moreover have "w1 \<le> w2" using tail_loop_lines [OF _ 1(1) poll] assms(1) by simp
  moreover have "sorted (map tl_observed_at ls)" using tail_loop_lines [OF assms(1,2,4)] by simp
  ultimately show ?thesis using 1 ls by blast
qed

text \<open>Two outcomes recorded in the same second, the second one after the first poll.\<close>

definition demo_polled :: "nat \<Rightarrow> store" where
  "demo_polled n = empty_store\<lparr>st_outcomes := take n [outcome_row_of demo_prims 5 (demo_outcome 5), outcome_row_of demo_prims 5 (demo_outcome 6)]\<rparr>"

lemma demo_tail:
  "tail_loop demo_prims 0 [demo_polled 1] 4 0 = ([\<lparr>tl_observer = jo_observed_by (demo_outcome 5), tl_observed_at = 5, tl_kind = ''Outcome''\<rparr>], TailPolling 5 1)"
  "tail_loop demo_prims 0 ([demo_polled 1] @ [demo_polled 2]) 4 0 = ([\<lparr>tl_observer = jo_observed_by (demo_outcome 5), tl_observed_at = 5, tl_kind = ''Outcome''\<rparr>], TailPolling 5 1)"
proof -
  have time: "or_observed_at (outcome_row_of demo_prims 5 x) = 5" for x by (simp add: outcome_row_of_def)
  have "deltas_since demo_prims (demo_polled 1) 4 = Inr [delta_unsigned (DeltaOutcome (demo_outcome 5)) (jo_observed_by (demo_outcome 5)) 5]"
    by (simp add: deltas_since_def demo_polled_def time as_i64_def outcome_row_decodes [OF demo_ok(3) wf_demo_outcome])
  moreover have "deltas_since demo_prims (demo_polled 2) 5 = Inr []"
    by (simp add: deltas_since_def demo_polled_def time as_i64_def)
  ultimately show
    "tail_loop demo_prims 0 [demo_polled 1] 4 0 = ([\<lparr>tl_observer = jo_observed_by (demo_outcome 5), tl_observed_at = 5, tl_kind = ''Outcome''\<rparr>], TailPolling 5 1)"
    "tail_loop demo_prims 0 ([demo_polled 1] @ [demo_polled 2]) 4 0 = ([\<lparr>tl_observer = jo_observed_by (demo_outcome 5), tl_observed_at = 5, tl_kind = ''Outcome''\<rparr>], TailPolling 5 1)"
    by (simp_all add: tail_line_of_def delta_unsigned_def max_def)
qed

theorem tail_prints_after_watermark_witness:
  "map or_observed_at (st_outcomes (demo_polled 2)) = [5, 5] \<and>
   (\<exists>ls. tail_loop demo_prims 0 ([demo_polled 1] @ [demo_polled 2]) 4 0 = (ls, TailPolling 5 1) \<and> sorted (map tl_observed_at ls) \<and> length ls = 1)"
proof -
  have typed: "\<forall>st \<in> set ([demo_polled 1] @ [demo_polled 2]). observed_typed st"
    by (simp add: demo_polled_def observed_typed_def outcome_row_of_def)
  have "uint (4 :: u64) < 2 ^ 63" by simp
  from tail_prints_after_watermark [OF typed this demo_tail] demo_tail(2) show ?thesis
    by (simp add: demo_polled_def outcome_row_of_def)
qed

definition demo_machine :: machine where
  "demo_machine = \<lparr>mc_prims = demo_prims, mc_argon2 = (\<lambda>_ _ _. None), mc_readable = (=), mc_peer_of = PeerId,
     mc_home_dir = Some ''/root'', mc_config_dir = Some ''/etc''\<rparr>"

lemma demo_init:
  "\<exists>h'. cmd_init demo_machine (replicate 32 7) 9 (miner_config_default None None) ''/c'' ''/db'' \<lparr>ho_files = Map.empty, ho_dbs = Map.empty\<rparr>
     = (Inr (PeerId (replicate 32 7), True), h')"
  by (simp add: cmd_init_def miner_load_or_generate_def load_or_generate_at_def MINER_IDENTITY_FILE_def path_join_def
      write_secret_file_def write_default_def read_identity_bytes_def miner_open_shared_state_def from_source_def
      open_db_def open_options_create_def new_database_def run_migrations_cases current_version_def demo_machine_def map_err_def Let_def)

theorem cli_reads_miner_store_witness:
  "\<exists>h' db. cmd_init demo_machine (replicate 32 7) 9 (miner_config_default None None) ''/c'' ''/db'' \<lparr>ho_files = Map.empty, ho_dbs = Map.empty\<rparr>
      = (Inr (PeerId (replicate 32 7), True), h') \<and> ho_dbs h' ''/db'' = Some db
    \<and> (let h2 = h'\<lparr>ho_dbs := (ho_dbs h')(''/db'' \<mapsto> db\<lparr>db_store := demo_polled 2\<rparr>)\<rparr>
       in cli_open_shared_state demo_machine 10 ''/db'' ''/c/identity.ed25519'' h2 = (Inr (db\<lparr>db_store := demo_polled 2\<rparr>), h2))"
proof -
  obtain h' where h': "cmd_init demo_machine (replicate 32 7) 9 (miner_config_default None None) ''/c'' ''/db''
      \<lparr>ho_files = Map.empty, ho_dbs = Map.empty\<rparr> = (Inr (PeerId (replicate 32 7), True), h')"
    using demo_init by blast
  have path: "path_join ''/c'' ''identity.ed25519'' = ''/c/identity.ed25519''" by (simp add: path_join_def)
  show ?thesis
    using cli_reads_miner_store [OF h', where encrypted = True] h' unfolding path by (auto simp: demo_machine_def Let_def)
qed

section \<open>Status\<close>

lemma decode_rows_length: "decode_rows P rd bs = Inr xs \<Longrightarrow> length xs = length bs"
proof (induction bs arbitrary: xs)
  case (Cons b bs)
  then show ?case by (auto simp: decode_rows_def bind_result_eq_Inr)
qed (simp add: decode_rows_def)

text \<open>
  The number of tasks that \<open>status\<close> reports is the number of task rows from the epoch on, or 0 when a
  single row does not decode; a stub with an empty body, as a synced outcome leaves it, is such a row.
\<close>

lemma status_task_count:
  assumes "cbor_ok P"
  shows "sr_tasks_count (snapshot_shared_state P st path) \<in> {0, length (filter (\<lambda>r. 0 \<le> tr_submitted_at r) (st_tasks st))}
    \<and> (\<forall>r \<in> set (st_tasks st). tr_spec_cbor r = [] \<and> 0 \<le> tr_submitted_at r \<longrightarrow> sr_tasks_count (snapshot_shared_state P st path) = 0)"
proof (intro conjI ballI impI)
  show "sr_tasks_count (snapshot_shared_state P st path) \<in> {0, length (filter (\<lambda>r. 0 \<le> tr_submitted_at r) (st_tasks st))}"
    by (auto simp: snapshot_shared_state_def Let_def length_or_zero_def recent_tasks_def as_i64_def dest: decode_rows_length split: sum.splits)
next
  fix r
  assume r: "r \<in> set (st_tasks st)" "tr_spec_cbor r = [] \<and> 0 \<le> tr_submitted_at r"
  then have "[] \<in> set (map tr_spec_cbor (sort_key tr_submitted_at (filter (\<lambda>r. as_i64 0 \<le> tr_submitted_at r) (st_tasks st))))"
    by (force simp: as_i64_def)
  then have "\<exists>e. recent_tasks P st 0 = Inl e"
    unfolding recent_tasks_def decode_rows_def
    by (rule map_results_Inl [where e = CborDecode]) (simp add: from_cbor_bytes_Nil [OF assms])
  then show "sr_tasks_count (snapshot_shared_state P st path) = 0"
    by (auto simp: snapshot_shared_state_def Let_def length_or_zero_def)
qed

end
