(* ===== verification/Llm.thy ===== *)
theory Llm
  imports Node_Files
begin

text \<open>
  Finding and fetching a local model: the probes of \<open>server/llm-detect/src/\<close> (\<open>lib.rs\<close>, \<open>ollama.rs\<close>, \<open>llama_cpp.rs\<close>,
  \<open>gguf.rs\<close>, \<open>gpu.rs\<close>), the consent-gated download of \<open>server/llm-downloader/src/\<close> (\<open>lib.rs\<close>, \<open>consent.rs\<close>, \<open>models.rs\<close>)
  and what the miner does with them (\<open>handle_llm_detection\<close> of \<open>server/miner/src/main.rs\<close>). HTTP replies, the
  output of other programs and directory listings are arguments.
\<close>

section \<open>Probes\<close>

record ollama_model =
  om_name :: string
  om_modified_at :: string
  om_size :: u64

record ollama_info =
  oi_endpoint :: string
  oi_version :: string
  oi_models :: "ollama_model list"

type_synonym http = "string \<Rightarrow> (nat \<times> bytes) option"

definition is_success :: "nat \<Rightarrow> bool" where
  "is_success status \<longleftrightarrow> 200 \<le> status \<and> status < 300"

text \<open>What \<open>error_for_status\<close> turns into an error: client and server errors, and no other status.\<close>

definition is_error_status :: "nat \<Rightarrow> bool" where
  "is_error_status status \<longleftrightarrow> 400 \<le> status \<and> status < 600"

text \<open>\<open>parse_tags\<close> and \<open>parse_version\<close> decode the two JSON replies.\<close>

definition probe_endpoint ::
    "(bytes \<Rightarrow> ollama_model list option) \<Rightarrow> (bytes \<Rightarrow> string option) \<Rightarrow> http \<Rightarrow> string \<Rightarrow> ollama_info option" where
  "probe_endpoint parse_tags parse_version get endpoint =
     (case get (endpoint @ ''/api/tags'') of
        None \<Rightarrow> None
      | Some (status, body) \<Rightarrow>
          if \<not> is_success status then None
          else (case parse_tags body of
              None \<Rightarrow> None
            | Some models \<Rightarrow>
                let version = (case get (endpoint @ ''/api/version'') of
                    Some (vs, vbody) \<Rightarrow> if is_success vs then (case parse_version vbody of Some v \<Rightarrow> v | None \<Rightarrow> []) else []
                  | None \<Rightarrow> [])
                in Some \<lparr>oi_endpoint = endpoint, oi_version = version, oi_models = models\<rparr>))"

definition DEFAULT_ENDPOINT :: string where
  "DEFAULT_ENDPOINT = ''http://localhost:11434''"

record llama_cpp_info =
  lc_binary_path :: string
  lc_version :: string

definition CANDIDATES :: "string list" where
  "CANDIDATES = [''llama-server'', ''llama-cli'', ''llama.cpp'', ''server.exe'', ''llama-server.exe'']"

text \<open>\<open>run path\<close> is the standard output and error of \<open>path --version\<close>, if it ran in time.\<close>

definition capture_version :: "(string \<Rightarrow> (bytes \<times> bytes) option) \<Rightarrow> string \<Rightarrow> string option" where
  "capture_version run path = map_option (\<lambda>(out, err).
     let s = trim (from_utf8_lossy out) in if s = [] then trim (from_utf8_lossy err) else s) (run path)"

fun probe_llama_cpp ::
    "(string \<Rightarrow> string option) \<Rightarrow> (string \<Rightarrow> (bytes \<times> bytes) option) \<Rightarrow> string list \<Rightarrow> llama_cpp_info option" where
  "probe_llama_cpp which run [] = None"
| "probe_llama_cpp which run (name # names) =
     (case which name of
        Some path \<Rightarrow> Some \<lparr>lc_binary_path = path, lc_version = (case capture_version run path of Some v \<Rightarrow> v | None \<Rightarrow> [])\<rparr>
      | None \<Rightarrow> probe_llama_cpp which run names)"

record gpu_info =
  gp_name :: string
  gp_vram_mb :: nat
  gp_source :: string

text \<open>The first line is \<open>name, memory\<close>; only the first comma separates.\<close>

definition parse_nvidia_smi :: "string \<Rightarrow> gpu_info option" where
  "parse_nvidia_smi out =
     (case text_lines out of
        [] \<Rightarrow> None
      | first_line # _ \<Rightarrow>
          (case split_once '','' first_line of
             None \<Rightarrow> None
           | Some (name, memory) \<Rightarrow>
               map_option (\<lambda>mb. \<lparr>gp_name = trim name, gp_vram_mb = mb, gp_source = ''nvidia-smi''\<rparr>)
                 (parse_unsigned (2 ^ 64) (trim memory))))"

fun wmic_record :: "string list \<Rightarrow> string option \<Rightarrow> nat option \<Rightarrow> string option \<times> nat option" where
  "wmic_record [] name ram = (name, ram)"
| "wmic_record (l # ls) name ram =
     (let line = trim l
      in if line = [] then (if name \<noteq> None \<and> ram \<noteq> None then (name, ram) else wmic_record ls None None)
         else (case strip_prefix ''Name='' line of
             Some v \<Rightarrow> wmic_record ls (Some v) ram
           | None \<Rightarrow> (case strip_prefix ''AdapterRAM='' line of
               Some v \<Rightarrow> wmic_record ls name (parse_unsigned (2 ^ 64) v)
             | None \<Rightarrow> wmic_record ls name ram)))"

definition parse_wmic :: "string \<Rightarrow> gpu_info option" where
  "parse_wmic out = (case wmic_record (text_lines out) None None of
       (Some name, Some ram) \<Rightarrow> Some \<lparr>gp_name = name, gp_vram_mb = ram div (1024 * 1024), gp_source = ''wmic''\<rparr>
     | _ \<Rightarrow> None)"

text \<open>A program's output is \<open>None\<close> when it did not run in time or failed.\<close>

definition probe_gpu :: "bool \<Rightarrow> bytes option \<Rightarrow> bytes option \<Rightarrow> gpu_info option" where
  "probe_gpu windows nvidia_smi wmic =
     (case Option.bind nvidia_smi (\<lambda>out. parse_nvidia_smi (from_utf8_lossy out)) of
        Some info \<Rightarrow> Some info
      | None \<Rightarrow> if windows then Option.bind wmic (\<lambda>out. parse_wmic (from_utf8_lossy out)) else None)"

section \<open>Model files\<close>

record gguf_file =
  gf_path :: string
  gf_size_mb :: nat
  gf_modified_at :: nat

definition MAX_FILES :: nat where
  "MAX_FILES = 1000"

text \<open>The text after the last slash, and after its last dot unless that is its first character.\<close>

definition file_name :: "string \<Rightarrow> string" where
  "file_name path = (case rsplit_once CHR ''/'' path of Some (_, n) \<Rightarrow> n | None \<Rightarrow> path)"

definition extension :: "string \<Rightarrow> string option" where
  "extension path = (let n = file_name path in if n = ''..'' then None else
     (case rsplit_once CHR ''.'' n of Some (stem, e) \<Rightarrow> if stem = [] then None else Some e | None \<Rightarrow> None))"

definition ascii_lower :: "char \<Rightarrow> char" where
  "ascii_lower c = (if 65 \<le> (of_char c :: nat) \<and> (of_char c :: nat) \<le> 90 then char_of (of_char c + 32 :: nat) else c)"

definition is_gguf :: "string \<Rightarrow> bool" where
  "is_gguf path = (case extension path of Some e \<Rightarrow> map ascii_lower e = ''gguf'' | None \<Rightarrow> False)"

text \<open>An entry of a directory walk; \<open>de_meta\<close> is the length and the modification time, 0 when there is none.\<close>

record dir_entry =
  de_path :: string
  de_is_file :: bool
  de_meta :: "(nat \<times> nat) option"

definition gguf_of :: "dir_entry \<Rightarrow> gguf_file option" where
  "gguf_of e = (if \<not> de_is_file e \<or> \<not> is_gguf (de_path e) then None
     else map_option (\<lambda>(len, modified). \<lparr>gf_path = de_path e, gf_size_mb = len div (1024 * 1024), gf_modified_at = modified\<rparr>)
       (de_meta e))"

fun scan_entries :: "dir_entry list \<Rightarrow> gguf_file list \<Rightarrow> gguf_file list" where
  "scan_entries [] out = out"
| "scan_entries (e # es) out =
     (if MAX_FILES \<le> length out then out
      else (case gguf_of e of None \<Rightarrow> scan_entries es out | Some f \<Rightarrow> scan_entries es (out @ [f])))"

text \<open>\<open>walk root\<close> is \<open>None\<close> when the root does not exist.\<close>

fun scan_roots :: "(string \<Rightarrow> dir_entry list option) \<Rightarrow> string list \<Rightarrow> gguf_file list \<Rightarrow> gguf_file list" where
  "scan_roots walk [] out = out"
| "scan_roots walk (r # rs) out =
     (case walk r of
        None \<Rightarrow> scan_roots walk rs out
      | Some es \<Rightarrow> (let out = scan_entries es out in if MAX_FILES \<le> length out then out else scan_roots walk rs out))"

definition scan_blocking :: "(string \<Rightarrow> dir_entry list option) \<Rightarrow> string list \<Rightarrow> gguf_file list" where
  "scan_blocking walk roots = sort_key (\<lambda>f. - int (gf_modified_at f)) (scan_roots walk roots [])"

definition standard_roots :: "string option \<Rightarrow> string option \<Rightarrow> string option \<Rightarrow> string list" where
  "standard_roots home cache local =
     (case home of Some d \<Rightarrow> [d @ ''/.ollama/models/blobs'', d @ ''/.parseh/models''] | None \<Rightarrow> [])
     @ (case cache of Some d \<Rightarrow> [d @ ''/lm-studio/models'', d @ ''/huggingface/hub''] | None \<Rightarrow> [])
     @ (case local of Some d \<Rightarrow> [d @ ''/Programs/Ollama/models''] | None \<Rightarrow> [])"

section \<open>Detection\<close>

record detection_result =
  dt_ollama :: "ollama_info option"
  dt_llama_cpp :: "llama_cpp_info option"
  dt_gguf_files :: "gguf_file list"
  dt_gpu :: "gpu_info option"

definition detection_is_empty :: "detection_result \<Rightarrow> bool" where
  "detection_is_empty d \<longleftrightarrow>
     (case dt_ollama d of Some o1 \<Rightarrow> oi_models o1 = [] | None \<Rightarrow> True) \<and> dt_llama_cpp d = None \<and> dt_gguf_files d = []"

datatype recommended_runtime = Ollama string string | LocalGguf string nat

definition recommended_runtime_of :: "detection_result \<Rightarrow> recommended_runtime option" where
  "recommended_runtime_of d =
     (let local = (case dt_gguf_files d of f # _ \<Rightarrow> Some (LocalGguf (gf_path f) (gf_size_mb f)) | [] \<Rightarrow> None)
      in case dt_ollama d of
           Some info \<Rightarrow> (case oi_models info of m # _ \<Rightarrow> Some (Ollama (oi_endpoint info) (om_name m)) | [] \<Rightarrow> local)
         | None \<Rightarrow> local)"

text \<open>A probe that failed counts as nothing found.\<close>

definition detect_all ::
    "ollama_info option \<Rightarrow> llama_cpp_info option \<Rightarrow> gguf_file list option \<Rightarrow> gpu_info option \<Rightarrow> detection_result" where
  "detect_all ollama llama_cpp gguf gpu =
     \<lparr>dt_ollama = ollama, dt_llama_cpp = llama_cpp, dt_gguf_files = (case gguf of Some fs \<Rightarrow> fs | None \<Rightarrow> []), dt_gpu = gpu\<rparr>"

section \<open>Download\<close>

record model_spec =
  ms_name :: string
  ms_filename :: string
  ms_url :: string
  ms_expected_size_bytes :: u64
  ms_expected_sha256 :: string

definition TINYLLAMA_1_1B_Q4_K_M :: model_spec where
  "TINYLLAMA_1_1B_Q4_K_M = \<lparr>ms_name = ''tinyllama-1.1b-chat-q4_k_m'', ms_filename = ''tinyllama-1.1b-chat-v1.0.Q4_K_M.gguf'',
     ms_url = ''https://huggingface.co/TheBloke/TinyLlama-1.1B-Chat-v1.0-GGUF/resolve/main/tinyllama-1.1b-chat-v1.0.Q4_K_M.gguf'',
     ms_expected_size_bytes = 668788096,
     ms_expected_sha256 = ''PLACEHOLDER_REPLACE_WITH_REAL_HASH_ON_FIRST_DOWNLOAD''\<rparr>"

definition MODELS :: "model_spec list" where
  "MODELS = [TINYLLAMA_1_1B_Q4_K_M]"

definition catalog_get :: "string \<Rightarrow> model_spec option" where
  "catalog_get name = List.find (\<lambda>m. ms_name m = name) MODELS"

definition default_recommended :: model_spec where
  "default_recommended = TINYLLAMA_1_1B_Q4_K_M"

text \<open>A token that only an agreeing prompt yields.\<close>

datatype consent = Consent

datatype consent_denied = ConsentDenied

definition obtain_consent :: "bool \<Rightarrow> consent_denied + consent" where
  "obtain_consent answer = (if answer then Inr Consent else Inl ConsentDenied)"

record download_result =
  dr_model :: model_spec
  dr_path :: string
  dr_bytes_written :: u64
  dr_sha256 :: string
  dr_sha256_verified :: bool

datatype download_error = RequestFailed | StatusNot2xx | StreamFailed | NoHomeDir

record http_response =
  hr_status :: nat
  hr_content_length :: "u64 option"
  hr_chunks :: "bytes option list"

text \<open>
  The streaming loop: the bytes written and hashed so far, the saturating count and the calls of the
  progress callback; a failed chunk ends it.
\<close>

fun stream_chunks :: "u64 \<Rightarrow> bytes option list \<Rightarrow> bytes \<Rightarrow> u64 \<Rightarrow> (u64 \<times> u64) list \<Rightarrow> bool \<times> bytes \<times> u64 \<times> (u64 \<times> u64) list" where
  "stream_chunks total_bytes [] written downloaded calls = (True, written, downloaded, calls)"
| "stream_chunks total_bytes (None # cs) written downloaded calls = (False, written, downloaded, calls)"
| "stream_chunks total_bytes (Some chunk # cs) written downloaded calls =
     (let downloaded = saturating_add downloaded (of_nat (length chunk))
      in stream_chunks total_bytes cs (written @ chunk) downloaded (calls @ [(downloaded, total_bytes)]))"

definition compute_sha256 :: "prims \<Rightarrow> bytes \<Rightarrow> string" where
  "compute_sha256 P file = hex_lower (sha256 P file)"

definition download_to_path ::
    "prims \<Rightarrow> (string \<Rightarrow> http_response option) \<Rightarrow> model_spec \<Rightarrow> string \<Rightarrow> (string \<Rightarrow> bytes option)
       \<Rightarrow> (download_error + download_result) \<times> (string \<Rightarrow> bytes option) \<times> (u64 \<times> u64) list" where
  "download_to_path P get model dest files =
     (case get (ms_url model) of
        None \<Rightarrow> (Inl RequestFailed, files, [])
      | Some response \<Rightarrow>
          if is_error_status (hr_status response) then (Inl StatusNot2xx, files, [])
          else
            let total_bytes = (case hr_content_length response of Some n \<Rightarrow> n | None \<Rightarrow> ms_expected_size_bytes model);
                (complete, written, downloaded, calls) = stream_chunks total_bytes (hr_chunks response) [] 0 [];
                files = files(dest \<mapsto> written)
            in if \<not> complete then (Inl StreamFailed, files, calls)
               else
                 let computed = hex_lower (sha256 P written)
                 in (Inr \<lparr>dr_model = model, dr_path = dest, dr_bytes_written = downloaded, dr_sha256 = computed,
                        dr_sha256_verified = (computed = ms_expected_sha256 model)\<rparr>, files, calls))"

definition default_models_dir :: "string option \<Rightarrow> download_error + string" where
  "default_models_dir home = (case home of None \<Rightarrow> Inl NoHomeDir | Some d \<Rightarrow> Inr (d @ ''/.parseh/models''))"

text \<open>The consent token is an argument and is not looked at.\<close>

definition download_model ::
    "prims \<Rightarrow> (string \<Rightarrow> http_response option) \<Rightarrow> string option \<Rightarrow> model_spec \<Rightarrow> consent \<Rightarrow> (string \<Rightarrow> bytes option)
       \<Rightarrow> (download_error + download_result) \<times> (string \<Rightarrow> bytes option) \<times> (u64 \<times> u64) list" where
  "download_model P get home model token files =
     (case default_models_dir home of
        Inl e \<Rightarrow> (Inl e, files, [])
      | Inr dir \<Rightarrow>
        (let dest = path_join dir (ms_filename model)
         in case files dest of
              Some b \<Rightarrow>
                if length b = unat (ms_expected_size_bytes model)
                then let computed = compute_sha256 P b
                     in (Inr \<lparr>dr_model = model, dr_path = dest, dr_bytes_written = of_nat (length b), dr_sha256 = computed,
                           dr_sha256_verified = (computed = ms_expected_sha256 model)\<rparr>, files, [])
                else download_to_path P get model dest files
            | None \<Rightarrow> download_to_path P get model dest files))"

text \<open>The same to a given file, which is overwritten whatever it holds.\<close>

definition download_model_to ::
    "prims \<Rightarrow> (string \<Rightarrow> http_response option) \<Rightarrow> model_spec \<Rightarrow> string \<Rightarrow> consent \<Rightarrow> (string \<Rightarrow> bytes option)
       \<Rightarrow> (download_error + download_result) \<times> (string \<Rightarrow> bytes option) \<times> (u64 \<times> u64) list" where
  "download_model_to P get model dest token files = download_to_path P get model dest files"

text \<open>What the miner does at startup: a detected runtime, a download by the flag, or nothing.\<close>

definition handle_llm_detection ::
    "prims \<Rightarrow> (string \<Rightarrow> http_response option) \<Rightarrow> string option \<Rightarrow> detection_result \<Rightarrow> bool \<Rightarrow> (string \<Rightarrow> bytes option)
       \<Rightarrow> ((download_error + unit) \<times> (string \<Rightarrow> bytes option)) option" where
  "handle_llm_detection P get home d auto_download files =
     (case recommended_runtime_of d of
        Some rt \<Rightarrow> Some (Inr (), files)
      | None \<Rightarrow>
          if auto_download
          then (case obtain_consent True of
              Inl _ \<Rightarrow> None
            | Inr token \<Rightarrow>
                (case download_model P get home default_recommended token files of
                   (Inl e, files, _) \<Rightarrow> Some (Inl e, files)
                 | (Inr _, files, _) \<Rightarrow> Some (Inr (), files)))
          else Some (Inr (), files))"

end
