(* ===== verification/Llm_Properties.thy ===== *)
theory Llm_Properties
  imports Llm Demo_Prims
begin

text \<open>
  What detection and download promise: the scan returns the first thousand model files, newest first;
  a download leaves exactly the streamed bytes and reports their digest truthfully; and the model whose
  digest does not match is kept and, unless Ollama has one, recommended at the next start.
\<close>

section \<open>The scan\<close>

definition listed :: "(string \<Rightarrow> dir_entry list option) \<Rightarrow> string \<Rightarrow> gguf_file list" where
  "listed walk r = List.map_filter gguf_of (case walk r of Some es \<Rightarrow> es | None \<Rightarrow> [])"

lemma scan_entries_take:
  "length out \<le> MAX_FILES \<Longrightarrow> scan_entries es out = take MAX_FILES (out @ List.map_filter gguf_of es)"
  by (induction es arbitrary: out) (auto simp: map_filter_simps take_Cons' split: option.splits)

lemma scan_roots_take:
  "length out \<le> MAX_FILES \<Longrightarrow> scan_roots walk roots out = take MAX_FILES (out @ concat (map (listed walk) roots))"
proof (induction roots arbitrary: out)
  case (Cons r rs)
  show ?case
  proof (cases "walk r")
    case (Some es)
    have l: "listed walk r = List.map_filter gguf_of es" by (simp add: listed_def Some)
    let ?out = "take MAX_FILES (out @ List.map_filter gguf_of es)"
    have "scan_roots walk (r # rs) out = (if MAX_FILES \<le> length ?out then ?out else scan_roots walk rs ?out)"
      using Cons.prems by (simp add: Some scan_entries_take Let_def)
    also have "\<dots> = take MAX_FILES (out @ List.map_filter gguf_of es @ concat (map (listed walk) rs))"
      using Cons.IH [of ?out] by (auto simp: min_def not_le)
    finally show ?thesis by (simp only: list.map concat.simps l)
  qed (use Cons in \<open>simp add: listed_def map_filter_simps\<close>)
qed simp

text \<open>
  The scan returns, newest first, the first thousand model files of the listings in the order of the
  roots, each with the size and the time of its entry.
\<close>

lemma model_scan:
  "mset (scan_blocking walk roots) = mset (take 1000 (concat (map (listed walk) roots)))
   \<and> sorted_wrt (\<lambda>f g. gf_modified_at g \<le> gf_modified_at f) (scan_blocking walk roots)"
proof -
  have "scan_blocking walk roots = sort_key (\<lambda>f. - int (gf_modified_at f)) (take 1000 (concat (map (listed walk) roots)))"
    by (simp add: scan_blocking_def scan_roots_take MAX_FILES_def)
  moreover have "sorted (map (\<lambda>f. - int (gf_modified_at f)) (scan_blocking walk roots))" by (simp add: scan_blocking_def)
  ultimately show ?thesis by (simp add: sorted_wrt_map)
qed

section \<open>Recommendation\<close>

text \<open>
  A runtime is recommended exactly when Ollama has a model or a model file was found. The emptiness
  test is stricter: a llama.cpp binary alone is not empty and yet recommends nothing.
\<close>

lemma recommended_iff:
  "recommended_runtime_of d = None \<longleftrightarrow>
     (case dt_ollama d of Some info \<Rightarrow> oi_models info = [] | None \<Rightarrow> True) \<and> dt_gguf_files d = []"
  by (auto simp: recommended_runtime_of_def Let_def split: option.splits list.splits)

lemma empty_iff: "detection_is_empty d \<longleftrightarrow> recommended_runtime_of d = None \<and> dt_llama_cpp d = None"
  by (auto simp: detection_is_empty_def recommended_iff)

section \<open>The download\<close>

lemma stream_chunks_complete:
  assumes "stream_chunks total_bytes cs written downloaded calls = (True, written', downloaded', calls')"
    and "list_all (\<lambda>c. case c of Some b \<Rightarrow> length b < 2 ^ 64 | None \<Rightarrow> True) cs"
  shows "\<exists>bs. cs = map Some bs \<and> written' = written @ concat bs \<and> length calls' = length calls + length bs
    \<and> unat downloaded' = min (unat downloaded + length (concat bs)) (2 ^ 64 - 1)"
  using assms
proof (induction total_bytes cs written downloaded calls rule: stream_chunks.induct)
  case (1 total_bytes written downloaded calls)
  have "unat downloaded \<le> 2 ^ 64 - 1" using unsigned_less [of downloaded, where ?'a = nat] by simp
  with 1 show ?case by auto
next
  case (3 total_bytes chunk cs written downloaded calls)
  then obtain bs where bs: "cs = map Some bs" "written' = (written @ chunk) @ concat bs"
      "length calls' = Suc (length calls) + length bs"
      "unat downloaded' = min (unat (saturating_add downloaded (of_nat (length chunk))) + length (concat bs)) (2 ^ 64 - 1)"
    by (auto simp: Let_def)
  have "unat (of_nat (length chunk) :: u64) = length chunk" using "3.prems"(2) by (simp add: unat_of_nat)
  then have "unat downloaded' = min (unat downloaded + length (concat (chunk # bs))) (2 ^ 64 - 1)"
    unfolding bs(4) unat_saturating_add by auto
  with bs show ?case by (intro exI [of _ "chunk # bs"]) simp
qed simp

text \<open>
  A download that succeeds received every chunk: the file is their concatenation, the reported digest
  is the digest of the file, the verified flag says whether it is the expected one, the byte count is
  the length (saturating) and progress was reported once per chunk.
\<close>

theorem download_exact:
  assumes "download_to_path P get model dest files = (Inr r, files', calls)"
    and "\<And>resp. get (ms_url model) = Some resp \<Longrightarrow> list_all (\<lambda>c. case c of Some b \<Rightarrow> length b < 2 ^ 64 | None \<Rightarrow> True) (hr_chunks resp)"
  shows "\<exists>resp bs. get (ms_url model) = Some resp \<and> \<not> is_error_status (hr_status resp) \<and> hr_chunks resp = map Some bs
    \<and> files' = files(dest \<mapsto> concat bs) \<and> dr_sha256 r = hex_lower (sha256 P (concat bs))
    \<and> (dr_sha256_verified r \<longleftrightarrow> dr_sha256 r = ms_expected_sha256 model)
    \<and> unat (dr_bytes_written r) = min (length (concat bs)) (2 ^ 64 - 1) \<and> length calls = length bs"
proof -
  obtain resp where resp: "get (ms_url model) = Some resp" "\<not> is_error_status (hr_status resp)"
    using assms(1) by (auto simp: download_to_path_def split: option.splits if_splits)
  define t where "t = (case hr_content_length resp of Some n \<Rightarrow> n | None \<Rightarrow> ms_expected_size_bytes model)"
  obtain ok w n cl where st: "stream_chunks t (hr_chunks resp) [] 0 [] = (ok, w, n, cl)" by (metis prod_cases4)
  have r: "ok" "files' = files(dest \<mapsto> w)" "calls = cl"
      "r = \<lparr>dr_model = model, dr_path = dest, dr_bytes_written = n, dr_sha256 = hex_lower (sha256 P w),
         dr_sha256_verified = (hex_lower (sha256 P w) = ms_expected_sha256 model)\<rparr>"
    using assms(1) resp st by (auto simp: download_to_path_def t_def Let_def split: if_splits)
  from stream_chunks_complete [OF st [unfolded eqTrueI [OF r(1)]] assms(2) [OF resp(1)]]
  obtain bs where "hr_chunks resp = map Some bs" "w = concat bs" "length cl = length bs"
      "unat n = min (length (concat bs)) (2 ^ 64 - 1)" by auto
  with resp r show ?thesis by (intro exI [of _ resp] exI [of _ bs]) simp
qed

lemma digest_text_length: "sha256_ok P \<Longrightarrow> length (hex_lower (sha256 P m)) = 64"
  by (simp add: length_hex_lower sha256_ok_def)

text \<open>
  What a directory walk reports (\<open>walkdir\<close> to depth six, without links, in readable directories): under
  every root exactly the files that are there, each with its length and its time.
\<close>

definition below_root :: "string \<Rightarrow> string \<Rightarrow> bool" where
  "below_root dir p \<longleftrightarrow> (\<exists>rest. p = dir @ ''/'' @ rest \<and> length (filter (\<lambda>c. c = CHR ''/'') rest) < 6)"

definition lists_files :: "(string \<Rightarrow> dir_entry list option) \<Rightarrow> (string \<Rightarrow> nat) \<Rightarrow> (string \<Rightarrow> bytes option) \<Rightarrow> bool" where
  "lists_files walk mtime files \<longleftrightarrow> (\<forall>dir. set (filter de_is_file (case walk dir of Some es \<Rightarrow> es | None \<Rightarrow> [])) =
     {\<lparr>de_path = p, de_is_file = True, de_meta = Some (length b, mtime p)\<rparr> | p b. files p = Some b \<and> below_root dir p})"

definition model_file :: "(string \<Rightarrow> nat) \<Rightarrow> string \<Rightarrow> bytes \<Rightarrow> gguf_file" where
  "model_file mtime p b = \<lparr>gf_path = p, gf_size_mb = length b div (1024 * 1024), gf_modified_at = mtime p\<rparr>"

lemma listed_files:
  assumes "lists_files walk mtime files"
  shows "set (listed walk r) = {model_file mtime p b | p b. files p = Some b \<and> below_root r p \<and> is_gguf p}"
proof -
  let ?es = "case walk r of Some es \<Rightarrow> es | None \<Rightarrow> []"
  have "set (listed walk r) = {f. \<exists>e \<in> set (filter de_is_file ?es). gguf_of e = Some f}"
    by (force simp: listed_def List.map_filter_def gguf_of_def)
  also have "\<dots> = {f. \<exists>e \<in> {\<lparr>de_path = p, de_is_file = True, de_meta = Some (length b, mtime p)\<rparr> | p b.
      files p = Some b \<and> below_root r p}. gguf_of e = Some f}"
    using assms unfolding lists_files_def by simp
  also have "\<dots> = {model_file mtime p b | p b. files p = Some b \<and> below_root r p \<and> is_gguf p}"
    (is "?l = ?r")
  proof
    show "?l \<subseteq> ?r" by (auto simp: gguf_of_def model_file_def split: if_splits)
    show "?r \<subseteq> ?l"
    proof
      fix f
      assume "f \<in> ?r"
      then obtain p b where f: "f = model_file mtime p b" "files p = Some b" "below_root r p" "is_gguf p" by blast
      then have "gguf_of \<lparr>de_path = p, de_is_file = True, de_meta = Some (length b, mtime p)\<rparr> = Some f"
        by (simp add: gguf_of_def model_file_def)
      with f(2,3) show "f \<in> ?l" by blast
    qed
  qed
  finally show ?thesis .
qed

lemma scan_none: "scan_blocking walk roots = [] \<longleftrightarrow> (\<forall>r \<in> set roots. listed walk r = [])"
proof -
  have "scan_blocking walk roots = [] \<longleftrightarrow> take 1000 (concat (map (listed walk) roots)) = []"
    using model_scan [of walk roots] by (metis mset_zero_iff)
  then show ?thesis by simp
qed

lemma scan_one:
  assumes "\<And>r. r \<in> set roots \<Longrightarrow> set (listed walk r) \<subseteq> {f}" and "r \<in> set roots" and "f \<in> set (listed walk r)"
  shows "\<exists>fs. scan_blocking walk roots = f # fs"
proof -
  have "set (scan_blocking walk roots) \<subseteq> {f}"
    using model_scan [of walk roots, THEN conjunct1, THEN mset_eq_setD] assms(1) set_take_subset by fastforce
  moreover have "scan_blocking walk roots \<noteq> []" using assms(2,3) unfolding scan_none by fastforce
  ultimately show ?thesis by (cases "scan_blocking walk roots") auto
qed

text \<open>
  C33. An unverified model is kept and offered. Let a start find no model in Ollama and no model file, and
  let its download of the catalogue model succeed. Whatever bytes arrive, the model is not verified
  (its expected digest is a placeholder that is no digest), and it is the one file that was added, in
  the directory of the models. If at the next start Ollama still has no model and the files are as
  they were left, the runtime that is recommended is exactly this file.
\<close>

theorem unverified_model_is_offered:
  fixes home :: string and cache local :: "string option"
  defines "roots \<equiv> standard_roots (Some home) cache local"
    and "dest \<equiv> home @ ''/.parseh/models/tinyllama-1.1b-chat-v1.0.Q4_K_M.gguf''"
  assumes "sha256_ok P" and "lists_files walk mtime files" and "lists_files walk' mtime' files'"
    and "recommended_runtime_of (detect_all ollama llama (Some (scan_blocking walk roots)) gpu) = None"
    and "handle_llm_detection P get (Some home) (detect_all ollama llama (Some (scan_blocking walk roots)) gpu) True files
      = Some (Inr (), files')"
    and "case ollama' of Some info \<Rightarrow> oi_models info = [] | None \<Rightarrow> True"
  shows "\<exists>b r calls. download_model P get (Some home) default_recommended Consent files = (Inr r, files', calls)
      \<and> \<not> dr_sha256_verified r \<and> files dest = None \<and> files' = files(dest \<mapsto> b)
      \<and> recommended_runtime_of (detect_all ollama' llama' (Some (scan_blocking walk' roots)) gpu')
          = Some (LocalGguf dest (length b div (1024 * 1024)))"
proof -
  have model: "path_join (home @ ''/.parseh/models'') (ms_filename default_recommended) = dest"
    by (simp add: path_join_def default_recommended_def TINYLLAMA_1_1B_Q4_K_M_def dest_def)
  have gguf: "is_gguf dest"
    by (simp add: dest_def is_gguf_def extension_def file_name_def rsplit_once_def ascii_lower_def Let_def)
  have root: "home @ ''/.parseh/models'' \<in> set roots" by (simp add: roots_def standard_roots_def)
  have inside: "below_root (home @ ''/.parseh/models'') dest"
    unfolding below_root_def dest_def by (intro exI [of _ "''tinyllama-1.1b-chat-v1.0.Q4_K_M.gguf''"]) simp
  have "listed walk r = []" if "r \<in> set roots" for r
    using assms(6) that by (simp add: recommended_iff detect_all_def scan_none)
  then have none: "files p = None" if "r \<in> set roots" "below_root r p" "is_gguf p" for r p
    using listed_files [OF assms(4), of r] that by (cases "files p") auto
  obtain r calls where dl: "download_model P get (Some home) default_recommended Consent files = (Inr r, files', calls)"
    using assms(6,7) by (auto simp: handle_llm_detection_def obtain_consent_def split: prod.splits sum.splits)
  then have "download_to_path P get default_recommended dest files = (Inr r, files', calls)"
    using none [OF root inside gguf] by (simp add: download_model_def default_models_dir_def model Let_def)
  then obtain b where b: "files' = files(dest \<mapsto> b)"
      "dr_sha256_verified r \<longleftrightarrow> hex_lower (sha256 P b) = ms_expected_sha256 default_recommended"
    by (auto simp: download_to_path_def Let_def split: option.splits if_splits prod.splits)
  have "length (ms_expected_sha256 default_recommended) \<noteq> 64"
    by (simp add: default_recommended_def TINYLLAMA_1_1B_Q4_K_M_def)
  then have "\<not> dr_sha256_verified r" using b(2) digest_text_length [OF assms(3)] by metis
  moreover obtain fs where "scan_blocking walk' roots = model_file mtime' dest b # fs"
  proof -
    have "set (listed walk' r') \<subseteq> {model_file mtime' dest b}" if "r' \<in> set roots" for r'
      unfolding listed_files [OF assms(5)] using none [OF that] by (auto simp: b(1) split: if_splits)
    moreover have "model_file mtime' dest b \<in> set (listed walk' (home @ ''/.parseh/models''))"
      unfolding listed_files [OF assms(5)] using inside gguf by (auto simp: b(1))
    ultimately show thesis using scan_one [of roots walk', OF _ root] that by blast
  qed
  then have "recommended_runtime_of (detect_all ollama' llama' (Some (scan_blocking walk' roots)) gpu')
      = Some (LocalGguf dest (length b div (1024 * 1024)))"
    using assms(8) by (simp add: recommended_runtime_of_def detect_all_def model_file_def split: option.splits)
  ultimately show ?thesis using b(1) dl none [OF root inside gguf] by blast
qed

definition demo_get :: "string \<Rightarrow> http_response option" where
  "demo_get url = Some \<lparr>hr_status = 200, hr_content_length = None, hr_chunks = [Some [1, 2], Some [3]]\<rparr>"

definition demo_model_path :: string where
  "demo_model_path = ''/h/.parseh/models/tinyllama-1.1b-chat-v1.0.Q4_K_M.gguf''"

definition demo_walk :: "string \<Rightarrow> dir_entry list option" where
  "demo_walk r = (if below_root r demo_model_path
     then Some [\<lparr>de_path = demo_model_path, de_is_file = True, de_meta = Some (3, 9)\<rparr>] else None)"

theorem unverified_model_is_offered_witness:
  "handle_llm_detection demo_prims demo_get (Some ''/h'') (detect_all None None (Some []) None) True Map.empty
      = Some (Inr (), [demo_model_path \<mapsto> [1, 2, 3]])
    \<and> sha256_ok demo_prims \<and> lists_files demo_walk (\<lambda>_. 9) [demo_model_path \<mapsto> [1, 2, 3]]
    \<and> recommended_runtime_of (detect_all None None (Some (scan_blocking demo_walk (standard_roots (Some ''/h'') None None))) None)
        = Some (LocalGguf demo_model_path 0)"
proof -
  let ?none = "\<lambda>_ :: string. None :: dir_entry list option"
  have scan: "scan_blocking ?none roots = []" for roots by (simp add: scan_none listed_def map_filter_simps)
  have none: "recommended_runtime_of (detect_all None None (Some []) None) = None"
    by (simp add: recommended_iff detect_all_def)
  have run: "handle_llm_detection demo_prims demo_get (Some ''/h'') (detect_all None None (Some []) None) True Map.empty
      = Some (Inr (), [demo_model_path \<mapsto> [1, 2, 3]])"
    using none by (simp add: handle_llm_detection_def obtain_consent_def download_model_def default_models_dir_def download_to_path_def
        demo_get_def is_error_status_def Let_def path_join_def default_recommended_def TINYLLAMA_1_1B_Q4_K_M_def demo_model_path_def)
  have before: "lists_files ?none (\<lambda>_. 9) Map.empty" by (simp add: lists_files_def)
  have after: "lists_files demo_walk (\<lambda>_. 9) [demo_model_path \<mapsto> [1, 2, 3]]"
    unfolding lists_files_def demo_walk_def by (auto split: if_splits)
  let ?m = "[1, 2, 3] :: bytes"
  obtain b where b: "[demo_model_path \<mapsto> ?m] = [''/h/.parseh/models/tinyllama-1.1b-chat-v1.0.Q4_K_M.gguf'' \<mapsto> b]"
    and rec: "recommended_runtime_of (detect_all None None (Some (scan_blocking demo_walk (standard_roots (Some ''/h'') None None))) None)
        = Some (LocalGguf ''/h/.parseh/models/tinyllama-1.1b-chat-v1.0.Q4_K_M.gguf'' (length b div (1024 * 1024)))"
    using unverified_model_is_offered [of demo_prims ?none "\<lambda>_. 9" Map.empty demo_walk "\<lambda>_. 9" "[demo_model_path \<mapsto> ?m]"
        None None "''/h''" None None None demo_get None None None, unfolded scan, OF demo_ok(2) before after none run]
    by auto
  have "b = ?m" using map_upd_eqD1 [OF b [unfolded demo_model_path_def]] by simp
  then have "recommended_runtime_of (detect_all None None (Some (scan_blocking demo_walk (standard_roots (Some ''/h'') None None))) None)
        = Some (LocalGguf demo_model_path 0)"
    using rec by (simp add: demo_model_path_def)
  with run after demo_ok(2) show ?thesis by blast
qed

theorem download_exact_witness:
  "\<exists>r files' calls. download_to_path demo_prims demo_get default_recommended ''/m'' Map.empty = (Inr r, files', calls)
     \<and> files' = [''/m'' \<mapsto> [1, 2, 3]] \<and> unat (dr_bytes_written r) = 3 \<and> length calls = 2"
proof -
  obtain r files' calls where run: "download_to_path demo_prims demo_get default_recommended ''/m'' Map.empty = (Inr r, files', calls)"
    by (simp add: download_to_path_def demo_get_def is_error_status_def Let_def)
  have "\<exists>resp bs. demo_get (ms_url default_recommended) = Some resp \<and> \<not> is_error_status (hr_status resp) \<and> hr_chunks resp = map Some bs
    \<and> files' = Map.empty(''/m'' \<mapsto> concat bs) \<and> dr_sha256 r = hex_lower (sha256 demo_prims (concat bs))
    \<and> (dr_sha256_verified r \<longleftrightarrow> dr_sha256 r = ms_expected_sha256 default_recommended)
    \<and> unat (dr_bytes_written r) = min (length (concat bs)) (2 ^ 64 - 1) \<and> length calls = length bs"
    by (rule download_exact [OF run]) (simp add: demo_get_def)
  then show ?thesis using run by (auto simp: demo_get_def map_eq_Cons_conv Cons_eq_map_conv)
qed

end
