(* ===== verification/Orders.thy ===== *)
theory Orders
  imports Miner Demo_Prims Rust_Str
begin

text \<open>
  The legacy request-response path of the miner: orders and results (\<open>server/miner/src/orders.rs\<close>) and the two
  executors that answer them (\<open>server/miner/src/executor.rs\<close>). The crate version is the argument \<open>ver\<close> and the
  measured time \<open>wall_ms\<close>; the reasons of a refusal are kept as their cause.
\<close>

section \<open>Orders and results\<close>

record job_order =
  jd_job_id :: bytes
  jd_model :: string
  jd_prompt_hash :: bytes
  jd_prompt :: string
  jd_max_tokens :: u32
  jd_bounty_upar :: u64

datatype decline_reason = NoRelayService | NoInferenceService | ModelNotAdvertised string

datatype order_outcome = OrderOk | Declined decline_reason | OrderError string

record order_result =
  ot_job_id :: bytes
  ot_outcome :: order_outcome
  ot_tokens_used :: u32
  ot_wall_ms :: u64
  ot_completion :: "string option"

definition order_declined :: "bytes \<Rightarrow> decline_reason \<Rightarrow> order_result" where
  "order_declined job_id reason = \<lparr>ot_job_id = job_id, ot_outcome = Declined reason, ot_tokens_used = 0, ot_wall_ms = 0,
     ot_completion = None\<rparr>"

definition order_ok :: "bytes \<Rightarrow> string \<Rightarrow> u32 \<Rightarrow> u64 \<Rightarrow> order_result" where
  "order_ok job_id completion tokens_used wall_ms = \<lparr>ot_job_id = job_id, ot_outcome = OrderOk, ot_tokens_used = tokens_used,
     ot_wall_ms = wall_ms, ot_completion = Some completion\<rparr>"

section \<open>Executors\<close>

text \<open>\<open>chars().take(n)\<close> on well-formed text.\<close>

fun take_chars :: "nat \<Rightarrow> nat list \<Rightarrow> nat list" where
  "take_chars 0 bs = []"
| "take_chars (Suc n) bs = (case char_length bs of None \<Rightarrow> [] | Some k \<Rightarrow> take k bs @ take_chars n (drop k bs))"

definition preview :: "string \<Rightarrow> string" where
  "preview s = map char_of (take_chars 40 (char_codes s))"

definition middle_dot :: string where
  "middle_dot = [CHR 0xC2, CHR 0xB7]"

definition em_dash :: string where
  "em_dash = [CHR 0xE2, CHR 0x80, CHR 0x94]"

definition echo_execute :: "string \<Rightarrow> u64 \<Rightarrow> job_order \<Rightarrow> node_capabilities \<Rightarrow> order_result" where
  "echo_execute ver wall_ms order caps =
     (if jd_model order = ''relay'' \<and> \<not> nc_relay caps then order_declined (jd_job_id order) NoRelayService
      else if jd_model order \<noteq> ''relay'' \<and> \<not> nc_inference caps then order_declined (jd_job_id order) NoInferenceService
      else if jd_model order \<noteq> ''relay'' \<and> nc_model_tags caps \<noteq> [] \<and> \<not> list_ex (\<lambda>t. t = jd_model order) (nc_model_tags caps)
        then order_declined (jd_job_id order) (ModelNotAdvertised (jd_model order))
      else
        let completion = ''parseh-miner v'' @ ver @ '' '' @ middle_dot @ '' echo response'' @ [CHR 0x0A]
              @ ''received model='' @ [CHR 0x27] @ jd_model order @ [CHR 0x27] @ '', max_tokens='' @ show_base 10 (unat (jd_max_tokens order))
              @ '', prompt_hash='' @ hex_lower (take 8 (jd_prompt_hash order)) @ [CHR 0x0A]
              @ ''prompt preview: '' @ preview (jd_prompt order) @ [CHR 0x0A]
              @ ''(this miner runs the echo executor '' @ em_dash @ '' replace with llama-cpp-2 to serve real inference)''
        in order_ok (jd_job_id order) completion 0 wall_ms)"

text \<open>The digest is cut to its last 16 hexadecimal digits; the subtraction would panic on a shorter text.\<close>

definition canary_execute :: "prims \<Rightarrow> string \<Rightarrow> u64 \<Rightarrow> job_order \<Rightarrow> node_capabilities \<Rightarrow> order_result option" where
  "canary_execute P ver wall_ms order caps =
     (if jd_model order = ''relay'' \<and> \<not> nc_relay caps then Some (order_declined (jd_job_id order) NoRelayService)
      else if jd_model order \<noteq> ''relay'' \<and> \<not> nc_inference caps then Some (order_declined (jd_job_id order) NoInferenceService)
      else if jd_model order \<noteq> ''relay'' \<and> nc_model_tags caps \<noteq> [] \<and> \<not> list_ex (\<lambda>t. t = jd_model order) (nc_model_tags caps)
        then Some (order_declined (jd_job_id order) (ModelNotAdvertised (jd_model order)))
      else
        let hex_hash_full = hex_lower (sha256 P (ascii_bytes (jd_prompt order)));
            tokens_used = of_nat (length (jd_prompt order) div 4)
        in if length hex_hash_full < 16 then None
           else Some (order_ok (jd_job_id order)
             (''CanaryExecutor v'' @ ver @ '' '' @ middle_dot @ '' prompt_hash='' @ drop (length hex_hash_full - 16) hex_hash_full
               @ '' '' @ middle_dot @ '' tokens~'' @ show_base 10 (unat (tokens_used :: u32)))
             tokens_used wall_ms))"

definition default_executor :: "bool \<Rightarrow> prims \<Rightarrow> string \<Rightarrow> u64 \<Rightarrow> job_order \<Rightarrow> node_capabilities \<Rightarrow> order_result option" where
  "default_executor canary P ver wall_ms order caps =
     (if canary then canary_execute P ver wall_ms order caps else Some (echo_execute ver wall_ms order caps))"

section \<open>Swapping executors\<close>

text \<open>When the node serves an order: the service is advertised and the model, if tags are listed, is among them.\<close>

definition serves :: "node_capabilities \<Rightarrow> string \<Rightarrow> bool" where
  "serves caps model \<longleftrightarrow> (if model = ''relay'' then nc_relay caps
     else nc_inference caps \<and> (nc_model_tags caps = [] \<or> model \<in> set (nc_model_tags caps)))"

text \<open>
  The two executors are interchangeable at their interface: neither panics, both answer with the id of
  the order, both serve exactly the orders the capabilities admit, and on every other order their
  answers are equal, with the same reason and without a completion.
\<close>

theorem executors_agree_on_refusals:
  assumes "sha256_ok P"
  shows "\<exists>e c. default_executor False P ver w order caps = Some e \<and> default_executor True P ver w order caps = Some c
    \<and> ot_job_id e = jd_job_id order \<and> ot_job_id c = jd_job_id order
    \<and> (if serves caps (jd_model order) then ot_outcome e = OrderOk \<and> ot_outcome c = OrderOk
       else e = c \<and> ot_completion e = None \<and> (\<exists>reason. ot_outcome e = Declined reason))"
proof -
  have "length (sha256 P (ascii_bytes (jd_prompt order))) = 32" using assms by (simp add: sha256_ok_def)
  then show ?thesis
    by (auto simp: default_executor_def echo_execute_def canary_execute_def serves_def order_ok_def order_declined_def
        length_hex_lower Let_def list_ex_iff)
qed

theorem executors_agree_on_refusals_witness:
  "\<exists>e. default_executor False demo_prims ''0.2'' 1 \<lparr>jd_job_id = [1], jd_model = ''qwen'', jd_prompt_hash = [], jd_prompt = ''hi'',
      jd_max_tokens = 5, jd_bounty_upar = 0\<rparr> \<lparr>nc_relay = True, nc_inference = True, nc_gpu_memory_mb = 0, nc_model_tags = [''llama''],
      nc_uplink_mbps = 0\<rparr> = Some e \<and> ot_outcome e = Declined (ModelNotAdvertised ''qwen'') \<and> ot_job_id e = [1] \<and> sha256_ok demo_prims"
  using executors_agree_on_refusals [OF demo_ok(2), of "''0.2''" 1 "\<lparr>jd_job_id = [1], jd_model = ''qwen'', jd_prompt_hash = [],
      jd_prompt = ''hi'', jd_max_tokens = 5, jd_bounty_upar = 0\<rparr>" "\<lparr>nc_relay = True, nc_inference = True, nc_gpu_memory_mb = 0,
      nc_model_tags = [''llama''], nc_uplink_mbps = 0\<rparr>"] demo_ok(2)
  by (auto simp: default_executor_def echo_execute_def order_declined_def)

text \<open>The preview of well-formed text is well-formed and a prefix of it.\<close>

lemma char_length_utf8: "utf8 bs \<Longrightarrow> bs \<noteq> [] \<Longrightarrow> \<exists>k. char_length bs = Some k \<and> utf8 (take k bs) \<and> utf8 (drop k bs)"
  by (cases rule: utf8.cases) (auto simp: check_utf8_iff check_utf8.simps(2) utf8_leads numeral_2_eq_2 numeral_3_eq_3 split: if_splits)

lemma utf8_append: "utf8 xs \<Longrightarrow> utf8 ys \<Longrightarrow> utf8 (xs @ ys)"
  by (induction rule: utf8.induct) (auto intro: utf8.intros)

lemma take_chars_utf8: "utf8 bs \<Longrightarrow> utf8 (take_chars n bs) \<and> (\<exists>r. bs = take_chars n bs @ r)"
proof (induction n bs rule: take_chars.induct)
  case (2 n bs)
  show ?case
  proof (cases "bs = []")
    case False
    then obtain k where k: "char_length bs = Some k" "utf8 (take k bs)" "utf8 (drop k bs)"
      using char_length_utf8 [OF "2.prems"] by blast
    from "2.IH" [OF k(1,3)] obtain r where "utf8 (take_chars n (drop k bs))" "drop k bs = take_chars n (drop k bs) @ r" by blast
    with k show ?thesis by (auto intro!: utf8_append exI [of _ r])
  qed (simp add: utf8_nil)
qed (simp add: utf8_nil)

end
