(* ===== verification/Wallet.thy ===== *)
theory Wallet
  imports Wire Rust_Str
begin

text \<open>
  The wallet primitives (\<open>server/wallet/src/lib.rs\<close>): signing with an ed25519 key pair and the bech32 text of
  public keys. The bech32 package is a parameter.
\<close>

section \<open>Addresses\<close>

definition BECH32_HRP :: string where
  "BECH32_HRP = ''parseh''"

text \<open>
  \<open>b32_encode\<close> is \<open>None\<close> for a prefix that \<open>Hrp::parse\<close> refuses; \<open>b32_decode\<close> returns the prefix and the payload. The
  package documents that decoding inverts encoding, with the prefix in lower case.
\<close>

record bech32 =
  b32_encode :: "string \<Rightarrow> bytes \<Rightarrow> string option"
  b32_decode :: "string \<Rightarrow> (string \<times> bytes) option"

definition bech32_ok :: "bech32 \<Rightarrow> bool" where
  "bech32_ok B \<longleftrightarrow> (\<forall>hrp b s. b32_encode B hrp b = Some s \<longrightarrow> (\<exists>hrp'. b32_decode B s = Some (hrp', b)))
     \<and> (\<forall>b. length b = 32 \<longrightarrow> b32_encode B BECH32_HRP b \<noteq> None)"

datatype wallet_error = NoKey | Rpc string | Bech32Error | InvalidLength nat nat

datatype address = Address (address_bytes: bytes)

definition show_address :: "bech32 \<Rightarrow> address \<Rightarrow> string option" where
  "show_address B a = b32_encode B BECH32_HRP (address_bytes a)"

section \<open>Key pairs\<close>

record wallet_keypair =
  wk_signing_key :: bytes

definition wallet_sign :: "prims \<Rightarrow> wallet_keypair \<Rightarrow> bytes \<Rightarrow> bytes" where
  "wallet_sign P kp msg = ed_sign P (wk_signing_key kp) msg"

definition wallet_public_key :: "prims \<Rightarrow> wallet_keypair \<Rightarrow> bytes" where
  "wallet_public_key P kp = ed_public P (wk_signing_key kp)"

definition wallet_verify :: "prims \<Rightarrow> bytes \<Rightarrow> bytes \<Rightarrow> bytes \<Rightarrow> bool" where
  "wallet_verify P verifying_key msg sig \<longleftrightarrow> ed_valid_key P verifying_key \<and> ed_verify P verifying_key msg sig"

text \<open>An invalid prefix is a panic.\<close>

definition to_bech32 :: "prims \<Rightarrow> bech32 \<Rightarrow> wallet_keypair \<Rightarrow> string \<Rightarrow> string option" where
  "to_bech32 P B kp hrp = b32_encode B hrp (wallet_public_key P kp)"

definition from_bech32 :: "bech32 \<Rightarrow> string \<Rightarrow> wallet_error + bytes" where
  "from_bech32 B s = (case b32_decode B s of
       None \<Rightarrow> Inl Bech32Error
     | Some (_, data) \<Rightarrow> if length data \<noteq> 32 then Inl (InvalidLength 32 (length data)) else Inr data)"

definition hex_short :: "bytes \<Rightarrow> string" where
  "hex_short b = hex_lower (take 4 b) @ [CHR 0xE2, CHR 0x80, CHR 0xA6]"

text \<open>
  The text of a public key under any prefix reads back as that key, under which what the wallet signs
  verifies; the prefix itself plays no part in reading.
\<close>

lemma wallet_address_roundtrip:
  assumes "bech32_ok B" and "ed25519_ok P" and "length (wallet_public_key P kp) = 32"
    and "ed_valid_key P (wallet_public_key P kp)" and "to_bech32 P B kp hrp = Some s"
  shows "\<exists>pk. from_bech32 B s = Inr pk \<and> pk = wallet_public_key P kp \<and> wallet_verify P pk msg (wallet_sign P kp msg)"
proof -
  obtain hrp' where "b32_decode B s = Some (hrp', wallet_public_key P kp)"
    using assms(1,5) unfolding bech32_ok_def to_bech32_def by blast
  then have "from_bech32 B s = Inr (wallet_public_key P kp)" using assms(3) by (simp add: from_bech32_def)
  moreover have "wallet_verify P (wallet_public_key P kp) msg (wallet_sign P kp msg)"
    using assms(2,4) by (simp add: wallet_verify_def wallet_sign_def wallet_public_key_def ed25519_ok_def)
  ultimately show ?thesis by blast
qed

text \<open>The address of a public key always has a text, and it reads back as the key.\<close>

lemma address_text_reads_back:
  assumes "bech32_ok B" and "length (address_bytes a) = 32"
  shows "\<exists>s. show_address B a = Some s \<and> from_bech32 B s = Inr (address_bytes a)"
proof -
  obtain s where s: "show_address B a = Some s" using assms by (auto simp: bech32_ok_def show_address_def)
  then obtain hrp' where "b32_decode B s = Some (hrp', address_bytes a)"
    using assms(1) unfolding bech32_ok_def show_address_def by blast
  with s assms(2) show ?thesis by (simp add: from_bech32_def)
qed

end
