(* ===== verification/Harness.thy ===== *)
theory Harness
  imports Miner
begin

text \<open>
  What the node loops of the two in-process networks share (\<open>server/parseh-testnet/src/node.rs\<close> and
  \<open>server/parseh-chaos/src/scenario.rs\<close>): the cached tasks with their open quorums, finalisation, the
  reputation cache with its guard against double rewards, the deterministic executor and the verdict
  of an honest verifier. The loop is a record that the two theories extend. What is handed to gossipsub is
  appended to \<open>lp_published\<close>. A method takes the loop and returns its result with the loop, which an error
  does not undo.
\<close>

section \<open>State\<close>

record task_state =
  ts_spec :: job_spec
  ts_observed_result :: "job_result option"
  ts_quorum :: "quorum option"
  ts_finalised :: bool
  ts_self_executed :: bool
  ts_self_verified :: bool

type_synonym reputation_key = "peer_id \<times> chash option \<times> string"

record node_loop =
  lp_peer_id :: peer_id
  lp_signing_key :: bytes
  lp_shared :: store
  lp_quorum_config :: quorum_config
  lp_tasks :: "(chash \<times> task_state) list"
  lp_reputation_local :: "(peer_id \<times> int) list"
  lp_applied_keys :: "reputation_key set"
  lp_published :: "(topic \<times> bytes) list"

datatype loop_error =
    LoopStore store_error
  | LoopVerify verify_error
  | LoopDecode
  | LoopNoKey peer_id
  | LoopSignature
  | LoopPublish

type_synonym 's outcome_of = "(loop_error + unit) \<times> 's"

definition and_then :: "'s outcome_of \<Rightarrow> ('s \<Rightarrow> 's outcome_of) \<Rightarrow> 's outcome_of" where
  "and_then r f = (case r of (Inl e, n) \<Rightarrow> (Inl e, n) | (Inr _, n) \<Rightarrow> f n)"

definition publish :: "topic \<Rightarrow> bytes \<Rightarrow> 'a node_loop_scheme \<Rightarrow> 'a node_loop_scheme" where
  "publish t b n = n\<lparr>lp_published := lp_published n @ [(t, b)]\<rparr>"

definition task_new :: "job_spec \<Rightarrow> task_state" where
  "task_new spec = \<lparr>ts_spec = spec, ts_observed_result = None, ts_quorum = None, ts_finalised = False,
     ts_self_executed = False, ts_self_verified = False\<rparr>"

text \<open>\<open>entry(k).or_insert(v)\<close>, and an update in place of an entry that exists.\<close>

definition or_insert :: "'k \<Rightarrow> 'v \<Rightarrow> ('k \<times> 'v) list \<Rightarrow> ('k \<times> 'v) list" where
  "or_insert k v m = (if map_of m k = None then m @ [(k, v)] else m)"

definition modify_entry :: "'k \<Rightarrow> ('v \<Rightarrow> 'v) \<Rightarrow> ('k \<times> 'v) list \<Rightarrow> ('k \<times> 'v) list" where
  "modify_entry k f m = (case map_of m k of None \<Rightarrow> m | Some v \<Rightarrow> AList.update k (f v) m)"

section \<open>Recording\<close>

definition open_task :: "prims \<Rightarrow> system_time \<Rightarrow> job_spec \<Rightarrow> 'a node_loop_scheme \<Rightarrow> 'a node_loop_scheme outcome_of" where
  "open_task P now spec n =
     (case record_spec P (now_unix now) (lp_shared n) spec of
        Inl e \<Rightarrow> (Inl (LoopStore e), n)
      | Inr st \<Rightarrow> (Inr (), n\<lparr>lp_shared := st, lp_tasks := or_insert (spec_content_hash P spec) (task_new spec) (lp_tasks n)\<rparr>))"

text \<open>The first result seen for a cached task opens its quorum.\<close>

definition attach_result :: "prims \<Rightarrow> system_time \<Rightarrow> job_result \<Rightarrow> 'a node_loop_scheme \<Rightarrow> 'a node_loop_scheme" where
  "attach_result P now result n = n\<lparr>lp_tasks := modify_entry (jr_spec_hash result)
     (\<lambda>t. if ts_observed_result t = None
        then t\<lparr>ts_observed_result := Some result,
          ts_quorum := Some (quorum_new (lp_quorum_config n) (jr_spec_hash result) (result_content_hash P result) now)\<rparr>
        else t) (lp_tasks n)\<rparr>"

definition open_for :: "prims \<Rightarrow> chash \<Rightarrow> (chash \<times> task_state) list \<Rightarrow> (chash \<times> task_state) option" where
  "open_for P result_hash tasks = List.find (\<lambda>(_, t). ts_quorum t \<noteq> None \<and>
     (case ts_observed_result t of None \<Rightarrow> False | Some r \<Rightarrow> result_content_hash P r = result_hash)) tasks"

text \<open>
  A recorded verification is added to the quorum open for its result, with the weight 100 of every
  verifier; the answer is the task to finalise, if any.
\<close>

definition add_vote ::
    "prims \<Rightarrow> (peer_id \<Rightarrow> bytes option) \<Rightarrow> job_verification \<Rightarrow> 'a node_loop_scheme
       \<Rightarrow> (loop_error + chash option) \<times> 'a node_loop_scheme" where
  "add_vote P key_of v n =
     (case open_for P (jv_result_hash v) (lp_tasks n) of
        None \<Rightarrow> (Inr None, n)
      | Some (spec_hash, t) \<Rightarrow>
        (case key_of (jv_verifier v) of
           None \<Rightarrow> (Inr None, n)
         | Some key \<Rightarrow>
           (case add_verification P (the (ts_quorum t)) v 100 key of
              Inr q \<Rightarrow> (Inr (if ts_finalised t then None else Some spec_hash),
                n\<lparr>lp_tasks := AList.update spec_hash (t\<lparr>ts_quorum := Some q\<rparr>) (lp_tasks n)\<rparr>)
            | Inl (Internal (DuplicateVerifier _)) \<Rightarrow> (Inr None, n)
            | Inl (Internal (ResultHashMismatch _ _)) \<Rightarrow> (Inr None, n)
            | Inl e \<Rightarrow> (Inl (LoopVerify e), n))))"

definition try_finalise_quorum :: "prims \<Rightarrow> system_time \<Rightarrow> chash \<Rightarrow> 'a node_loop_scheme \<Rightarrow> 'a node_loop_scheme outcome_of" where
  "try_finalise_quorum P now spec_hash n =
     (case map_of (lp_tasks n) spec_hash of
        None \<Rightarrow> (Inr (), n)
      | Some t \<Rightarrow>
        if ts_finalised t then (Inr (), n)
        else (case ts_quorum t of
           None \<Rightarrow> (Inr (), n)
         | Some q \<Rightarrow>
           (case try_finalise P q now (unix_now now) (lp_peer_id n) (lp_signing_key n) of
              None \<Rightarrow> (Inr (), n)
            | Some fin \<Rightarrow>
              (let n = n\<lparr>lp_tasks := AList.update spec_hash (t\<lparr>ts_finalised := True\<rparr>) (lp_tasks n)\<rparr>
               in case record_outcome P (now_unix now) (lp_shared n) (fq_outcome fin) of
                    Inl e \<Rightarrow> (Inl (LoopStore e), n)
                  | Inr st \<Rightarrow> (Inr (), n\<lparr>lp_shared := st\<rparr>)))))"

definition finalise_voted :: "prims \<Rightarrow> system_time \<Rightarrow> (loop_error + chash option) \<times> 'a node_loop_scheme \<Rightarrow> 'a node_loop_scheme outcome_of" where
  "finalise_voted P now r = (case r of
       (Inl e, n) \<Rightarrow> (Inl e, n)
     | (Inr None, n) \<Rightarrow> (Inr (), n)
     | (Inr (Some spec_hash), n) \<Rightarrow> try_finalise_quorum P now spec_hash n)"

definition local_reputation :: "'a node_loop_scheme \<Rightarrow> peer_id \<Rightarrow> int" where
  "local_reputation n p = (case map_of (lp_reputation_local n) p of None \<Rightarrow> 0 | Some r \<Rightarrow> r)"

text \<open>A reward is applied once per peer, related hash and reason.\<close>

definition apply_reputation ::
    "system_time \<Rightarrow> peer_id \<Rightarrow> i32 \<Rightarrow> string \<Rightarrow> chash option \<Rightarrow> 'a node_loop_scheme \<Rightarrow> 'a node_loop_scheme outcome_of" where
  "apply_reputation now peer delta reason related_hash n =
     (if (peer, related_hash, reason) \<in> lp_applied_keys n then (Inr (), n)
      else (case apply_reputation_delta (now_unix now) (lp_shared n) peer delta reason related_hash of
         Inl e \<Rightarrow> (Inl (LoopStore e), n)
       | Inr st \<Rightarrow> (Inr (), n\<lparr>lp_shared := st, lp_applied_keys := insert (peer, related_hash, reason) (lp_applied_keys n),
            lp_reputation_local := AList.update peer (local_reputation n peer + sint delta) (lp_reputation_local n)\<rparr>)))"

section \<open>Execution and verdicts\<close>

definition harness_execute :: "prims \<Rightarrow> local_executor" where
  "harness_execute P spec = Inr (build_executor_result P spec)"

definition execute_task :: "prims \<Rightarrow> system_time \<Rightarrow> string \<Rightarrow> job_spec \<Rightarrow> 'a node_loop_scheme \<Rightarrow> job_result" where
  "execute_task P now model spec n =
     fst (result_new_signed_at P (spec_content_hash P spec) (lp_peer_id n) (unix_now now)
       \<lparr>rm_verifier_method = Deterministic, rm_execution_time_ms = 1, rm_model_used = Some model, rm_inference_token_count = None\<rparr>
       (build_executor_result P spec) (lp_signing_key n))"

definition honest_verdict :: "prims \<Rightarrow> job_spec \<Rightarrow> job_result \<Rightarrow> loop_error + verifier_verdict" where
  "honest_verdict P spec result =
     (case deterministic_verify P (harness_execute P) spec result of
        Inl e \<Rightarrow> Inl (LoopVerify e)
      | Inr x \<Rightarrow> Inr (if vo_matched x then Agreed
          else Disagreed (case vo_evidence_hash x of Some h \<Rightarrow> h | None \<Rightarrow> zero_hash)))"

definition sign_verdict :: "prims \<Rightarrow> system_time \<Rightarrow> job_result \<Rightarrow> verifier_verdict \<Rightarrow> 'a node_loop_scheme \<Rightarrow> job_verification" where
  "sign_verdict P now result verdict n =
     fst (verification_new_signed_at P (result_content_hash P result) (lp_peer_id n) verdict Deterministic
       (unix_now now) (lp_signing_key n))"

section \<open>Publishing an outcome\<close>

definition REPUTATION_AWARD_EXECUTOR :: i32 where
  "REPUTATION_AWARD_EXECUTOR = 10"

definition signed_delta_bytes :: "prims \<Rightarrow> system_time \<Rightarrow> delta_kind \<Rightarrow> 'a node_loop_scheme \<Rightarrow> bytes" where
  "signed_delta_bytes P now kind n =
     delta_encode_cbor P (sign_delta P (delta_unsigned kind (lp_peer_id n) (unix_now now)) (lp_signing_key n))"

definition publish_deltas :: "prims \<Rightarrow> system_time \<Rightarrow> peer_id \<Rightarrow> job_outcome \<Rightarrow> 'a node_loop_scheme \<Rightarrow> 'a node_loop_scheme" where
  "publish_deltas P now executor outcome n =
     (let n = publish TopicStateDeltas (signed_delta_bytes P now (DeltaOutcome outcome) n) n
      in case jo_verdict outcome of
           Valid _ _ _ _ \<Rightarrow> publish TopicStateDeltas (signed_delta_bytes P now
             (DeltaReputation executor REPUTATION_AWARD_EXECUTOR ''executor_consensus_reward'' (Some (outcome_content_hash P outcome))) n) n
         | _ \<Rightarrow> n)"

text \<open>The task to publish for a verification: the finalised one whose observed result it is about.\<close>

definition finalised_for :: "prims \<Rightarrow> chash \<Rightarrow> (chash \<times> task_state) list \<Rightarrow> chash option" where
  "finalised_for P result_hash tasks = map_option fst (List.find (\<lambda>(_, t). ts_finalised t \<and>
     (case ts_observed_result t of None \<Rightarrow> False | Some r \<Rightarrow> result_content_hash P r = result_hash)) tasks)"

text \<open>The tick: every pending quorum is tried; those it closes are published by \<open>pub\<close>, whose errors are logged.\<close>

definition pending :: "(chash \<times> task_state) list \<Rightarrow> chash list" where
  "pending tasks = map fst (filter (\<lambda>(_, t). \<not> ts_finalised t \<and> ts_quorum t \<noteq> None) tasks)"

definition is_finalised :: "chash \<Rightarrow> 'a node_loop_scheme \<Rightarrow> bool" where
  "is_finalised spec_hash n = (case map_of (lp_tasks n) spec_hash of None \<Rightarrow> False | Some t \<Rightarrow> ts_finalised t)"

definition finalise_pending ::
    "prims \<Rightarrow> system_time \<Rightarrow> chash \<Rightarrow> 'a node_loop_scheme \<times> chash list \<Rightarrow> 'a node_loop_scheme \<times> chash list" where
  "finalise_pending P now spec_hash = (\<lambda>(n, to_publish).
     if is_finalised spec_hash n then (n, to_publish)
     else (case try_finalise_quorum P now spec_hash n of
         (Inl _, n) \<Rightarrow> (n, to_publish)
       | (Inr _, n) \<Rightarrow> (n, if is_finalised spec_hash n then to_publish @ [spec_hash] else to_publish)))"

definition finalise_tick ::
    "prims \<Rightarrow> system_time \<Rightarrow> (chash \<Rightarrow> 'a node_loop_scheme \<Rightarrow> 'a node_loop_scheme outcome_of) \<Rightarrow> 'a node_loop_scheme \<Rightarrow> 'a node_loop_scheme" where
  "finalise_tick P now pub n =
     (let (n, to_publish) = fold (finalise_pending P now) (pending (lp_tasks n)) (n, [])
      in fold (\<lambda>spec_hash n. snd (pub spec_hash n)) to_publish n)"

end
