(* ===== verification/Testnet.thy ===== *)
theory Testnet
  imports Harness
begin

text \<open>
  The node of the in-process acceptance network (\<open>server/parseh-testnet/src/node.rs\<close>): its loop state, the
  handlers of commands, gossip messages and ticks. The swarm stands outside; whether gossipsub took a
  submitted message is the argument \<open>ok\<close>. Keys come from a directory the scenario fills.
\<close>

section \<open>State\<close>

record test_loop = node_loop +
  tn_directory :: "(peer_id \<times> bytes) list"
  tn_local_reputation :: u32

definition TAG_JOB_SPEC :: u8 where
  "TAG_JOB_SPEC = 1"

definition TAG_JOB_OUTCOME :: u8 where
  "TAG_JOB_OUTCOME = 4"

definition reduced_quorum_for_test :: quorum_config where
  "reduced_quorum_for_test = \<lparr>qc_m = 2, qc_n = 3, qc_t_min = 200 * 10 ^ 6, qc_t_max = from_secs 30,
     qc_rep_weighted_threshold = f64_round (6 / 10)\<rparr>"

definition run_node_init :: "peer_id \<Rightarrow> bytes \<Rightarrow> quorum_config \<Rightarrow> (peer_id \<times> bytes) list \<Rightarrow> test_loop" where
  "run_node_init peer_id signing_key quorum_config directory =
     \<lparr>lp_peer_id = peer_id, lp_signing_key = signing_key, lp_shared = empty_store, lp_quorum_config = quorum_config,
      lp_tasks = [], lp_reputation_local = [], lp_applied_keys = {}, lp_published = [],
      tn_directory = directory, tn_local_reputation = 100\<rparr>"

section \<open>Methods of the loop\<close>

definition record_spec_locally :: "prims \<Rightarrow> system_time \<Rightarrow> job_spec \<Rightarrow> test_loop \<Rightarrow> test_loop outcome_of" where
  "record_spec_locally P now spec n = open_task P now spec n"

definition record_result_locally :: "prims \<Rightarrow> system_time \<Rightarrow> job_result \<Rightarrow> test_loop \<Rightarrow> test_loop outcome_of" where
  "record_result_locally P now result n =
     (case record_result P (now_unix now) (lp_shared n) result of
        Inl e \<Rightarrow> (Inl (LoopStore e), n)
      | Inr st \<Rightarrow> (Inr (), attach_result P now result (n\<lparr>lp_shared := st\<rparr>)))"

definition record_verification_locally :: "prims \<Rightarrow> system_time \<Rightarrow> job_verification \<Rightarrow> test_loop \<Rightarrow> test_loop outcome_of" where
  "record_verification_locally P now v n =
     (case record_verification P (now_unix now) (lp_shared n) v of
        Inl e \<Rightarrow> (Inl (LoopStore e), n)
      | Inr st \<Rightarrow> finalise_voted P now (add_vote P (map_of (tn_directory n)) v (n\<lparr>lp_shared := st\<rparr>)))"

definition record_outcome_locally :: "prims \<Rightarrow> system_time \<Rightarrow> job_outcome \<Rightarrow> test_loop \<Rightarrow> test_loop outcome_of" where
  "record_outcome_locally P now outcome n =
     (case record_outcome P (now_unix now) (lp_shared n) outcome of
        Inl e \<Rightarrow> (Inl (LoopStore e), n)
      | Inr st \<Rightarrow> (Inr (), n\<lparr>lp_shared := st\<rparr>))"

definition saturating_add_signed :: "u32 \<Rightarrow> i32 \<Rightarrow> u32" where
  "saturating_add_signed a d = word_of_int (max 0 (min (2 ^ 32 - 1) (uint a + sint d)))"

definition apply_reputation_locally ::
    "system_time \<Rightarrow> peer_id \<Rightarrow> i32 \<Rightarrow> string \<Rightarrow> chash option \<Rightarrow> test_loop \<Rightarrow> test_loop outcome_of" where
  "apply_reputation_locally now peer delta reason related_hash n =
     (if (peer, related_hash, reason) \<in> lp_applied_keys n then (Inr (), n)
      else and_then (apply_reputation now peer delta reason related_hash n) (\<lambda>n. (Inr (),
        if peer = lp_peer_id n then n\<lparr>tn_local_reputation := saturating_add_signed (tn_local_reputation n) delta\<rparr> else n)))"

record state_snapshot =
  ss_task_hashes :: "chash set"
  ss_outcomes :: "(chash \<times> job_outcome) list"
  ss_reputation :: "(peer_id \<times> int) list"

definition snapshot :: "prims \<Rightarrow> test_loop \<Rightarrow> state_snapshot" where
  "snapshot P n =
     \<lparr>ss_task_hashes = set (map fst (lp_tasks n)),
      ss_outcomes = List.map_filter (\<lambda>(h, t). if \<not> ts_finalised t then None
        else (case outcome_for_spec P (lp_shared n) h of Inr (Some x) \<Rightarrow> Some (h, x) | _ \<Rightarrow> None)) (lp_tasks n),
      ss_reputation = lp_reputation_local n\<rparr>"

definition pick_executor :: "test_loop \<Rightarrow> peer_id \<Rightarrow> peer_id option" where
  "pick_executor n submitter =
     (case sort_key peer_bytes (filter (\<lambda>p. p \<noteq> submitter) (map fst (tn_directory n))) of [] \<Rightarrow> None | p # _ \<Rightarrow> Some p)"

section \<open>Messages\<close>

definition with_key :: "test_loop \<Rightarrow> peer_id \<Rightarrow> (bytes \<Rightarrow> test_loop outcome_of) \<Rightarrow> test_loop outcome_of" where
  "with_key n peer f = (case map_of (tn_directory n) peer of None \<Rightarrow> (Inl (LoopNoKey peer), n) | Some key \<Rightarrow> f key)"

definition execute_locally :: "prims \<Rightarrow> system_time \<Rightarrow> job_spec \<Rightarrow> test_loop \<Rightarrow> test_loop outcome_of" where
  "execute_locally P now spec n =
     (let hash = spec_content_hash P spec in
      case map_of (lp_tasks n) hash of
        None \<Rightarrow> (Inr (), n)
      | Some t \<Rightarrow>
        if ts_self_executed t then (Inr (), n)
        else
          let n = n\<lparr>lp_tasks := AList.update hash (t\<lparr>ts_self_executed := True\<rparr>) (lp_tasks n)\<rparr>;
              result = execute_task P now ''harness-sha256'' spec n
          in and_then (record_result_locally P now result n)
               (\<lambda>n. (Inr (), publish TopicTasks (TAG_JOB_RESULT # to_cbor_bytes P (wr_job_result result)) n)))"

definition on_job_spec :: "prims \<Rightarrow> system_time \<Rightarrow> bytes \<Rightarrow> test_loop \<Rightarrow> test_loop outcome_of" where
  "on_job_spec P now body n =
     (case from_cbor_bytes P rd_job_spec body of
        None \<Rightarrow> (Inl LoopDecode, n)
      | Some spec \<Rightarrow> with_key n (js_submitter spec) (\<lambda>key.
          if spec_verify_signature P spec key \<noteq> Inr () then (Inl LoopSignature, n)
          else and_then (record_spec_locally P now spec n) (\<lambda>n.
            if pick_executor n (js_submitter spec) = Some (lp_peer_id n) then execute_locally P now spec n else (Inr (), n))))"

definition verify_locally :: "prims \<Rightarrow> system_time \<Rightarrow> job_result \<Rightarrow> test_loop \<Rightarrow> test_loop outcome_of" where
  "verify_locally P now result n =
     (case map_of (lp_tasks n) (jr_spec_hash result) of
        None \<Rightarrow> (Inr (), n)
      | Some t \<Rightarrow>
        if ts_self_verified t then (Inr (), n)
        else if jr_executor result = lp_peer_id n then (Inr (), n)
        else (case honest_verdict P (ts_spec t) result of
            Inl e \<Rightarrow> (Inl e, n)
          | Inr verdict \<Rightarrow>
            (let v = sign_verdict P now result verdict n;
                 n = n\<lparr>lp_tasks := modify_entry (jr_spec_hash result) (\<lambda>t. t\<lparr>ts_self_verified := True\<rparr>) (lp_tasks n)\<rparr>
             in and_then (record_verification_locally P now v n)
                  (\<lambda>n. (Inr (), publish TopicVerify (to_cbor_bytes P (wr_job_verification v)) n)))))"

definition on_job_result :: "prims \<Rightarrow> system_time \<Rightarrow> bytes \<Rightarrow> test_loop \<Rightarrow> test_loop outcome_of" where
  "on_job_result P now body n =
     (case from_cbor_bytes P rd_job_result body of
        None \<Rightarrow> (Inl LoopDecode, n)
      | Some result \<Rightarrow> with_key n (jr_executor result) (\<lambda>key.
          if result_verify_signature P result key \<noteq> Inr () then (Inl LoopSignature, n)
          else and_then (record_result_locally P now result n) (verify_locally P now result)))"

definition on_job_outcome :: "prims \<Rightarrow> system_time \<Rightarrow> bytes \<Rightarrow> test_loop \<Rightarrow> test_loop outcome_of" where
  "on_job_outcome P now body n =
     (case from_cbor_bytes P rd_job_outcome body of
        None \<Rightarrow> (Inl LoopDecode, n)
      | Some outcome \<Rightarrow> with_key n (jo_observed_by outcome) (\<lambda>key.
          if outcome_verify_signature P outcome key \<noteq> Inr () then (Inl LoopSignature, n)
          else record_outcome_locally P now outcome n))"

definition publish_outcome_and_reputation :: "prims \<Rightarrow> system_time \<Rightarrow> chash \<Rightarrow> test_loop \<Rightarrow> test_loop outcome_of" where
  "publish_outcome_and_reputation P now spec_hash n =
     (case map_of (lp_tasks n) spec_hash of
        None \<Rightarrow> (Inr (), n)
      | Some t \<Rightarrow>
        if \<not> ts_finalised t then (Inr (), n)
        else (case ts_observed_result t of
           None \<Rightarrow> (Inr (), n)
         | Some result \<Rightarrow>
           (case outcome_for_spec P (lp_shared n) spec_hash of
              Inl e \<Rightarrow> (Inl (LoopStore e), n)
            | Inr None \<Rightarrow> (Inr (), n)
            | Inr (Some outcome) \<Rightarrow>
                and_then (case jo_verdict outcome of
                    Valid _ _ _ _ \<Rightarrow> apply_reputation_locally now (jr_executor result) REPUTATION_AWARD_EXECUTOR
                      ''executor_consensus_reward'' (Some (outcome_content_hash P outcome)) n
                  | _ \<Rightarrow> (Inr (), n))
                  (\<lambda>n. (Inr (), publish_deltas P now (jr_executor result) outcome n)))))"

definition on_verification :: "prims \<Rightarrow> system_time \<Rightarrow> bytes \<Rightarrow> test_loop \<Rightarrow> test_loop outcome_of" where
  "on_verification P now payload n =
     (case from_cbor_bytes P rd_job_verification payload of
        None \<Rightarrow> (Inl LoopDecode, n)
      | Some v \<Rightarrow> with_key n (jv_verifier v) (\<lambda>key.
          if verification_verify_signature P v key \<noteq> Inr () then (Inl LoopSignature, n)
          else and_then (record_verification_locally P now v n) (\<lambda>n.
            case finalised_for P (jv_result_hash v) (lp_tasks n) of
              None \<Rightarrow> (Inr (), n)
            | Some spec_hash \<Rightarrow> publish_outcome_and_reputation P now spec_hash n)))"

text \<open>A reputation delta is applied before its signature is checked, and the result of the check is logged.\<close>

definition on_state_delta :: "prims \<Rightarrow> system_time \<Rightarrow> bytes \<Rightarrow> test_loop \<Rightarrow> test_loop outcome_of" where
  "on_state_delta P now payload n =
     (case delta_decode_cbor P payload of
        None \<Rightarrow> (Inl LoopDecode, n)
      | Some d \<Rightarrow> with_key n (sd_observer d) (\<lambda>key.
          case sd_kind d of
            DeltaOutcome _ \<Rightarrow>
              (case apply_delta P (now_unix now) (lp_shared n) d key of
                 Inl _ \<Rightarrow> (Inr (), n)
               | Inr st \<Rightarrow> (Inr (), n\<lparr>lp_shared := st\<rparr>))
          | DeltaReputation peer delta reason related_hash \<Rightarrow>
              and_then (apply_reputation_locally now peer delta reason related_hash n) (\<lambda>n.
                case verify_delta P d key of Inl _ \<Rightarrow> (Inr (), n) | Inr _ \<Rightarrow> (Inr (), n))
          | DeltaGovernanceRule _ _ _ _ \<Rightarrow> (Inr (), n)))"

definition dispatch_message :: "prims \<Rightarrow> system_time \<Rightarrow> topic \<Rightarrow> bytes \<Rightarrow> test_loop \<Rightarrow> test_loop outcome_of" where
  "dispatch_message P now t payload n =
     (case payload of
        [] \<Rightarrow> (Inr (), n)
      | tag # body \<Rightarrow>
        (case t of
           TopicTasks \<Rightarrow>
             if tag = TAG_JOB_SPEC then on_job_spec P now body n
             else if tag = TAG_JOB_RESULT then on_job_result P now body n
             else if tag = TAG_JOB_OUTCOME then on_job_outcome P now body n
             else (Inr (), n)
         | TopicVerify \<Rightarrow> on_verification P now payload n
         | TopicStateDeltas \<Rightarrow> on_state_delta P now payload n
         | TopicCaps \<Rightarrow> (Inr (), n)))"

section \<open>The loop\<close>

definition submit :: "prims \<Rightarrow> system_time \<Rightarrow> bool \<Rightarrow> job_spec \<Rightarrow> test_loop \<Rightarrow> test_loop outcome_of" where
  "submit P now ok spec n =
     and_then (record_spec_locally P now spec n) (\<lambda>n.
       if ok then (Inr (), publish TopicTasks (TAG_JOB_SPEC # to_cbor_bytes P (wr_job_spec spec)) n)
       else (Inl LoopPublish, n))"

definition test_tick :: "prims \<Rightarrow> system_time \<Rightarrow> test_loop \<Rightarrow> test_loop" where
  "test_tick P now n = finalise_tick P now (publish_outcome_and_reputation P now) n"

datatype test_event =
    TnSubmit job_spec bool
  | TnMessage topic bytes
  | TnTick
  | TnKey peer_id bytes

fun run_node :: "prims \<Rightarrow> test_loop \<Rightarrow> system_time \<times> test_event \<Rightarrow> test_loop" where
  "run_node P n (now, TnSubmit spec ok) = snd (submit P now ok spec n)"
| "run_node P n (now, TnMessage t payload) = snd (dispatch_message P now t payload n)"
| "run_node P n (now, TnTick) = test_tick P now n"
| "run_node P n (now, TnKey peer key) = n\<lparr>tn_directory := AList.update peer key (tn_directory n)\<rparr>"

end
