(* ===== verification/Harness_Invariant.thy ===== *)
theory Harness_Invariant
  imports Harness Store_Invariant
begin

text \<open>
  The invariant of a harness node loop. Its cached tasks agree with its store: their specs and results
  are recorded, an open quorum is about the observed result and holds signed votes of distinct
  verifiers, a finalised task has an outcome of this node in the store. Its reputation cache is the sum of the
  store's log, and no reward is in the log twice.
\<close>

section \<open>Definition\<close>

definition own_outcome :: "prims \<Rightarrow> peer_id \<Rightarrow> bytes \<Rightarrow> chash \<Rightarrow> chash \<Rightarrow> store \<Rightarrow> bool" where
  "own_outcome P me key spec_hash result_hash st \<longleftrightarrow>
     (\<exists>x. jo_spec_hash x = spec_hash \<and> jo_result_hash x = result_hash \<and> jo_observed_by x = me
        \<and> outcome_verify_signature P x (ed_public P key) = Inr ()
        \<and> outcome_content_hash P x \<in> or_outcome_hash ` set (st_outcomes st))"

definition task_ok :: "prims \<Rightarrow> (peer_id \<Rightarrow> bytes) \<Rightarrow> peer_id \<Rightarrow> bytes \<Rightarrow> store \<Rightarrow> chash \<Rightarrow> task_state \<Rightarrow> bool" where
  "task_ok P keys me key st h t \<longleftrightarrow>
     h = spec_content_hash P (ts_spec t) \<and> h \<in> tr_spec_hash ` set (st_tasks st) \<and>
     (case ts_observed_result t of
        None \<Rightarrow> ts_quorum t = None \<and> \<not> ts_finalised t
      | Some r \<Rightarrow> result_content_hash P r \<in> rr_result_hash ` set (st_results st) \<and>
          (\<exists>q. ts_quorum t = Some q \<and> quorum_inv P keys q \<and> q_spec_hash q = h \<and> q_result_hash q = result_content_hash P r) \<and>
          (ts_finalised t \<longrightarrow> own_outcome P me key h (result_content_hash P r) st))"

definition log_key :: "reputation_row \<Rightarrow> peer_id \<times> bytes option \<times> string" where
  "log_key r = (pr_peer r, pr_related_hash r, pr_reason r)"

definition key_row :: "reputation_key \<Rightarrow> peer_id \<times> bytes option \<times> string" where
  "key_row k = (case k of (p, h, s) \<Rightarrow> (p, map_option hash_bytes h, s))"

definition rewards_ok :: "'a node_loop_scheme \<Rightarrow> bool" where
  "rewards_ok n \<longleftrightarrow> distinct (map log_key (st_reputation_log (lp_shared n)))
     \<and> log_key ` set (st_reputation_log (lp_shared n)) = key_row ` lp_applied_keys n
     \<and> (\<forall>p. sum_list (deltas_of (lp_shared n) p) = local_reputation n p)"

definition loop_inv :: "prims \<Rightarrow> (peer_id \<Rightarrow> bytes) \<Rightarrow> 'a node_loop_scheme \<Rightarrow> bool" where
  "loop_inv P keys n \<longleftrightarrow> store_inv P (lp_shared n) \<and> rewards_ok n \<and> distinct (map fst (lp_tasks n))
     \<and> (\<forall>(h, t) \<in> set (lp_tasks n). task_ok P keys (lp_peer_id n) (lp_signing_key n) (lp_shared n) h t)"

section \<open>The store only grows\<close>

definition extends_store :: "store \<Rightarrow> store \<Rightarrow> bool" where
  "extends_store st st' \<longleftrightarrow> tr_spec_hash ` set (st_tasks st) \<subseteq> tr_spec_hash ` set (st_tasks st')
     \<and> rr_result_hash ` set (st_results st) \<subseteq> rr_result_hash ` set (st_results st')
     \<and> or_outcome_hash ` set (st_outcomes st) \<subseteq> or_outcome_hash ` set (st_outcomes st')
     \<and> st_reputation_log st' = st_reputation_log st"

lemma record_spec_extends:
  "record_spec P now st x = Inr st' \<Longrightarrow> extends_store st st' \<and> spec_content_hash P x \<in> tr_spec_hash ` set (st_tasks st')"
  by (auto simp: record_spec_def Let_def bind_result_eq_Inr extends_store_def insert_or_ignore_Inr split: if_splits)

lemma record_result_extends:
  "record_result P now st x = Inr st' \<Longrightarrow> extends_store st st' \<and> result_content_hash P x \<in> rr_result_hash ` set (st_results st')"
  by (auto simp: record_result_def Let_def bind_result_eq_Inr extends_store_def insert_or_ignore_Inr split: if_splits)

lemma record_verification_extends: "record_verification P now st x = Inr st' \<Longrightarrow> extends_store st st'"
  by (auto simp: record_verification_def Let_def bind_result_eq_Inr extends_store_def)

lemma record_outcome_extends:
  "record_outcome P now st x = Inr st' \<Longrightarrow> extends_store st st' \<and> outcome_content_hash P x \<in> or_outcome_hash ` set (st_outcomes st')"
  by (auto simp: record_outcome_def bind_result_eq_Inr extends_store_def insert_or_ignore_Inr outcome_row_of_def split: if_splits)

lemma record_synced_extends: "record_synced_outcome P now st x = Inr st' \<Longrightarrow> extends_store st st'"
  by (auto simp: record_synced_outcome_def Let_def bind_result_eq_Inr extends_store_def insert_or_ignore_Inr split: if_splits)

lemma task_ok_extends:
  "task_ok P keys me key st h t \<Longrightarrow> extends_store st st' \<Longrightarrow> task_ok P keys me key st' h t"
  by (auto simp: task_ok_def extends_store_def own_outcome_def split: option.splits; blast)

lemma loop_inv_shared:
  assumes "loop_inv P keys n" and "store_inv P st'" and "extends_store (lp_shared n) st'"
  shows "loop_inv P keys (n\<lparr>lp_shared := st'\<rparr>)"
  using assms task_ok_extends [OF _ assms(3)]
  by (auto simp: loop_inv_def rewards_ok_def extends_store_def deltas_of_def local_reputation_def)

lemma set_update_subset: "set (AList.update k v m) \<subseteq> insert (k, v) (set m)"
  by (induction m) auto

lemma loop_inv_task:
  assumes "loop_inv P keys n" and "map_of (lp_tasks n) h = Some t"
    and "task_ok P keys (lp_peer_id n) (lp_signing_key n) (lp_shared n) h t'"
  shows "loop_inv P keys (n\<lparr>lp_tasks := AList.update h t' (lp_tasks n)\<rparr>)"
proof -
  have "set (AList.update h t' (lp_tasks n)) \<subseteq> insert (h, t') (set (lp_tasks n))"
    by (rule set_update_subset)
  then show ?thesis
    using assms by (auto simp: loop_inv_def rewards_ok_def local_reputation_def distinct_update)
qed

lemma task_ok_of:
  "loop_inv P keys n \<Longrightarrow> map_of (lp_tasks n) h = Some t \<Longrightarrow> task_ok P keys (lp_peer_id n) (lp_signing_key n) (lp_shared n) h t"
  by (auto simp: loop_inv_def dest: map_of_SomeD)

lemma loop_inv_modify:
  assumes "loop_inv P keys n"
    and "\<And>t. map_of (lp_tasks n) h = Some t \<Longrightarrow> task_ok P keys (lp_peer_id n) (lp_signing_key n) (lp_shared n) h (f t)"
  shows "loop_inv P keys (n\<lparr>lp_tasks := modify_entry h f (lp_tasks n)\<rparr>)"
  using assms by (auto simp: modify_entry_def split: option.split intro: loop_inv_task)

lemma task_ok_flags [simp]:
  "task_ok P keys me key st h (t\<lparr>ts_self_verified := b\<rparr>) \<longleftrightarrow> task_ok P keys me key st h t"
  "task_ok P keys me key st h (t\<lparr>ts_self_executed := b\<rparr>) \<longleftrightarrow> task_ok P keys me key st h t"
  by (auto simp: task_ok_def split: option.split)

lemma loop_inv_flags:
  assumes "loop_inv P keys n"
  shows "loop_inv P keys (n\<lparr>lp_tasks := modify_entry h (\<lambda>t. t\<lparr>ts_self_verified := b\<rparr>) (lp_tasks n)\<rparr>)"
    and "loop_inv P keys (n\<lparr>lp_tasks := modify_entry h (\<lambda>t. t\<lparr>ts_self_executed := b\<rparr>) (lp_tasks n)\<rparr>)"
  by (auto intro!: loop_inv_modify [OF assms] intro: task_ok_of [OF assms])

section \<open>Decoded outcomes\<close>

lemma field_SomeD: "field k rd m = Some x \<Longrightarrow> \<exists>v. rd v = Some x"
  by (auto simp: field_def split: list.splits)

lemma those_all: "those (map rd vs) = Some xs \<Longrightarrow> x \<in> set xs \<Longrightarrow> \<exists>v. rd v = Some x"
  by (induction vs arbitrary: xs) (auto split: option.splits)

lemma rd_hashes_wf: "rd_list rd_hash v = Some xs \<Longrightarrow> x \<in> set xs \<Longrightarrow> wf_hash x"
  by (auto simp: rd_list_def split: cbor.splits dest!: those_all intro: rd_hash_wf)

lemma rd_job_outcome_wf: "rd_job_outcome v = Some x \<Longrightarrow> wf_outcome x"
  by (auto simp: rd_job_outcome_def wf_outcome_def Option.bind_eq_Some_conv dest!: field_SomeD
      intro: rd_hash_wf rd_hashes_wf)

lemma from_cbor_outcome_wf: "from_cbor_bytes P rd_job_outcome b = Some x \<Longrightarrow> wf_outcome x"
  by (auto simp: from_cbor_bytes_def Option.bind_eq_Some_conv dest: rd_job_outcome_wf)

lemma rd_delta_kind_wf: "rd_delta_kind v = Some (DeltaOutcome x) \<Longrightarrow> wf_outcome x"
  by (auto simp: rd_delta_kind_def Option.bind_eq_Some_conv dest: rd_job_outcome_wf
      split: cbor.splits list.splits if_splits)

lemma delta_decode_wf: "delta_decode_cbor P b = Some d \<Longrightarrow> sd_kind d = DeltaOutcome x \<Longrightarrow> wf_outcome x"
  by (auto simp: delta_decode_cbor_def from_cbor_bytes_def rd_delta_def Option.bind_eq_Some_conv
      dest!: field_SomeD dest: rd_delta_kind_wf)

section \<open>Every method keeps the invariant\<close>

lemma publish_inv [simp]: "loop_inv P keys (publish t b n) \<longleftrightarrow> loop_inv P keys n"
  by (simp add: publish_def loop_inv_def rewards_ok_def local_reputation_def)

lemma publish_deltas_inv [simp]: "loop_inv P keys (publish_deltas P now e x n) \<longleftrightarrow> loop_inv P keys n"
  by (simp add: publish_deltas_def Let_def split: outcome_verdict.split)

lemma open_task_inv:
  assumes "loop_inv P keys n"
  shows "loop_inv P keys (snd (open_task P now spec n))"
proof (cases "record_spec P (now_unix now) (lp_shared n) spec")
  case (Inr st)
  then have "store_inv P st" and ext: "extends_store (lp_shared n) st" "spec_content_hash P spec \<in> tr_spec_hash ` set (st_tasks st)"
    using assms record_spec_inv record_spec_extends by (auto simp: loop_inv_def)
  then have "loop_inv P keys (n\<lparr>lp_shared := st\<rparr>)" using assms loop_inv_shared by blast
  then show ?thesis using Inr ext(2)
    by (auto simp: open_task_def or_insert_def task_new_def loop_inv_def rewards_ok_def local_reputation_def
        task_ok_def map_of_eq_None_iff)
qed (simp add: open_task_def assms)

lemma attach_result_inv:
  assumes "loop_inv P keys n" and "result_content_hash P result \<in> rr_result_hash ` set (st_results (lp_shared n))"
  shows "loop_inv P keys (attach_result P now result n)"
  unfolding attach_result_def
proof (rule loop_inv_modify [OF assms(1)])
  fix t
  assume "map_of (lp_tasks n) (jr_spec_hash result) = Some t"
  from task_ok_of [OF assms(1) this] assms(2)
  show "task_ok P keys (lp_peer_id n) (lp_signing_key n) (lp_shared n) (jr_spec_hash result)
    (if ts_observed_result t = None
     then t\<lparr>ts_observed_result := Some result,
       ts_quorum := Some (quorum_new (lp_quorum_config n) (jr_spec_hash result) (result_content_hash P result) now)\<rparr>
     else t)"
    by (cases "ts_observed_result t") (auto simp: task_ok_def quorum_new_def quorum_inv_def intro: rev_image_eqI)
qed

lemma add_verification_keeps:
  assumes "add_verification P q v r (keys (jv_verifier v)) = Inr q'" and "quorum_inv P keys q"
  shows "quorum_inv P keys q' \<and> q_spec_hash q' = q_spec_hash q \<and> q_result_hash q' = q_result_hash q"
proof -
  have "q' = add_step P keys q (v, r)" using assms(1) by (simp add: add_step_def)
  then show ?thesis using quorum_ts.step_inv [OF assms(2), of "(v, r)"] by (auto simp: add_step_eq)
qed

lemma open_for_task:
  assumes "loop_inv P keys n" and "open_for P rh (lp_tasks n) = Some (h, t)"
  shows "map_of (lp_tasks n) h = Some t"
  using assms by (auto simp: open_for_def loop_inv_def dest!: find_SomeD)

lemma add_vote_inv:
  assumes "loop_inv P keys n" and "\<And>p k. key_of p = Some k \<Longrightarrow> k = keys p"
  shows "loop_inv P keys (snd (add_vote P key_of v n))"
proof (cases "open_for P (jv_result_hash v) (lp_tasks n)")
  case (Some ht)
  obtain h t where ht: "ht = (h, t)" by (cases ht)
  then have "ts_observed_result t \<noteq> None" using Some by (auto simp: open_for_def split: option.splits dest!: find_SomeD)
  moreover have t: "map_of (lp_tasks n) h = Some t" using open_for_task assms(1) Some ht by blast
  ultimately have ok: "task_ok P keys (lp_peer_id n) (lp_signing_key n) (lp_shared n) h t" "ts_observed_result t \<noteq> None"
    using task_ok_of [OF assms(1)] by blast+
  have "loop_inv P keys (n\<lparr>lp_tasks := AList.update h (t\<lparr>ts_quorum := Some q\<rparr>) (lp_tasks n)\<rparr>)"
    if "key_of (jv_verifier v) = Some k" "add_verification P (the (ts_quorum t)) v 100 k = Inr q" for k q
    using that ok assms(2) [OF that(1)]
    by (intro loop_inv_task [OF assms(1) t]) (auto simp: task_ok_def split: option.splits dest: add_verification_keeps)
  then show ?thesis
    using assms(1) Some ht
    by (auto simp: add_vote_def split: option.split sum.split verify_error.split internal_cause.split)
qed (simp add: add_vote_def assms)

lemma own_outcome_wf:
  assumes "sha256_ok P" and "try_finalise P q now t me key = Some f" and "wf_hash (q_spec_hash q)" and "wf_hash (q_result_hash q)"
  shows "wf_outcome (fq_outcome f) \<and> jo_spec_hash (fq_outcome f) = q_spec_hash q \<and> jo_result_hash (fq_outcome f) = q_result_hash q
    \<and> jo_observed_by (fq_outcome f) = me \<and> (ed25519_ok P \<longrightarrow> outcome_verify_signature P (fq_outcome f) (ed_public P key) = Inr ())"
proof -
  obtain vs d where f: "fq_outcome f = fst (outcome_new_signed_at P (q_spec_hash q) (q_result_hash q) vs d t me key)"
      "set vs \<subseteq> verification_content_hash P ` sv_verification ` snd ` set (q_by_verifier q)"
    using try_finalise_outcome [OF assms(2)] by blast
  then have "\<forall>h \<in> set vs. wf_hash h" using wf_content_hash [OF assms(1)] by (auto simp: verification_content_hash_def)
  then show ?thesis using f(1) assms(3,4) outcome_new_signed_verifies by (auto simp: outcome_new_signed_at_def Let_def wf_outcome_def)
qed

lemma try_finalise_quorum_inv:
  assumes "sha256_ok P" and "ed25519_ok P" and "loop_inv P keys n"
  shows "loop_inv P keys (snd (try_finalise_quorum P now h n)) \<and> fst (try_finalise_quorum P now h n) = Inr ()"
proof (cases "\<exists>t q f. map_of (lp_tasks n) h = Some t \<and> \<not> ts_finalised t \<and> ts_quorum t = Some q
    \<and> try_finalise P q now (unix_now now) (lp_peer_id n) (lp_signing_key n) = Some f")
  case True
  then obtain t q f where t: "map_of (lp_tasks n) h = Some t" "\<not> ts_finalised t" "ts_quorum t = Some q"
    and f: "try_finalise P q now (unix_now now) (lp_peer_id n) (lp_signing_key n) = Some f" by blast
  have ok: "task_ok P keys (lp_peer_id n) (lp_signing_key n) (lp_shared n) h t" by (rule task_ok_of [OF assms(3) t(1)])
  then obtain r where r: "ts_observed_result t = Some r" "q_spec_hash q = h" "q_result_hash q = result_content_hash P r"
      "quorum_inv P keys q" "result_content_hash P r \<in> rr_result_hash ` set (st_results (lp_shared n))"
      "h = spec_content_hash P (ts_spec t)" "h \<in> tr_spec_hash ` set (st_tasks (lp_shared n))"
    using t(2,3) by (auto simp: task_ok_def split: option.splits)
  then have x: "wf_outcome (fq_outcome f)" "jo_spec_hash (fq_outcome f) = h" "jo_result_hash (fq_outcome f) = result_content_hash P r"
      "jo_observed_by (fq_outcome f) = lp_peer_id n" "outcome_verify_signature P (fq_outcome f) (ed_public P (lp_signing_key n)) = Inr ()"
    using own_outcome_wf [OF assms(1) f] assms(1,2) wf_content_hash by (auto simp: spec_content_hash_def result_content_hash_def)
  then obtain st where st: "record_outcome P (now_unix now) (lp_shared n) (fq_outcome f) = Inr st"
    using r(5,7) by (cases "outcome_content_hash P (fq_outcome f) \<in> or_outcome_hash ` set (st_outcomes (lp_shared n))")
      (simp_all add: record_outcome_def insert_or_ignore_def outcome_row_of_def bind_result_def)
  then have ext: "extends_store (lp_shared n) st" "outcome_content_hash P (fq_outcome f) \<in> or_outcome_hash ` set (st_outcomes st)"
    using record_outcome_extends by auto
  have "loop_inv P keys (n\<lparr>lp_shared := st\<rparr>)"
    using assms(3) st x(1) record_outcome_inv ext(1) by (intro loop_inv_shared) (auto simp: loop_inv_def)
  then have "loop_inv P keys ((n\<lparr>lp_shared := st\<rparr>)\<lparr>lp_tasks := AList.update h (t\<lparr>ts_finalised := True\<rparr>) (lp_tasks n)\<rparr>)"
    using loop_inv_task [of P keys "n\<lparr>lp_shared := st\<rparr>" h t "t\<lparr>ts_finalised := True\<rparr>"] t(1) task_ok_extends [OF ok ext(1)] x ext(2) r(1)
    by (auto simp: task_ok_def own_outcome_def)
  then have "loop_inv P keys (n\<lparr>lp_tasks := AList.update h (t\<lparr>ts_finalised := True\<rparr>) (lp_tasks n), lp_shared := st\<rparr>)"
    by (simp add: loop_inv_def rewards_ok_def local_reputation_def)
  then show ?thesis using t f st by (simp add: try_finalise_quorum_def Let_def)
qed (auto simp: try_finalise_quorum_def assms split: option.split)

lemma finalise_voted_inv:
  "sha256_ok P \<Longrightarrow> ed25519_ok P \<Longrightarrow> loop_inv P keys (snd r) \<Longrightarrow> loop_inv P keys (snd (finalise_voted P now r))"
  by (cases r) (auto simp: finalise_voted_def split: sum.split option.split dest: try_finalise_quorum_inv)

lemma key_row_inj: "key_row k = key_row k' \<longleftrightarrow> k = k'"
proof -
  have "map_option hash_bytes h = map_option hash_bytes h' \<longleftrightarrow> h = h'" for h h'
    by (rule inj_eq [OF option.inj_map]) (auto intro!: injI chash.expand)
  then show ?thesis by (auto simp: key_row_def split: prod.splits)
qed

lemma task_ok_log [simp]: "task_ok P keys me key (st\<lparr>st_reputation_log := l\<rparr>) h t \<longleftrightarrow> task_ok P keys me key st h t"
  by (auto simp: task_ok_def own_outcome_def split: option.split)

lemma apply_reputation_inv:
  assumes "loop_inv P keys n"
  shows "loop_inv P keys (snd (apply_reputation now p d s h n))"
proof (cases "(p, h, s) \<in> lp_applied_keys n")
  case False
  let ?row = "\<lparr>pr_peer = p, pr_delta = sint d, pr_reason = s, pr_related_hash = map_option hash_bytes h, pr_applied_at = now_unix now\<rparr>"
  let ?st = "lp_shared n\<lparr>st_reputation_log := st_reputation_log (lp_shared n) @ [?row]\<rparr>"
  have r: "apply_reputation_delta (now_unix now) (lp_shared n) p d s h = Inr ?st" by (simp add: apply_reputation_delta_def)
  then have "store_inv P ?st" using assms apply_reputation_delta_inv by (auto simp: loop_inv_def)
  moreover have "log_key ?row \<notin> log_key ` set (st_reputation_log (lp_shared n))"
  proof -
    have "log_key ?row = key_row (p, h, s)" by (simp add: log_key_def key_row_def)
    then show ?thesis using False assms by (auto simp: loop_inv_def rewards_ok_def key_row_inj)
  qed
  ultimately show ?thesis
    using assms False r
    by (auto simp: apply_reputation_def loop_inv_def rewards_ok_def deltas_of_def local_reputation_def
        log_key_def key_row_def AList.update_conv' split: option.splits)
qed (simp add: apply_reputation_def assms)

lemma and_then_inv:
  "I (snd r) \<Longrightarrow> (\<And>n. I n \<Longrightarrow> I (snd (f n))) \<Longrightarrow> I (snd (and_then r f))"
  by (cases r) (auto simp: and_then_def split: sum.split)

lemma record_outcome_loop_inv:
  assumes "loop_inv P keys n" and "wf_outcome x" and "record_outcome P t (lp_shared n) x = Inr st"
  shows "loop_inv P keys (n\<lparr>lp_shared := st\<rparr>)"
  using assms record_outcome_inv record_outcome_extends by (intro loop_inv_shared) (auto simp: loop_inv_def)

lemma record_result_loop_inv:
  assumes "loop_inv P keys n" and "record_result P t (lp_shared n) r = Inr st"
  shows "loop_inv P keys (attach_result P now r (n\<lparr>lp_shared := st\<rparr>))"
proof -
  have "store_inv P st" using assms record_result_inv by (auto simp: loop_inv_def)
  then have "loop_inv P keys (n\<lparr>lp_shared := st\<rparr>)" using assms record_result_extends by (blast intro: loop_inv_shared)
  then show ?thesis using record_result_extends [OF assms(2)] by (intro attach_result_inv) simp_all
qed

lemma record_verification_loop_inv:
  assumes "loop_inv P keys n" and "record_verification P t (lp_shared n) v = Inr st"
    and "\<And>p k. key_of p = Some k \<Longrightarrow> k = keys p"
  shows "loop_inv P keys (snd (add_vote P key_of v (n\<lparr>lp_shared := st\<rparr>)))"
proof -
  have "store_inv P st" using assms record_verification_inv by (auto simp: loop_inv_def)
  then have "loop_inv P keys (n\<lparr>lp_shared := st\<rparr>)" using assms record_verification_extends by (blast intro: loop_inv_shared)
  then show ?thesis using assms(3) by (rule add_vote_inv)
qed

lemma finalise_tick_inv:
  assumes "sha256_ok P" and "ed25519_ok P" and "I n" and "\<And>n. I n \<Longrightarrow> loop_inv P keys n"
    and "\<And>h n. I n \<Longrightarrow> I (snd (try_finalise_quorum P now h n))" and "\<And>h n. I n \<Longrightarrow> I (snd (pub h n))"
  shows "I (finalise_tick P now pub n)"
proof -
  have "I n \<Longrightarrow> I (fst (fold (finalise_pending P now) hs (n, out)))" for hs n out
  proof (induction hs arbitrary: n out)
    case (Cons h hs)
    obtain n' out' where step: "finalise_pending P now h (n, out) = (n', out')" by (cases "finalise_pending P now h (n, out)")
    then have "I n'"
      using Cons.prems assms(5) [of n h] by (auto simp: finalise_pending_def split: if_splits prod.splits sum.splits)
    then show ?case using Cons.IH step by simp
  qed simp
  moreover have "I m \<Longrightarrow> I (fold (\<lambda>h n. snd (pub h n)) hs m)" for hs m
    by (induction hs arbitrary: m) (auto intro: assms(6))
  ultimately show ?thesis using assms(3) by (auto simp: finalise_tick_def case_prod_unfold Let_def)
qed

end
