(* ===== verification/Testnet_Properties.thy ===== *)
theory Testnet_Properties
  imports Testnet Harness_Invariant Demo_Prims
begin

text \<open>
  Properties of the acceptance network's node: its invariant over every history, that a forged reputation delta is
  applied, and that the acceptance run of three nodes ends with the same decision at all of them.
\<close>

section \<open>The invariant over every history\<close>

text \<open>Every key of the directory is the key of its peer.\<close>

definition test_inv :: "prims \<Rightarrow> (peer_id \<Rightarrow> bytes) \<Rightarrow> test_loop \<Rightarrow> bool" where
  "test_inv P keys n \<longleftrightarrow> loop_inv P keys n \<and> (\<forall>(p, k) \<in> set (tn_directory n). k = keys p)"

lemma test_invD: "test_inv P keys n \<Longrightarrow> loop_inv P keys n"
  by (simp add: test_inv_def)

lemma directory_key: "test_inv P keys n \<Longrightarrow> map_of (tn_directory n) p = Some k \<Longrightarrow> k = keys p"
  by (auto simp: test_inv_def dest: map_of_SomeD)

text \<open>No method touches the directory.\<close>

lemma directory_frame [simp]:
  "tn_directory (publish t b n) = tn_directory n"
  "tn_directory (publish_deltas P now e x n) = tn_directory n"
  "tn_directory (snd (open_task P now spec n)) = tn_directory n"
  "tn_directory (attach_result P now result n) = tn_directory n"
  "tn_directory (snd (add_vote P key_of v n)) = tn_directory n"
  "tn_directory (snd (try_finalise_quorum P now h n)) = tn_directory n"
  "tn_directory (snd (apply_reputation now p d s rh n)) = tn_directory n"
  by (auto simp: publish_def publish_deltas_def open_task_def attach_result_def add_vote_def try_finalise_quorum_def
      apply_reputation_def Let_def
      split: sum.split option.split outcome_verdict.split verify_error.split internal_cause.split prod.split)

lemma directory_finalise_voted [simp]: "tn_directory (snd (finalise_voted P now r)) = tn_directory (snd r)"
  by (cases r) (auto simp: finalise_voted_def split: sum.split option.split)

lemma test_inv_cong:
  "loop_inv P keys m \<Longrightarrow> tn_directory m = tn_directory n \<Longrightarrow> test_inv P keys n \<Longrightarrow> test_inv P keys m"
  by (simp add: test_inv_def)

lemmas and_then_test = and_then_inv [where I = "test_inv P keys" for P keys]

lemma record_spec_locally_inv: "test_inv P keys n \<Longrightarrow> test_inv P keys (snd (record_spec_locally P now spec n))"
  by (simp add: record_spec_locally_def test_inv_def open_task_inv)

lemma record_result_locally_inv: "test_inv P keys n \<Longrightarrow> test_inv P keys (snd (record_result_locally P now r n))"
  by (auto simp: record_result_locally_def test_inv_def split: sum.split intro: record_result_loop_inv)

lemma record_verification_locally_inv:
  assumes "sha256_ok P" and "ed25519_ok P" and "test_inv P keys n"
  shows "test_inv P keys (snd (record_verification_locally P now v n))"
proof (cases "record_verification P (now_unix now) (lp_shared n) v")
  case (Inr st)
  have "loop_inv P keys (snd (add_vote P (map_of (tn_directory n)) v (n\<lparr>lp_shared := st\<rparr>)))"
    using test_invD [OF assms(3)] Inr directory_key [OF assms(3)] by (rule record_verification_loop_inv)
  then show ?thesis
    using Inr assms by (simp add: record_verification_locally_def test_inv_def finalise_voted_inv)
qed (simp add: record_verification_locally_def assms)

lemma record_outcome_locally_inv:
  "wf_outcome x \<Longrightarrow> test_inv P keys n \<Longrightarrow> test_inv P keys (snd (record_outcome_locally P now x n))"
  by (auto simp: record_outcome_locally_def test_inv_def split: sum.split intro: record_outcome_loop_inv)

lemma loop_inv_local_reputation [simp]: "loop_inv P keys (n\<lparr>tn_local_reputation := r\<rparr>) \<longleftrightarrow> loop_inv P keys n"
  by (simp add: loop_inv_def rewards_ok_def local_reputation_def)

lemma apply_reputation_locally_inv:
  "test_inv P keys n \<Longrightarrow> test_inv P keys (snd (apply_reputation_locally now p d s h n))"
  unfolding apply_reputation_locally_def
  by (auto intro!: and_then_test) (simp_all add: test_inv_def apply_reputation_inv)

lemma with_key_inv:
  "test_inv P keys n \<Longrightarrow> (\<And>k. test_inv P keys (snd (f k))) \<Longrightarrow> test_inv P keys (snd (with_key n p f))"
  by (auto simp: with_key_def split: option.split)

lemma test_inv_publish: "test_inv P keys (publish t b n) \<longleftrightarrow> test_inv P keys n"
  by (simp add: test_inv_def)

lemma update_eq_modify: "map_of m k = Some v \<Longrightarrow> AList.update k (f v) m = modify_entry k f m"
  by (simp add: modify_entry_def)

lemma execute_locally_inv:
  assumes "test_inv P keys n"
  shows "test_inv P keys (snd (execute_locally P now spec n))"
proof (cases "map_of (lp_tasks n) (spec_content_hash P spec)")
  case (Some t)
  have "test_inv P keys (n\<lparr>lp_tasks := AList.update (spec_content_hash P spec) (t\<lparr>ts_self_executed := True\<rparr>) (lp_tasks n)\<rparr>)"
    using assms by (simp add: test_inv_def update_eq_modify [OF Some] loop_inv_flags)
  then show ?thesis
    using assms Some by (auto simp: execute_locally_def Let_def test_inv_publish intro!: and_then_test record_result_locally_inv)
qed (simp add: execute_locally_def assms)

lemma verify_locally_inv:
  assumes "sha256_ok P" and "ed25519_ok P" and "test_inv P keys n"
  shows "test_inv P keys (snd (verify_locally P now r n))"
proof -
  have "test_inv P keys (n\<lparr>lp_tasks := modify_entry h (\<lambda>t. t\<lparr>ts_self_verified := True\<rparr>) (lp_tasks n)\<rparr>)" for h
    using assms(3) by (simp add: test_inv_def loop_inv_flags)
  then show ?thesis
    using assms by (auto simp: verify_locally_def Let_def test_inv_publish split: option.split sum.split
        intro!: and_then_test record_verification_locally_inv)
qed

lemma publish_outcome_inv: "test_inv P keys n \<Longrightarrow> test_inv P keys (snd (publish_outcome_and_reputation P now h n))"
  unfolding publish_outcome_and_reputation_def
  by (auto split: option.split sum.split outcome_verdict.split intro!: and_then_test apply_reputation_locally_inv)
    (simp_all add: test_inv_def)

lemma on_state_delta_inv:
  assumes "test_inv P keys n"
  shows "test_inv P keys (snd (on_state_delta P now b n))"
proof (cases "delta_decode_cbor P b")
  case (Some d)
  have "test_inv P keys (n\<lparr>lp_shared := st\<rparr>)"
    if "sd_kind d = DeltaOutcome x" "apply_delta P (now_unix now) (lp_shared n) d k = Inr st" for x k st
    using that assms delta_decode_wf [OF Some that(1)]
    by (auto simp: test_inv_def apply_delta_def split: sum.splits intro: record_outcome_loop_inv)
  then show ?thesis
    using assms Some
    by (auto simp: on_state_delta_def split: delta_kind.split sum.split intro!: with_key_inv and_then_test apply_reputation_locally_inv)
qed (simp add: on_state_delta_def assms)

lemma dispatch_message_inv:
  assumes "sha256_ok P" and "ed25519_ok P" and "test_inv P keys n"
  shows "test_inv P keys (snd (dispatch_message P now t b n))"
proof -
  have "test_inv P keys (snd (on_job_spec P now b n))" for b
    using assms(3) by (auto simp: on_job_spec_def split: option.split
        intro!: with_key_inv and_then_test record_spec_locally_inv execute_locally_inv)
  moreover have "test_inv P keys (snd (on_job_result P now b n))" for b
    using assms by (auto simp: on_job_result_def split: option.split
        intro!: with_key_inv and_then_test record_result_locally_inv verify_locally_inv)
  moreover have "test_inv P keys (snd (on_job_outcome P now b n))" for b
    using assms(3) by (auto simp: on_job_outcome_def split: option.split
        intro!: with_key_inv record_outcome_locally_inv dest: from_cbor_outcome_wf)
  moreover have "test_inv P keys (snd (on_verification P now b n))" for b
    using assms by (auto simp: on_verification_def split: option.split
        intro!: with_key_inv and_then_test record_verification_locally_inv publish_outcome_inv)
  ultimately show ?thesis
    using assms(3) on_state_delta_inv [OF assms(3)] by (simp add: dispatch_message_def split: list.split topic.split)
qed

lemma test_tick_inv:
  assumes "sha256_ok P" and "ed25519_ok P" and "test_inv P keys n"
  shows "test_inv P keys (test_tick P now n)"
  unfolding test_tick_def
proof (rule finalise_tick_inv [where I = "test_inv P keys", OF assms test_invD])
  show "test_inv P keys (snd (try_finalise_quorum P now h n))" if "test_inv P keys n" for h n
    using that by (simp add: test_inv_def try_finalise_quorum_inv [OF assms(1,2)])
qed (auto intro: publish_outcome_inv)

text \<open>The typed events: a key that is learnt is the key of its peer.\<close>

fun test_event_ok :: "(peer_id \<Rightarrow> bytes) \<Rightarrow> system_time \<times> test_event \<Rightarrow> bool" where
  "test_event_ok keys (now, TnKey p k) \<longleftrightarrow> k = keys p"
| "test_event_ok keys _ \<longleftrightarrow> True"

definition test_history_inv :: "prims \<Rightarrow> (peer_id \<Rightarrow> bytes) \<Rightarrow> test_loop \<Rightarrow> bool" where
  "test_history_inv P keys n \<longleftrightarrow> sha256_ok P \<and> ed25519_ok P \<and> test_inv P keys n"

interpretation testnet_ts: typed_transition_system "run_node P" "test_history_inv P keys" "test_event_ok keys" for P keys
proof
  fix n e
  assume inv: "test_history_inv P keys n" and ok: "test_event_ok keys e"
  obtain now ev where e: "e = (now, ev)" by (cases e)
  show "test_history_inv P keys (run_node P n e)"
  proof (cases ev)
    case (TnKey p k)
    have "set (AList.update p (keys p) m) \<subseteq> insert (p, keys p) (set m)" for m by (rule set_update_subset)
    moreover have "loop_inv P keys (n\<lparr>tn_directory := m\<rparr>) \<longleftrightarrow> loop_inv P keys n" for m
      by (simp add: loop_inv_def rewards_ok_def local_reputation_def)
    ultimately show ?thesis using inv ok TnKey e by (fastforce simp: test_history_inv_def test_inv_def)
  qed (use inv e in \<open>auto simp: test_history_inv_def submit_def test_inv_publish
      intro!: and_then_test record_spec_locally_inv dispatch_message_inv test_tick_inv\<close>)
qed

text \<open>
  Over every history of a node of the acceptance network its parts agree. The store keeps its keys and references; the
  reputation cache is the sum of the store's log for every peer and no reward is in the log twice; every
  cached task has its spec, and its observed result, in the store; its quorum is about that result and holds
  correctly signed votes of distinct verifiers; and a finalised task has an outcome in the store that
  this node signed.
\<close>

theorem testnet_history_inv:
  assumes "sha256_ok P" and "ed25519_ok P" and "\<forall>(p, k) \<in> set dir. k = keys p" and "\<forall>e \<in> set es. test_event_ok keys e"
  shows "let n = run_steps (run_node P) (run_node_init me key cfg dir) es in store_inv P (lp_shared n)
    \<and> (\<forall>p. sum_list (deltas_of (lp_shared n) p) = local_reputation n p)
    \<and> distinct (map log_key (st_reputation_log (lp_shared n)))
    \<and> distinct (map fst (lp_tasks n))
    \<and> (\<forall>h t. map_of (lp_tasks n) h = Some t \<longrightarrow> task_ok P keys (lp_peer_id n) (lp_signing_key n) (lp_shared n) h t)"
proof -
  have "test_history_inv P keys (run_node_init me key cfg dir)"
    using assms(1-3) by (simp add: test_history_inv_def test_inv_def loop_inv_def rewards_ok_def run_node_init_def
        local_reputation_def store_inv_empty) (simp add: empty_store_def deltas_of_def)
  then have "test_history_inv P keys (run_steps (run_node P) (run_node_init me key cfg dir) es)"
    using assms(4) by (intro testnet_ts.typed_run_inv) auto
  then have "loop_inv P keys (run_steps (run_node P) (run_node_init me key cfg dir) es)"
    by (simp add: test_history_inv_def test_inv_def)
  then show ?thesis by (auto simp: Let_def loop_inv_def rewards_ok_def dest: map_of_SomeD)
qed

section \<open>A forged reward\<close>

text \<open>
  A reputation delta is applied whatever its signature is: it is enough that the claimed observer is in
  the directory. The node's reputation cache and the store's log both change by the delta.
\<close>

theorem forged_reputation_is_applied:
  assumes "delta_decode_cbor P b = Some d" and "b \<noteq> []" and "sd_kind d = DeltaReputation p x reason h"
    and "map_of (tn_directory n) (sd_observer d) = Some key" and "(p, h, reason) \<notin> lp_applied_keys n"
  shows "\<exists>n'. dispatch_message P now TopicStateDeltas b n = (Inr (), n')
    \<and> local_reputation n' p = local_reputation n p + sint x
    \<and> sum_list (deltas_of (lp_shared n') p) = sum_list (deltas_of (lp_shared n) p) + sint x"
  using assms
  by (auto simp: dispatch_message_def on_state_delta_def with_key_def apply_reputation_locally_def apply_reputation_def
      and_then_def apply_reputation_delta_def deltas_of_def local_reputation_def AList.update_conv' split: list.split sum.split)

section \<open>The acceptance run\<close>

definition vote_of :: "prims \<Rightarrow> system_time \<Rightarrow> job_result \<Rightarrow> peer_id \<Rightarrow> bytes \<Rightarrow> job_verification" where
  "vote_of P now result p key =
     fst (verification_new_signed_at P (result_content_hash P result) p Agreed Deterministic (unix_now now) key)"

lemma vote_of_fields [simp]:
  "jv_result_hash (vote_of P now r p k) = result_content_hash P r"
  "jv_verifier (vote_of P now r p k) = p"
  "jv_verdict (vote_of P now r p k) = Agreed"
  by (simp_all add: vote_of_def verification_new_signed_at_def Let_def)

lemma vote_of_signed: "ed25519_ok P \<Longrightarrow> verification_verify_signature P (vote_of P now r p k) (ed_public P k) = Inr ()"
  by (simp add: vote_of_def verification_new_signed_verifies)

lemma vote_of_decodes:
  assumes "cbor_ok P" and "sha256_ok P"
  shows "from_cbor_bytes P rd_job_verification (to_cbor_bytes P (wr_job_verification (vote_of P now r p k))) = Some (vote_of P now r p k)"
proof (rule from_to_cbor_bytes [OF assms(1)], rule rd_wr_job_verification)
  show "wf_verification (vote_of P now r p k)"
    using wf_content_hash [OF assms(2)] by (simp add: wf_verification_def wf_verdict_def result_content_hash_def)
qed

text \<open>A node that knows the spec but no result, and one that waits with some votes since \<open>t0\<close>.\<close>

definition knows :: "prims \<Rightarrow> (peer_id \<times> bytes) list \<Rightarrow> job_spec \<Rightarrow> test_loop \<Rightarrow> bool" where
  "knows P dir spec n \<longleftrightarrow> tn_directory n = dir \<and> lp_quorum_config n = reduced_quorum_for_test \<and> lp_reputation_local n = []
     \<and> lp_applied_keys n = {} \<and> st_outcomes (lp_shared n) = [] \<and> spec_content_hash P spec \<in> tr_spec_hash ` set (st_tasks (lp_shared n))
     \<and> lp_tasks n = [(spec_content_hash P spec, task_new spec)]"

definition awaiting ::
    "prims \<Rightarrow> (peer_id \<times> bytes) list \<Rightarrow> job_spec \<Rightarrow> job_result \<Rightarrow> system_time \<Rightarrow> (peer_id \<times> stored_verification) list \<Rightarrow> test_loop \<Rightarrow> bool" where
  "awaiting P dir spec r t0 vs n \<longleftrightarrow> tn_directory n = dir \<and> lp_quorum_config n = reduced_quorum_for_test \<and> lp_reputation_local n = []
     \<and> lp_applied_keys n = {} \<and> st_outcomes (lp_shared n) = [] \<and> spec_content_hash P spec \<in> tr_spec_hash ` set (st_tasks (lp_shared n))
     \<and> result_content_hash P r \<in> rr_result_hash ` set (st_results (lp_shared n))
     \<and> (\<exists>e v. lp_tasks n = [(spec_content_hash P spec, \<lparr>ts_spec = spec, ts_observed_result = Some r,
          ts_quorum = Some (quorum_new reduced_quorum_for_test (spec_content_hash P spec) (result_content_hash P r) t0\<lparr>q_by_verifier := vs\<rparr>),
          ts_finalised = False, ts_self_executed = e, ts_self_verified = v\<rparr>)])"

lemma record_verification_known:
  assumes "jv_result_hash v \<in> rr_result_hash ` set (st_results st)"
  shows "\<exists>vs. record_verification P now st v = Inr (st\<lparr>st_verifications := vs\<rparr>)"
  using assms
  by (cases "verification_content_hash P v \<in> vf_verification_hash ` set (st_verifications st)")
    (auto simp: record_verification_def Let_def insert_or_ignore_def bind_result_def intro: exI [of _ "st_verifications st"])

lemma early_no_finalise:
  assumes "now < q_started_at q + int (qc_t_min (q_config q))" and "0 < qc_t_min (q_config q)"
  shows "try_finalise P q now t me key = None"
proof -
  have "elapsed_since now (q_started_at q) < qc_t_min (q_config q)" using assms by (simp add: elapsed_since_def)
  then show ?thesis by (simp add: try_finalise_def Let_def split: prod.split)
qed

lemma vote_recorded:
  assumes "ed25519_ok P" and "awaiting P dir spec r t0 vs n" and "map_of dir p = Some (ed_public P k)" and "map_of vs p = None"
    and "now < t0 + 200 * 10 ^ 6"
  shows "\<exists>n'. record_verification_locally P now (vote_of P tv r p k) n = (Inr (), n')
    \<and> awaiting P dir spec r t0 (vs @ [(p, \<lparr>sv_verification = vote_of P tv r p k, sv_reputation = 100\<rparr>)]) n'
    \<and> lp_published n' = lp_published n \<and> lp_peer_id n' = lp_peer_id n \<and> lp_signing_key n' = lp_signing_key n"
proof -
  let ?v = "vote_of P tv r p k"
  obtain e sv where tasks: "lp_tasks n = [(spec_content_hash P spec, \<lparr>ts_spec = spec, ts_observed_result = Some r,
      ts_quorum = Some (quorum_new reduced_quorum_for_test (spec_content_hash P spec) (result_content_hash P r) t0\<lparr>q_by_verifier := vs\<rparr>),
      ts_finalised = False, ts_self_executed = e, ts_self_verified = sv\<rparr>)]"
    using assms(2) by (auto simp: awaiting_def)
  obtain rows where rows: "record_verification P (now_unix now) (lp_shared n) ?v = Inr (lp_shared n\<lparr>st_verifications := rows\<rparr>)"
    using record_verification_known assms(2) by (fastforce simp: awaiting_def)
  have "try_finalise P (quorum_new reduced_quorum_for_test h rh t0\<lparr>q_by_verifier := ws\<rparr>) now t me key = None" for h rh ws t me key
    by (rule early_no_finalise) (use assms(5) in \<open>simp_all add: quorum_new_def reduced_quorum_for_test_def\<close>)
  then show ?thesis
    using assms(2-4) rows vote_of_signed [OF assms(1)]
    by (simp add: record_verification_locally_def awaiting_def tasks add_vote_def open_for_def add_verification_def quorum_new_def
        update_fresh finalise_voted_def try_finalise_quorum_def)
qed

lemma to_cbor_nonempty: "cbor_ok P \<Longrightarrow> to_cbor_bytes P v \<noteq> []"
  by (metis cbor_ok_def option.distinct(1) to_cbor_bytes_def)

lemma dispatch_verify: "b \<noteq> [] \<Longrightarrow> dispatch_message P now TopicVerify b n = on_verification P now b n"
  by (cases b) (simp_all add: dispatch_message_def)

lemma vote_received:
  assumes "ed25519_ok P" and "sha256_ok P" and "cbor_ok P" and "awaiting P dir spec r t0 vs n"
    and "map_of dir p = Some (ed_public P k)" and "map_of vs p = None" and "now < t0 + 200 * 10 ^ 6"
  shows "awaiting P dir spec r t0 (vs @ [(p, \<lparr>sv_verification = vote_of P tv r p k, sv_reputation = 100\<rparr>)])
      (run_node P n (now, TnMessage TopicVerify (to_cbor_bytes P (wr_job_verification (vote_of P tv r p k)))))"
proof -
  obtain n' where n': "record_verification_locally P now (vote_of P tv r p k) n = (Inr (), n')"
      "awaiting P dir spec r t0 (vs @ [(p, \<lparr>sv_verification = vote_of P tv r p k, sv_reputation = 100\<rparr>)]) n'"
    using vote_recorded [OF assms(1,4-7)] by blast
  then have fin: "finalised_for P (result_content_hash P r) (lp_tasks n') = None"
    by (auto simp: awaiting_def finalised_for_def)
  moreover have "tn_directory n = dir" using assms(4) by (simp add: awaiting_def)
  ultimately show ?thesis
    using n' assms(5) vote_of_signed [OF assms(1)] vote_of_decodes [OF assms(3,2)]
    by (simp add: dispatch_verify [OF to_cbor_nonempty [OF assms(3)]] on_verification_def with_key_def and_then_def)
qed

definition fresh :: "prims \<Rightarrow> (peer_id \<times> bytes) list \<Rightarrow> peer_id \<Rightarrow> bytes \<Rightarrow> test_loop" where
  "fresh P dir p k = run_node_init p k reduced_quorum_for_test dir"

lemma fresh_open:
  "\<exists>n. record_spec_locally P now spec (fresh P dir p k) = (Inr (), n) \<and> knows P dir spec n
     \<and> lp_peer_id n = p \<and> lp_signing_key n = k \<and> lp_published n = []"
  by (simp add: record_spec_locally_def open_task_def fresh_def run_node_init_def empty_store_def record_spec_def Let_def
      insert_or_ignore_def bind_result_def knows_def or_insert_def)

lemma submitted:
  "knows P dir spec (run_node P (fresh P dir p k) (now, TnSubmit spec True))
    \<and> lp_published (run_node P (fresh P dir p k) (now, TnSubmit spec True)) = [(TopicTasks, TAG_JOB_SPEC # to_cbor_bytes P (wr_job_spec spec))]
    \<and> lp_peer_id (run_node P (fresh P dir p k) (now, TnSubmit spec True)) = p
    \<and> lp_signing_key (run_node P (fresh P dir p k) (now, TnSubmit spec True)) = k"
  using fresh_open [of P now spec dir p k] by (auto simp: submit_def and_then_def publish_def knows_def)

lemma spec_received:
  assumes "from_cbor_bytes P rd_job_spec (to_cbor_bytes P (wr_job_spec spec)) = Some spec"
    and "map_of dir (js_submitter spec) = Some key" and "spec_verify_signature P spec key = Inr ()"
  shows "\<exists>n. record_spec_locally P now spec (fresh P dir p k) = (Inr (), n) \<and> knows P dir spec n \<and> lp_peer_id n = p
    \<and> lp_signing_key n = k \<and> lp_published n = []
    \<and> run_node P (fresh P dir p k) (now, TnMessage TopicTasks (TAG_JOB_SPEC # to_cbor_bytes P (wr_job_spec spec))) =
      (if pick_executor n (js_submitter spec) = Some p then snd (execute_locally P now spec n) else n)"
proof -
  obtain n where n: "record_spec_locally P now spec (fresh P dir p k) = (Inr (), n)" "knows P dir spec n" "lp_peer_id n = p"
      "lp_signing_key n = k" "lp_published n = []" using fresh_open by blast
  have "tn_directory (fresh P dir p k) = dir" by (simp add: fresh_def run_node_init_def)
  then show ?thesis
    using n assms by (simp add: dispatch_message_def on_job_spec_def with_key_def and_then_def)
qed

lemma result_attached:
  assumes "knows P dir spec n" and "jr_spec_hash r = spec_content_hash P spec"
  shows "\<exists>n'. record_result_locally P now r (n\<lparr>lp_tasks := [(spec_content_hash P spec, task_new spec\<lparr>ts_self_executed := e\<rparr>)]\<rparr>) = (Inr (), n')
    \<and> awaiting P dir spec r now [] n' \<and> \<not> ts_self_verified (snd (hd (lp_tasks n'))) \<and> lp_published n' = lp_published n \<and> lp_peer_id n' = lp_peer_id n \<and> lp_signing_key n' = lp_signing_key n"
proof -
  have "\<exists>rs. record_result P (now_unix now) (lp_shared n) r = Inr (lp_shared n\<lparr>st_results := rs\<rparr>)
      \<and> result_content_hash P r \<in> rr_result_hash ` set rs"
    using assms
    by (cases "result_content_hash P r \<in> rr_result_hash ` set (st_results (lp_shared n))")
      (auto simp: knows_def record_result_def Let_def insert_or_ignore_def bind_result_def
        intro: exI [of _ "st_results (lp_shared n)"])
  then obtain rs where rs: "record_result P (now_unix now) (lp_shared n) r = Inr (lp_shared n\<lparr>st_results := rs\<rparr>)"
      "result_content_hash P r \<in> rr_result_hash ` set rs" by blast
  then show ?thesis
    using assms by (simp add: knows_def task_new_def record_result_locally_def attach_result_def modify_entry_def awaiting_def quorum_new_def) blast
qed

lemma executed:
  assumes "knows P dir spec n" and r_def: "r = execute_task P now ''harness-sha256'' spec n"
  shows "awaiting P dir spec r now [] (snd (execute_locally P now spec n))
    \<and> lp_published (snd (execute_locally P now spec n)) = lp_published n @ [(TopicTasks, TAG_JOB_RESULT # to_cbor_bytes P (wr_job_result r))]"
proof -
  have h: "jr_spec_hash r = spec_content_hash P spec"
    by (simp add: r_def execute_task_def result_new_signed_at_def Let_def)
  have r: "execute_task P now m spec (n\<lparr>lp_tasks := ts\<rparr>) = execute_task P now m spec n" for m ts
    by (simp add: execute_task_def)
  have upd: "AList.update (spec_content_hash P spec) (task_new spec\<lparr>ts_self_executed := True\<rparr>) (lp_tasks n) =
      [(spec_content_hash P spec, task_new spec\<lparr>ts_self_executed := True\<rparr>)]" "\<not> ts_self_executed (task_new spec)"
      "map_of (lp_tasks n) (spec_content_hash P spec) = Some (task_new spec)"
    using assms(1) by (simp_all add: knows_def task_new_def)
  obtain n' where n': "record_result_locally P now r (n\<lparr>lp_tasks := [(spec_content_hash P spec, task_new spec\<lparr>ts_self_executed := True\<rparr>)]\<rparr>) = (Inr (), n')"
      "awaiting P dir spec r now [] n'" "lp_published n' = lp_published n"
    using result_attached [OF assms(1) h] by blast
  then show ?thesis
    by (simp add: execute_locally_def upd Let_def r r_def [symmetric] and_then_def publish_def) (simp add: awaiting_def)
qed

lemma awaiting_flag:
  "awaiting P dir spec r t0 vs n \<Longrightarrow>
   awaiting P dir spec r t0 vs (n\<lparr>lp_tasks := modify_entry (spec_content_hash P spec) (\<lambda>t. t\<lparr>ts_self_verified := True\<rparr>) (lp_tasks n)\<rparr>)"
  by (auto simp: awaiting_def modify_entry_def)

lemma awaiting_publish [simp]: "awaiting P dir spec r t0 vs (publish t b n) \<longleftrightarrow> awaiting P dir spec r t0 vs n"
  by (simp add: awaiting_def publish_def)

text \<open>A verifier that knows the spec votes for the result it can reproduce.\<close>

lemma result_verified:
  assumes "ed25519_ok P" and "knows P dir spec n" and r: "jr_spec_hash r = spec_content_hash P spec" "jr_result_payload r = build_executor_result P spec"
      "jr_executor r \<noteq> lp_peer_id n" "from_cbor_bytes P rd_job_result (to_cbor_bytes P (wr_job_result r)) = Some r"
    and key: "map_of dir (jr_executor r) = Some key" "result_verify_signature P r key = Inr ()"
    and own: "map_of dir (lp_peer_id n) = Some (ed_public P (lp_signing_key n))"
    and seed: "js_kind spec = JobInference \<longrightarrow> ji_seed (js_inputs spec) \<noteq> None"
    and m_def: "m = run_node P n (t0, TnMessage TopicTasks (TAG_JOB_RESULT # to_cbor_bytes P (wr_job_result r)))"
    and v_def: "v = vote_of P t0 r (lp_peer_id n) (lp_signing_key n)"
  shows "awaiting P dir spec r t0 [(lp_peer_id n, \<lparr>sv_verification = v, sv_reputation = 100\<rparr>)] m
    \<and> lp_published m = lp_published n @ [(TopicVerify, to_cbor_bytes P (wr_job_verification v))]
    \<and> lp_peer_id m = lp_peer_id n \<and> lp_signing_key m = lp_signing_key n"
proof -
  have "n = n\<lparr>lp_tasks := [(spec_content_hash P spec, task_new spec\<lparr>ts_self_executed := False\<rparr>)]\<rparr>"
    using assms(2) by (simp add: knows_def task_new_def)
  then obtain n1 where n1: "record_result_locally P t0 r n = (Inr (), n1)" "awaiting P dir spec r t0 [] n1"
      "\<not> ts_self_verified (snd (hd (lp_tasks n1)))"
      "lp_published n1 = lp_published n" "lp_peer_id n1 = lp_peer_id n" "lp_signing_key n1 = lp_signing_key n"
    using result_attached [OF assms(2) r(1), of t0 False] by auto
  define n2 where "n2 = n1\<lparr>lp_tasks := modify_entry (spec_content_hash P spec) (\<lambda>t. t\<lparr>ts_self_verified := True\<rparr>) (lp_tasks n1)\<rparr>"
  obtain t where t: "map_of (lp_tasks n1) (spec_content_hash P spec) = Some t" "ts_spec t = spec" "\<not> ts_self_verified t"
    using n1(2,3) by (auto simp: awaiting_def)
  have v: "sign_verdict P t0 r Agreed n1 = v" by (simp add: sign_verdict_def v_def vote_of_def n1)
  have verdict: "honest_verdict P spec r = Inr Agreed"
    using seed r(2) by (auto simp: honest_verdict_def deterministic_verify_def harness_execute_def bind_result_def)
  obtain n3 where n3: "record_verification_locally P t0 v n2 = (Inr (), n3)"
      "awaiting P dir spec r t0 [(lp_peer_id n, \<lparr>sv_verification = v, sv_reputation = 100\<rparr>)] n3" "lp_published n3 = lp_published n"
      "lp_peer_id n3 = lp_peer_id n" "lp_signing_key n3 = lp_signing_key n"
    using vote_recorded [OF assms(1) awaiting_flag [OF n1(2)], of "lp_peer_id n" "lp_signing_key n" t0 t0] own n1(4-6)
    by (auto simp: n2_def v_def)
  have "tn_directory n = dir" using assms(2) by (simp add: knows_def)
  moreover have "TAG_JOB_RESULT \<noteq> TAG_JOB_SPEC" by (simp add: TAG_JOB_RESULT_def TAG_JOB_SPEC_def)
  moreover have "verify_locally P t0 r n1 = (Inr (), publish TopicVerify (to_cbor_bytes P (wr_job_verification v)) n3)"
    using n3(1) t r(1,3) n1(5) verdict v by (simp add: verify_locally_def n2_def and_then_def)
  ultimately have "m = publish TopicVerify (to_cbor_bytes P (wr_job_verification v)) n3"
    using n1(1) key r(4) by (simp add: m_def dispatch_message_def on_job_result_def with_key_def and_then_def)
  then show ?thesis using n3 by (simp add: publish_def) (simp add: awaiting_def)
qed

text \<open>Two votes for the result close the quorum at a tick, and the executor is rewarded.\<close>

lemma two_agreed_tally:
  assumes "jv_verdict (sv_verification v) = Agreed" "jv_verdict (sv_verification w) = Agreed" "sv_reputation v = 100" "sv_reputation w = 100"
  shows "tally (quorum_new cfg h rh t0\<lparr>q_by_verifier := [(p, v), (p', w)]\<rparr>) = (2, 0, 0, 1)"
  using assms f64_round_pow2 [of 0]
  by (simp add: tally_closed stored_def votes_def rep_sum_def is_agreed_def is_disagreed_def is_abstained_def rep_ratio_def satu_def
      f64_div_def f64_of_nat_exact pow2_def)

lemma two_agreed_finalise:
  assumes "jv_verdict (sv_verification v) = Agreed" "jv_verdict (sv_verification w) = Agreed" "sv_reputation v = 100" "sv_reputation w = 100"
    and "t0 + 200 * 10 ^ 6 \<le> now"
  shows "\<exists>f. try_finalise P (quorum_new reduced_quorum_for_test h rh t0\<lparr>q_by_verifier := [(p, v), (p', w)]\<rparr>) now t me key = Some f
    \<and> jo_verdict (fq_outcome f) = Valid 2 0 0 1"
proof -
  have six: "f64_round (3 / 5) \<le> 1" using six_tenths by simp
  have "\<not> elapsed_since now t0 < 200 * 10 ^ 6" using assms(5) by (simp add: elapsed_since_def)
  then show ?thesis
    unfolding try_finalise_def two_agreed_tally [OF assms(1-4)]
    by (simp add: quorum_new_def reduced_quorum_for_test_def six outcome_new_signed_at_def Let_def)
qed

lemma two_agreed_tick:
  assumes "sha256_ok P" and "cbor_ok P" and w: "awaiting P dir spec r t0 [(p, v), (p', w)] n"
    and votes: "jv_verdict (sv_verification v) = Agreed" "jv_verdict (sv_verification w) = Agreed" "sv_reputation v = 100" "sv_reputation w = 100"
    and "t0 + 200 * 10 ^ 6 \<le> now"
  shows "is_finalised (spec_content_hash P spec) (run_node P n (now, TnTick))
    \<and> (\<exists>x. outcome_for_spec P (lp_shared (run_node P n (now, TnTick))) (spec_content_hash P spec) = Inr (Some x)
          \<and> jo_result_hash x = result_content_hash P r \<and> jo_verdict x = Valid 2 0 0 1)
    \<and> local_reputation (run_node P n (now, TnTick)) (jr_executor r) = 10"
proof -
  let ?h = "spec_content_hash P spec"
  let ?q = "quorum_new reduced_quorum_for_test ?h (result_content_hash P r) t0\<lparr>q_by_verifier := [(p, v), (p', w)]\<rparr>"
  obtain e s where tasks: "lp_tasks n = [(?h, \<lparr>ts_spec = spec, ts_observed_result = Some r, ts_quorum = Some ?q,
      ts_finalised = False, ts_self_executed = e, ts_self_verified = s\<rparr>)]"
    using w by (auto simp: awaiting_def)
  obtain f where f: "try_finalise P ?q now (unix_now now) (lp_peer_id n) (lp_signing_key n) = Some f" "jo_verdict (fq_outcome f) = Valid 2 0 0 1"
    using two_agreed_finalise [OF votes assms(8)] by blast
  have x: "wf_outcome (fq_outcome f)" "jo_spec_hash (fq_outcome f) = ?h" "jo_result_hash (fq_outcome f) = result_content_hash P r"
    using own_outcome_wf [OF assms(1) f(1)] wf_content_hash [OF assms(1)]
    by (simp_all add: quorum_new_def spec_content_hash_def result_content_hash_def)
  have st: "record_outcome P (now_unix now) (lp_shared n) (fq_outcome f) =
      Inr (lp_shared n\<lparr>st_outcomes := [outcome_row_of P (now_unix now) (fq_outcome f)]\<rparr>)"
    using w x by (simp add: awaiting_def record_outcome_def insert_or_ignore_def bind_result_def)
  define n1 where "n1 = n\<lparr>lp_tasks := [(?h, \<lparr>ts_spec = spec, ts_observed_result = Some r, ts_quorum = Some ?q,
      ts_finalised = True, ts_self_executed = e, ts_self_verified = s\<rparr>)],
      lp_shared := lp_shared n\<lparr>st_outcomes := [outcome_row_of P (now_unix now) (fq_outcome f)]\<rparr>\<rparr>"
  have "try_finalise_quorum P now ?h n = (Inr (), n1)"
    by (simp add: try_finalise_quorum_def tasks f(1) st n1_def)
  then have tick: "run_node P n (now, TnTick) = snd (publish_outcome_and_reputation P now ?h n1)"
    by (simp add: test_tick_def finalise_tick_def pending_def finalise_pending_def is_finalised_def tasks) (simp add: n1_def is_finalised_def)
  have dec: "from_cbor_bytes P rd_job_outcome (to_cbor_bytes P (wr_job_outcome (fq_outcome f))) = Some (fq_outcome f)"
    by (rule from_to_cbor_bytes [where rd = rd_job_outcome and wr = wr_job_outcome, OF assms(2) rd_wr_job_outcome [OF x(1)]])
  have out: "outcome_for_spec P (lp_shared n1) ?h = Inr (Some (fq_outcome f))"
    using dec x(2) by (simp add: outcome_for_spec_def n1_def outcome_row_of_def)
  have "lp_applied_keys n1 = {}" "lp_reputation_local n1 = []" using w by (simp_all add: awaiting_def n1_def)
  then show ?thesis
    using out f(2) x unfolding tick publish_outcome_and_reputation_def
    by (simp add: n1_def apply_reputation_locally_def apply_reputation_def and_then_def apply_reputation_delta_def local_reputation_def
        publish_deltas_def publish_def Let_def is_finalised_def outcome_for_spec_def REPUTATION_AWARD_EXECUTOR_def)
qed

text \<open>
  The run of the acceptance test: the first node submits, what a node publishes reaches the other two. The last
  state of each node is the one after both votes arrived.
\<close>

definition deliver :: "prims \<Rightarrow> system_time \<Rightarrow> (topic \<times> bytes) list \<Rightarrow> test_loop \<Rightarrow> test_loop" where
  "deliver P now messages n = fold (\<lambda>(t, b) n. run_node P n (now, TnMessage t b)) messages n"

definition acceptance_run ::
    "prims \<Rightarrow> system_time \<Rightarrow> job_spec \<Rightarrow> peer_id \<times> bytes \<Rightarrow> peer_id \<times> bytes \<Rightarrow> peer_id \<times> bytes \<Rightarrow> test_loop list" where
  "acceptance_run P t0 spec a b c =
     (let dir = map (\<lambda>(p, k). (p, ed_public P k)) [a, b, c];
          start = (\<lambda>(p, k). run_node_init p k reduced_quorum_for_test dir);
          a1 = run_node P (start a) (t0, TnSubmit spec True);
          b1 = deliver P t0 (lp_published a1) (start b);
          c1 = deliver P t0 (lp_published a1) (start c);
          a2 = deliver P t0 (lp_published b1) a1;
          c2 = deliver P t0 (lp_published b1) c1;
          from_a = drop (length (lp_published a1)) (lp_published a2);
          from_c = drop (length (lp_published c1)) (lp_published c2)
      in [deliver P t0 from_c a2, deliver P t0 (from_a @ from_c) b1, deliver P t0 from_a c2])"

lemma spec_spread:
  assumes P: "sha256_ok P" "ed25519_ok P" "cbor_ok P" and ids: "a \<noteq> b" "a \<noteq> c" "peer_bytes b < peer_bytes c"
    and spec: "wf_spec spec" "js_submitter spec = a" "spec_verify_signature P spec (ed_public P ka) = Inr ()"
    and dir_def: "dir = [(a, ed_public P ka), (b, ed_public P kb), (c, ed_public P kc)]"
    and a1_def: "a1 = run_node P (fresh P dir a ka) (t0, TnSubmit spec True)"
    and b1_def: "b1 = deliver P t0 (lp_published a1) (fresh P dir b kb)"
    and c1_def: "c1 = deliver P t0 (lp_published a1) (fresh P dir c kc)"
  shows "knows P dir spec a1 \<and> lp_peer_id a1 = a \<and> lp_signing_key a1 = ka
    \<and> knows P dir spec c1 \<and> lp_peer_id c1 = c \<and> lp_signing_key c1 = kc
    \<and> (\<exists>r. awaiting P dir spec r t0 [] b1 \<and> lp_published b1 = [(TopicTasks, TAG_JOB_RESULT # to_cbor_bytes P (wr_job_result r))]
      \<and> jr_spec_hash r = spec_content_hash P spec \<and> jr_result_payload r = build_executor_result P spec \<and> jr_executor r = b
      \<and> result_verify_signature P r (ed_public P kb) = Inr ())"
proof -
  have bc: "b \<noteq> c" using ids(3) by auto
  then have key: "map_of dir a = Some (ed_public P ka)" using ids by (simp add: dir_def)
  have pick: "pick_executor n a = Some b" if "knows P dir spec n" for n
    using that ids by (auto simp: knows_def pick_executor_def dir_def)
  have dec: "from_cbor_bytes P rd_job_spec (to_cbor_bytes P (wr_job_spec spec)) = Some spec"
    by (rule from_to_cbor_bytes [where rd = rd_job_spec and wr = wr_job_spec, OF P(3) rd_wr_job_spec [OF spec(1)]])
  have a1: "knows P dir spec a1" "lp_published a1 = [(TopicTasks, TAG_JOB_SPEC # to_cbor_bytes P (wr_job_spec spec))]"
      "lp_peer_id a1 = a" "lp_signing_key a1 = ka" using submitted [of P dir spec a ka t0] by (simp_all add: a1_def)
  note received = spec_received [OF dec key [folded spec(2)] spec(3), unfolded spec(2)]
  obtain n where n: "knows P dir spec n" "lp_peer_id n = b" "lp_signing_key n = kb" "lp_published n = []"
    and b1: "b1 = snd (execute_locally P t0 spec n)"
    using received [of t0 b kb] pick by (auto simp: deliver_def a1 b1_def)
  define r where "r = execute_task P t0 ''harness-sha256'' spec n"
  have "jr_spec_hash r = spec_content_hash P spec" "jr_result_payload r = build_executor_result P spec" "jr_executor r = b"
      "result_verify_signature P r (ed_public P kb) = Inr ()"
    using result_new_signed_verifies [OF P(2)] n by (simp_all add: r_def execute_task_def) (simp_all add: result_new_signed_at_def Let_def)
  moreover have "knows P dir spec c1" "lp_peer_id c1 = c" "lp_signing_key c1 = kc"
    using received [of t0 c kc] pick bc by (auto simp: deliver_def a1 c1_def)
  ultimately show ?thesis using executed [OF n(1) r_def] n(4) a1 by (auto simp: b1)
qed

lemma votes_exchanged:
  assumes P: "sha256_ok P" "ed25519_ok P" "cbor_ok P" and ids: "a \<noteq> b" "a \<noteq> c" "b \<noteq> c"
    and seed: "js_kind spec = JobInference \<longrightarrow> ji_seed (js_inputs spec) \<noteq> None"
    and dir_def: "dir = [(a, ed_public P ka), (b, ed_public P kb), (c, ed_public P kc)]"
    and a1: "knows P dir spec a1" "lp_peer_id a1 = a" "lp_signing_key a1 = ka"
    and c1: "knows P dir spec c1" "lp_peer_id c1 = c" "lp_signing_key c1 = kc"
    and b1: "awaiting P dir spec r t0 [] b1" "lp_published b1 = [(TopicTasks, TAG_JOB_RESULT # to_cbor_bytes P (wr_job_result r))]"
    and r: "jr_spec_hash r = spec_content_hash P spec" "jr_result_payload r = build_executor_result P spec" "jr_executor r = b"
      "result_verify_signature P r (ed_public P kb) = Inr ()"
    and a2_def: "a2 = deliver P t0 (lp_published b1) a1" and c2_def: "c2 = deliver P t0 (lp_published b1) c1"
    and from_a: "from_a = drop (length (lp_published a1)) (lp_published a2)"
    and from_c: "from_c = drop (length (lp_published c1)) (lp_published c2)"
    and vote: "vote = (\<lambda>p k. \<lparr>sv_verification = vote_of P t0 r p k, sv_reputation = 100\<rparr>)"
  shows "awaiting P dir spec r t0 [(a, vote a ka), (c, vote c kc)] (deliver P t0 from_c a2)
    \<and> awaiting P dir spec r t0 [(a, vote a ka), (c, vote c kc)] (deliver P t0 (from_a @ from_c) b1)
    \<and> awaiting P dir spec r t0 [(c, vote c kc), (a, vote a ka)] (deliver P t0 from_a c2)"
proof -
  let ?va = "vote_of P t0 r a ka" and ?vc = "vote_of P t0 r c kc"
  have keys: "map_of dir a = Some (ed_public P ka)" "map_of dir b = Some (ed_public P kb)" "map_of dir c = Some (ed_public P kc)"
    using ids by (simp_all add: dir_def)
  have rdec: "from_cbor_bytes P rd_job_result (to_cbor_bytes P (wr_job_result r)) = Some r"
    using wf_content_hash [OF P(1)] r(1)
    by (intro from_to_cbor_bytes [where rd = rd_job_result and wr = wr_job_result, OF P(3) rd_wr_job_result])
      (simp add: wf_result_def spec_content_hash_def)
  note verified = result_verified [OF P(2) _ r(1,2) _ rdec _ r(4) _ seed, unfolded r(3), OF _ _ keys(2)]
  have a2: "awaiting P dir spec r t0 [(a, vote a ka)] a2" "from_a = [(TopicVerify, to_cbor_bytes P (wr_job_verification ?va))]"
    using verified [OF a1(1), of a2 t0 ?va] keys ids by (simp_all add: a1 a2_def b1 deliver_def from_a vote)
  have c2: "awaiting P dir spec r t0 [(c, vote c kc)] c2" "from_c = [(TopicVerify, to_cbor_bytes P (wr_job_verification ?vc))]"
    using verified [OF c1(1), of c2 t0 ?vc] keys ids by (simp_all add: c1 c2_def b1 deliver_def from_c vote)
  note received = vote_received [OF P(2,1,3), where tv = t0 and now = t0 and ?t0.0 = t0]
  have "awaiting P dir spec r t0 [(a, vote a ka)] (run_node P b1 (t0, TnMessage TopicVerify (to_cbor_bytes P (wr_job_verification ?va))))"
    using received [OF b1(1) keys(1)] by (simp add: vote)
  from received [OF this keys(3)] received [OF a2(1) keys(3)] received [OF c2(1) keys(1)] show ?thesis
    using ids by (simp add: a2(2) c2(2) deliver_def vote)
qed

text \<open>
  C34. In the acceptance run of three nodes every node finalises the task at the first tick after the quorum's minimum
  time, all with the result of the same executor, two agreements, none against and weight 1, and every node
  has given that executor its ten points.
\<close>

theorem acceptance_run_agrees:
  assumes P: "sha256_ok P" "ed25519_ok P" "cbor_ok P"
    and ids: "a \<noteq> b" "a \<noteq> c" "peer_bytes b < peer_bytes c"
    and spec: "wf_spec spec" "js_submitter spec = a" "spec_verify_signature P spec (ed_public P ka) = Inr ()"
    and seed: "js_kind spec = JobInference \<longrightarrow> ji_seed (js_inputs spec) \<noteq> None"
    and t1: "t0 + 200 * 10 ^ 6 \<le> t1"
  shows "\<exists>r. jr_executor r = b \<and> list_all (\<lambda>n. let n = run_node P n (t1, TnTick) in
      is_finalised (spec_content_hash P spec) n
      \<and> (\<exists>x. outcome_for_spec P (lp_shared n) (spec_content_hash P spec) = Inr (Some x)
            \<and> jo_result_hash x = result_content_hash P r \<and> jo_verdict x = Valid 2 0 0 1)
      \<and> local_reputation n b = 10) (acceptance_run P t0 spec (a, ka) (b, kb) (c, kc))"
proof -
  have bc: "b \<noteq> c" using ids(3) by auto
  define dir where "dir = [(a, ed_public P ka), (b, ed_public P kb), (c, ed_public P kc)]"
  define a1 where "a1 = run_node P (fresh P dir a ka) (t0, TnSubmit spec True)"
  define b1 where "b1 = deliver P t0 (lp_published a1) (fresh P dir b kb)"
  define c1 where "c1 = deliver P t0 (lp_published a1) (fresh P dir c kc)"
  note spread = spec_spread [OF P ids spec dir_def a1_def b1_def c1_def]
  then obtain r where r: "awaiting P dir spec r t0 [] b1" "lp_published b1 = [(TopicTasks, TAG_JOB_RESULT # to_cbor_bytes P (wr_job_result r))]"
      "jr_spec_hash r = spec_content_hash P spec" "jr_result_payload r = build_executor_result P spec" "jr_executor r = b"
      "result_verify_signature P r (ed_public P kb) = Inr ()" by blast
  have "knows P dir spec a1" "lp_peer_id a1 = a" "lp_signing_key a1 = ka" "knows P dir spec c1" "lp_peer_id c1 = c" "lp_signing_key c1 = kc"
    using spread by blast+
  note votes = votes_exchanged [OF P ids(1,2) bc seed dir_def this r refl refl refl refl refl]
  note tick = two_agreed_tick [OF P(1,3) _ _ _ _ _ t1, unfolded r(5)]
  show ?thesis
    unfolding acceptance_run_def
    using votes [THEN conjunct1, THEN tick] votes [THEN conjunct2, THEN conjunct1, THEN tick] votes [THEN conjunct2, THEN conjunct2, THEN tick] r(5)
    by (intro exI [of _ r]) (simp add: Let_def a1_def b1_def c1_def fresh_def dir_def)
qed

section \<open>Instances\<close>

definition demo_test_spec :: job_spec where
  "demo_test_spec = fst (spec_new_signed_at demo_prims JobInference (inference_prompt ''hi'' 3) SvcInference False 5 (PeerId [9]) [8])"

theorem acceptance_run_agrees_witness:
  "\<exists>r. jr_executor r = PeerId [1] \<and> list_all (\<lambda>n. let n = run_node demo_prims n (10 ^ 9, TnTick) in
      is_finalised (spec_content_hash demo_prims demo_test_spec) n
      \<and> (\<exists>x. outcome_for_spec demo_prims (lp_shared n) (spec_content_hash demo_prims demo_test_spec) = Inr (Some x)
            \<and> jo_result_hash x = result_content_hash demo_prims r \<and> jo_verdict x = Valid 2 0 0 1)
      \<and> local_reputation n (PeerId [1]) = 10)
    (acceptance_run demo_prims 0 demo_test_spec (PeerId [9], [8]) (PeerId [1], [6]) (PeerId [2], [7]))"
proof (rule acceptance_run_agrees [OF demo_ok(2,1,3)])
  show "spec_verify_signature demo_prims demo_test_spec (ed_public demo_prims [8]) = Inr ()"
    unfolding demo_test_spec_def by (rule spec_new_signed_verifies [OF demo_ok(1)])
qed (simp_all add: demo_test_spec_def spec_new_signed_at_def Let_def wf_spec_def wf_job_inputs_def inference_prompt_def)

theorem testnet_history_inv_witness:
  "let n = run_steps (run_node demo_prims) (run_node_init (PeerId [9]) [8] reduced_quorum_for_test [(PeerId [9], [8])])
       [(0, TnSubmit demo_test_spec True), (1, TnKey (PeerId [1]) [6]), (2, TnTick)]
   in store_inv demo_prims (lp_shared n) \<and> sum_list (deltas_of (lp_shared n) (PeerId [1])) = local_reputation n (PeerId [1])
    \<and> distinct (map fst (lp_tasks n))"
  using testnet_history_inv [OF demo_ok(2,1), of "[(PeerId [9], [8])]" "\<lambda>p. if p = PeerId [1] then [6] else [8]"
      "[(0, TnSubmit demo_test_spec True), (1, TnKey (PeerId [1]) [6]), (2, TnTick)]" "PeerId [9]" "[8]" reduced_quorum_for_test]
  by (simp add: Let_def del: run_steps.simps)

theorem forged_reputation_is_applied_witness:
  "let d = delta_unsigned (DeltaReputation (PeerId [1]) 10 ''gift'' None) (PeerId [9]) 5;
       n = run_node_init (PeerId [2]) [7] reduced_quorum_for_test [(PeerId [9], [8])]
   in verify_delta demo_prims d [8] \<noteq> Inr ()
    \<and> (\<exists>n'. dispatch_message demo_prims 0 TopicStateDeltas (delta_encode_cbor demo_prims d) n = (Inr (), n')
        \<and> local_reputation n' (PeerId [1]) = 10)"
proof -
  define d where "d = delta_unsigned (DeltaReputation (PeerId [1]) 10 ''gift'' None) (PeerId [9]) 5"
  define n where "n = run_node_init (PeerId [2]) [7] reduced_quorum_for_test [(PeerId [9], [8])]"
  have "delta_decode_cbor demo_prims (delta_encode_cbor demo_prims d) = Some d"
    unfolding delta_decode_cbor_def delta_encode_cbor_def
    by (intro from_to_cbor_bytes [where rd = rd_delta and wr = wr_delta, OF demo_ok(3) rd_wr_delta])
      (simp add: d_def delta_unsigned_def)
  then obtain n' where "dispatch_message demo_prims 0 TopicStateDeltas (delta_encode_cbor demo_prims d) n = (Inr (), n')"
      "local_reputation n' (PeerId [1]) = local_reputation n (PeerId [1]) + 10"
    using forged_reputation_is_applied [of demo_prims "delta_encode_cbor demo_prims d" d "PeerId [1]" 10 "''gift''" None n "[8]" 0]
      to_cbor_nonempty [OF demo_ok(3)]
    by (auto simp: delta_encode_cbor_def d_def n_def delta_unsigned_def run_node_init_def)
  moreover have "local_reputation n (PeerId [1]) = 0" by (simp add: n_def run_node_init_def local_reputation_def)
  moreover have "verify_delta demo_prims d [8] \<noteq> Inr ()" by (simp add: d_def verify_delta_def delta_unsigned_def)
  ultimately show ?thesis by (simp add: Let_def d_def n_def)
qed

end
