(* ===== verification/Chaos.thy ===== *)
theory Chaos
  imports Harness Rust_Str
begin

text \<open>
  The adversarial in-process network (\<open>server/parseh-chaos/src\<close>): the partition table shared by all nodes, the
  verdicts of misbehaving verifiers, the corruption of state deltas, and the node loop of
  \<open>scenario.rs\<close> with its handlers of commands, ticks, gossip messages and state-sync messages. The swarm
  stands outside: whether gossipsub took a message, the peers that are connected and the coin of the random
  verifier are arguments.
\<close>

section \<open>The partition table\<close>

text \<open>
  Every node holds the cell of its own group, and the table holds the same cells, so that the table is the
  one place where groups are kept.
\<close>

type_synonym partition_table = "(peer_id \<times> u8) list"

definition DEFAULT_GROUP :: u8 where
  "DEFAULT_GROUP = 0"

definition partition_register :: "peer_id \<Rightarrow> partition_table \<Rightarrow> partition_table" where
  "partition_register peer t = or_insert peer DEFAULT_GROUP t"

definition set_group :: "peer_id \<Rightarrow> u8 \<Rightarrow> partition_table \<Rightarrow> partition_table" where
  "set_group peer g t = AList.update peer g t"

definition group_of :: "partition_table \<Rightarrow> peer_id \<Rightarrow> u8" where
  "group_of t peer = (case map_of t peer of None \<Rightarrow> DEFAULT_GROUP | Some g \<Rightarrow> g)"

definition partition_into :: "peer_id list \<Rightarrow> nat \<Rightarrow> nat \<Rightarrow> u8 \<Rightarrow> partition_table \<Rightarrow> partition_table" where
  "partition_into nodes start_idx len g t = fold (\<lambda>p. set_group p g) (take len (drop start_idx nodes)) t"

definition heal_partition :: "peer_id list \<Rightarrow> partition_table \<Rightarrow> partition_table" where
  "heal_partition nodes t = fold (\<lambda>p. set_group p DEFAULT_GROUP) nodes t"

section \<open>Misbehaving verifiers\<close>

datatype malicious_mode = AlwaysAgreed | AlwaysDisagreed | Random | RaceToVoteFirst | RubberStamp

definition malicious_verdict :: "prims \<Rightarrow> bool \<Rightarrow> malicious_mode \<Rightarrow> job_result \<Rightarrow> verifier_verdict" where
  "malicious_verdict P coin mode result =
     (case mode of
        AlwaysAgreed \<Rightarrow> Agreed
      | AlwaysDisagreed \<Rightarrow> Disagreed (result_content_hash P result)
      | Random \<Rightarrow> if coin then Agreed else Disagreed (result_content_hash P result)
      | RaceToVoteFirst \<Rightarrow> Agreed
      | RubberStamp \<Rightarrow> Agreed)"

definition standard_quorum_for_test :: quorum_config where
  "standard_quorum_for_test = \<lparr>qc_m = 5, qc_n = 9, qc_t_min = 200 * 10 ^ 6, qc_t_max = from_secs 60,
     qc_rep_weighted_threshold = f64_round (6 / 10)\<rparr>"

definition build_modes :: "nat \<Rightarrow> nat \<Rightarrow> malicious_mode \<Rightarrow> malicious_mode option list" where
  "build_modes honest_count malicious_count mode = replicate honest_count None @ replicate malicious_count (Some mode)"

section \<open>Corrupted deltas\<close>

datatype corruption_mode = FlipBitsInRow | TruncateRow | ReSignWithImposterKey | DeleteRow

datatype corrupt_error = DeltaTooShort | DecodeFlipped | NeedsImposterKey

definition corrupt :: "prims \<Rightarrow> corruption_mode \<Rightarrow> state_delta \<Rightarrow> bytes option \<Rightarrow> corrupt_error + state_delta" where
  "corrupt P mode delta imposter_key =
     (case mode of
        FlipBitsInRow \<Rightarrow>
          (let bytes = delta_encode_cbor P delta in
           if length bytes < 4 then Inl DeltaTooShort
           else
             let idx = length bytes - 3
             in case delta_decode_cbor P (bytes[idx := xor (bytes ! idx) 0xFF]) of
                  None \<Rightarrow> Inl DecodeFlipped
                | Some corrupted \<Rightarrow> Inr (corrupted\<lparr>sd_signature := replicate 64 0xAB\<rparr>))
      | TruncateRow \<Rightarrow> Inr (delta\<lparr>sd_signature := []\<rparr>)
      | ReSignWithImposterKey \<Rightarrow>
          (case imposter_key of
             None \<Rightarrow> Inl NeedsImposterKey
           | Some key \<Rightarrow> Inr (sign_delta P (delta\<lparr>sd_signature := []\<rparr>) key))
      | DeleteRow \<Rightarrow>
          (let corrupted = delta\<lparr>sd_signature := []\<rparr>
           in Inr (case sd_kind corrupted of
                DeltaOutcome x \<Rightarrow> corrupted\<lparr>sd_kind := DeltaOutcome (x\<lparr>jo_verification_hashes := []\<rparr>)\<rparr>
              | _ \<Rightarrow> corrupted)))"

definition build_baseline_outcome_delta ::
    "prims \<Rightarrow> system_time \<Rightarrow> peer_id \<Rightarrow> bytes \<Rightarrow> chash \<Rightarrow> chash \<Rightarrow> state_delta" where
  "build_baseline_outcome_delta P now observer observer_key spec_hash result_hash =
     (let outcome = fst (outcome_new_signed_at P spec_hash result_hash [] (Valid 2 0 0 1) (unix_now now) observer observer_key)
      in sign_delta P (delta_unsigned (DeltaOutcome outcome) observer (unix_now now)) observer_key)"

section \<open>State\<close>

record chaos_loop = node_loop +
  cn_registry :: registry
  cn_listen_addr :: "multiaddr option"
  cn_readiness :: readiness_state
  cn_malicious :: "malicious_mode option"
  cn_verifications_by_result :: "(chash \<times> u32) list"
  cn_synced_outcomes :: "chash set"
  cn_requests :: "(peer_id \<times> state_sync_request) list"
  cn_responses :: "(peer_id \<times> state_sync_response) list"

definition REPUTATION_AWARD_VERIFIER :: i32 where
  "REPUTATION_AWARD_VERIFIER = 5"

definition REPUTATION_PENALTY_FALSE_DISPUTE :: i32 where
  "REPUTATION_PENALTY_FALSE_DISPUTE = - 5"

definition spawn_node :: "prims \<Rightarrow> system_time \<Rightarrow> peer_id \<Rightarrow> bytes \<Rightarrow> quorum_config \<Rightarrow> malicious_mode option \<Rightarrow> chaos_loop" where
  "spawn_node P now peer_id signing_key quorum_config malicious =
     \<lparr>lp_peer_id = peer_id, lp_signing_key = signing_key, lp_shared = empty_store, lp_quorum_config = quorum_config,
      lp_tasks = [], lp_reputation_local = [], lp_applied_keys = {}, lp_published = [],
      cn_registry = record_identity registry_new
        \<lparr>id_peer_id = peer_id, id_verifying_key = ed_public P signing_key, id_reachable_addrs = [],
         id_first_seen = unix_now now, id_last_seen = unix_now now, id_readiness = Initialised\<rparr>,
      cn_listen_addr = None, cn_readiness = Connected, cn_malicious = malicious,
      cn_verifications_by_result = [], cn_synced_outcomes = {}, cn_requests = [], cn_responses = []\<rparr>"

section \<open>Methods of the loop\<close>

text \<open>A result or verification whose parent row is missing is dropped without an error.\<close>

definition chaos_record_result :: "prims \<Rightarrow> system_time \<Rightarrow> job_result \<Rightarrow> chaos_loop \<Rightarrow> chaos_loop outcome_of" where
  "chaos_record_result P now result n =
     (case record_result P (now_unix now) (lp_shared n) result of
        Inl ForeignKey \<Rightarrow> (Inr (), n)
      | Inl e \<Rightarrow> (Inl (LoopStore e), n)
      | Inr st \<Rightarrow> (Inr (), attach_result P now result (n\<lparr>lp_shared := st\<rparr>)))"

definition count_verification :: "chash \<Rightarrow> chaos_loop \<Rightarrow> chaos_loop" where
  "count_verification result_hash n = n\<lparr>cn_verifications_by_result :=
     (let m = or_insert result_hash 0 (cn_verifications_by_result n) in modify_entry result_hash (\<lambda>c. c + 1) m)\<rparr>"

definition chaos_record_verification :: "prims \<Rightarrow> system_time \<Rightarrow> job_verification \<Rightarrow> chaos_loop \<Rightarrow> chaos_loop outcome_of" where
  "chaos_record_verification P now v n =
     (case record_verification P (now_unix now) (lp_shared n) v of
        Inl ForeignKey \<Rightarrow> (Inr (), n)
      | Inl e \<Rightarrow> (Inl (LoopStore e), n)
      | Inr st \<Rightarrow> finalise_voted P now
          (add_vote P (verifying_key (cn_registry n)) v (count_verification (jv_result_hash v) (n\<lparr>lp_shared := st\<rparr>))))"

definition chaos_record_outcome :: "prims \<Rightarrow> system_time \<Rightarrow> job_outcome \<Rightarrow> chaos_loop \<Rightarrow> chaos_loop outcome_of" where
  "chaos_record_outcome P now outcome n =
     (case record_outcome P (now_unix now) (lp_shared n) outcome of
        Inl e \<Rightarrow> (Inl (LoopStore e), n)
      | Inr st \<Rightarrow> (Inr (), n\<lparr>lp_shared := st\<rparr>))"

record node_snapshot =
  ns_task_hashes :: "chash set"
  ns_outcomes :: "chash \<rightharpoonup> job_outcome"
  ns_reputation :: "(peer_id \<times> int) list"
  ns_known_identities :: nat
  ns_group :: u8
  ns_verifications_by_result :: "(chash \<times> u32) list"

definition chaos_snapshot :: "prims \<Rightarrow> partition_table \<Rightarrow> chaos_loop \<Rightarrow> node_snapshot" where
  "chaos_snapshot P t n =
     (let outcome = (\<lambda>h. case outcome_for_spec P (lp_shared n) h of Inr r \<Rightarrow> r | Inl _ \<Rightarrow> None)
      in \<lparr>ns_task_hashes = set (map fst (lp_tasks n)) \<union> cn_synced_outcomes n,
          ns_outcomes = (\<lambda>h. if is_finalised h n \<or> h \<in> cn_synced_outcomes n then outcome h else None),
          ns_reputation = lp_reputation_local n,
          ns_known_identities = identity_count (cn_registry n),
          ns_group = group_of t (lp_peer_id n),
          ns_verifications_by_result = cn_verifications_by_result n\<rparr>)"

definition chaos_pick_executor :: "job_spec \<Rightarrow> registry \<Rightarrow> peer_id \<Rightarrow> peer_id option" where
  "chaos_pick_executor spec g local =
     (let eligible = filter (\<lambda>p. p \<noteq> js_submitter spec)
            (map id_peer_id (ready_peers_for_service g (js_service spec)));
          eligible = (if local \<notin> set eligible \<and> local \<noteq> js_submitter spec then eligible @ [local] else eligible)
      in case sort_key peer_bytes eligible of [] \<Rightarrow> None | p # _ \<Rightarrow> Some p)"

section \<open>Publishing\<close>

definition chaos_publish_caps :: "prims \<Rightarrow> system_time \<Rightarrow> multiaddr \<Rightarrow> bool \<Rightarrow> chaos_loop \<Rightarrow> chaos_loop" where
  "chaos_publish_caps P now memory_addr ok n =
     (let ad = \<lparr>ad_peer_id = lp_peer_id n, ad_version = CAPS_WIRE_VERSION, ad_services = [SvcInference],
            ad_inference = Some \<lparr>ic_models = [''chaos-sha256''], ic_context_size = 4096, ic_estimated_tokens_per_sec = 100\<rparr>,
            ad_relay = None, ad_storage = None,
            ad_network_address = (case cn_listen_addr n of None \<Rightarrow> memory_addr | Some a \<Rightarrow> a),
            ad_signed_at = unix_now now, ad_ttl_seconds = 300,
            ad_verifying_key_bytes = ed_public P (lp_signing_key n),
            ad_reachable_addrs = (case cn_listen_addr n of None \<Rightarrow> [] | Some a \<Rightarrow> [a]),
            ad_readiness = cn_readiness n, ad_has_external_internet = False, ad_bandwidth_mbps_external = None\<rparr>
      in if \<not> ok then n
         else
           let n = publish TopicCaps (encode_advertisement P ad) n
           in if cn_readiness n \<in> {Initialised, Connected, Listening} then n\<lparr>cn_readiness := Ready\<rparr> else n)"

definition chaos_submit_spec :: "prims \<Rightarrow> system_time \<Rightarrow> bool \<Rightarrow> job_spec \<Rightarrow> chaos_loop \<Rightarrow> chaos_loop outcome_of" where
  "chaos_submit_spec P now ok spec n =
     and_then (open_task P now spec n) (\<lambda>n.
       if ok then (Inr (), publish TopicTasks (to_cbor_bytes P (wr_job_spec spec)) n) else (Inl LoopPublish, n))"

definition inject_delta_raw :: "prims \<Rightarrow> bool \<Rightarrow> state_delta \<Rightarrow> chaos_loop \<Rightarrow> chaos_loop outcome_of" where
  "inject_delta_raw P ok delta n =
     (if ok then (Inr (), publish TopicStateDeltas (delta_encode_cbor P delta) n) else (Inl LoopPublish, n))"

definition verifier_reward :: "prims \<Rightarrow> system_time \<Rightarrow> job_outcome \<Rightarrow> job_verification \<Rightarrow> chaos_loop \<Rightarrow> chaos_loop outcome_of" where
  "verifier_reward P now outcome v n =
     (case jv_verdict v of
        Agreed \<Rightarrow> apply_reputation now (jv_verifier v) REPUTATION_AWARD_VERIFIER ''verifier_consensus_reward''
          (Some (outcome_content_hash P outcome)) n
      | Disagreed _ \<Rightarrow> apply_reputation now (jv_verifier v) REPUTATION_PENALTY_FALSE_DISPUTE ''verifier_false_dispute_penalty''
          (Some (outcome_content_hash P outcome)) n
      | Abstained \<Rightarrow> (Inr (), n))"

fun verifier_rewards :: "prims \<Rightarrow> system_time \<Rightarrow> job_outcome \<Rightarrow> job_verification list \<Rightarrow> chaos_loop \<Rightarrow> chaos_loop outcome_of" where
  "verifier_rewards P now outcome [] n = (Inr (), n)"
| "verifier_rewards P now outcome (v # vs) n =
     and_then (verifier_reward P now outcome v n) (verifier_rewards P now outcome vs)"

definition publish_outcome_and_rep :: "prims \<Rightarrow> system_time \<Rightarrow> chash \<Rightarrow> chaos_loop \<Rightarrow> chaos_loop outcome_of" where
  "publish_outcome_and_rep P now spec_hash n =
     (case map_of (lp_tasks n) spec_hash of
        None \<Rightarrow> (Inr (), n)
      | Some t \<Rightarrow>
        if \<not> ts_finalised t then (Inr (), n)
        else (case ts_observed_result t of
           None \<Rightarrow> (Inr (), n)
         | Some result \<Rightarrow>
           (case outcome_for_spec P (lp_shared n) spec_hash of
              Inl e \<Rightarrow> (Inl (LoopStore e), n)
            | Inr None \<Rightarrow> (Inr (), n)
            | Inr (Some outcome) \<Rightarrow>
                and_then (chaos_record_outcome P now outcome n) (\<lambda>n.
                and_then (case jo_verdict outcome of
                    Valid _ _ _ _ \<Rightarrow>
                      and_then (apply_reputation now (jr_executor result) REPUTATION_AWARD_EXECUTOR
                        ''executor_consensus_reward'' (Some (outcome_content_hash P outcome)) n) (\<lambda>n.
                        verifier_rewards P now outcome
                          (case verifications_for_result P (lp_shared n) (result_content_hash P result) of Inr vs \<Rightarrow> vs | Inl _ \<Rightarrow> []) n)
                  | _ \<Rightarrow> (Inr (), n))
                  (\<lambda>n. (Inr (), publish_deltas P now (jr_executor result) outcome n))))))"

section \<open>State sync\<close>

definition issue_state_sync :: "prims \<Rightarrow> system_time \<Rightarrow> peer_id list \<Rightarrow> u64 \<Rightarrow> chaos_loop \<Rightarrow> chaos_loop" where
  "issue_state_sync P now peers since_unix n =
     n\<lparr>cn_requests := cn_requests n @ map (\<lambda>p. (p, request_new_signed P since_unix STATE_SYNC_HARD_CEILING (lp_peer_id n)
        (unix_now now) (lp_signing_key n))) peers\<rparr>"

definition chaos_state_sync_response :: "prims \<Rightarrow> system_time \<Rightarrow> chaos_loop \<Rightarrow> state_sync_request \<Rightarrow> state_sync_response" where
  "chaos_state_sync_response P now n request =
     (let respond = (\<lambda>outcomes truncated.
            response_new_signed P outcomes truncated (lp_peer_id n) (unix_now now) (lp_signing_key n));
          limit = min (rq_max_outcomes request) STATE_SYNC_HARD_CEILING
      in case verifying_key (cn_registry n) (rq_requester request) of
           None \<Rightarrow> respond [] False
         | Some requester_key \<Rightarrow>
           if request_verify_signature P request requester_key \<noteq> Inr () then respond [] False
           else if limit = 0 then respond [] False
           else (case outcomes_since P (lp_shared n) (rq_since_unix request) (ucast limit + 1) of
               Inl _ \<Rightarrow> respond [] False
             | Inr outcomes \<Rightarrow>
               (let truncated = unat limit < length outcomes
                in respond (if truncated then take (unat limit) outcomes else outcomes) truncated)))"

definition chaos_apply_synced :: "prims \<Rightarrow> system_time \<Rightarrow> job_outcome \<Rightarrow> chaos_loop \<Rightarrow> chaos_loop" where
  "chaos_apply_synced P now outcome n =
     (case verifying_key (cn_registry n) (jo_observed_by outcome) of
        None \<Rightarrow> n
      | Some observer_key \<Rightarrow>
        if outcome_verify_signature P outcome observer_key \<noteq> Inr () then n
        else (case record_synced_outcome P (now_unix now) (lp_shared n) outcome of
            Inl _ \<Rightarrow> n
          | Inr st \<Rightarrow> n\<lparr>lp_shared := st, cn_synced_outcomes := insert (jo_spec_hash outcome) (cn_synced_outcomes n)\<rparr>))"

definition chaos_apply_response :: "prims \<Rightarrow> system_time \<Rightarrow> state_sync_response \<Rightarrow> chaos_loop \<Rightarrow> chaos_loop" where
  "chaos_apply_response P now response n =
     (let bad_envelope = (case verifying_key (cn_registry n) (rs_responder response) of
            None \<Rightarrow> False
          | Some rk \<Rightarrow> response_verify_signature P response rk \<noteq> Inr ())
      in if bad_envelope then n else fold (chaos_apply_synced P now) (rs_outcomes response) n)"

section \<open>Messages\<close>

definition chaos_execute :: "prims \<Rightarrow> system_time \<Rightarrow> job_spec \<Rightarrow> chaos_loop \<Rightarrow> chaos_loop outcome_of" where
  "chaos_execute P now spec n =
     (let spec_hash = spec_content_hash P spec in
      if (case map_of (lp_tasks n) spec_hash of None \<Rightarrow> False | Some t \<Rightarrow> ts_self_executed t) then (Inr (), n)
      else
        let n = n\<lparr>lp_tasks := modify_entry spec_hash (\<lambda>t. t\<lparr>ts_self_executed := True\<rparr>) (lp_tasks n)\<rparr>;
            result = execute_task P now ''chaos-sha256'' spec n
        in and_then (chaos_record_result P now result n)
             (\<lambda>n. (Inr (), publish TopicVerify (TAG_JOB_RESULT # to_cbor_bytes P (wr_job_result result)) n)))"

definition chaos_on_spec :: "prims \<Rightarrow> system_time \<Rightarrow> bytes \<Rightarrow> chaos_loop \<Rightarrow> chaos_loop outcome_of" where
  "chaos_on_spec P now payload n =
     (case from_cbor_bytes P rd_job_spec payload of
        None \<Rightarrow> (Inl LoopDecode, n)
      | Some spec \<Rightarrow>
        (case verifying_key (cn_registry n) (js_submitter spec) of
           None \<Rightarrow> (Inr (), n)
         | Some submitter_pk \<Rightarrow>
           if spec_verify_signature P spec submitter_pk \<noteq> Inr () then (Inl LoopSignature, n)
           else and_then (open_task P now spec n) (\<lambda>n.
             if js_submitter spec = lp_peer_id n then (Inr (), n)
             else if chaos_pick_executor spec (cn_registry n) (lp_peer_id n) \<noteq> Some (lp_peer_id n) then (Inr (), n)
             else chaos_execute P now spec n)))"

definition chaos_verdict :: "prims \<Rightarrow> bool \<Rightarrow> malicious_mode option \<Rightarrow> job_spec \<Rightarrow> job_result \<Rightarrow> loop_error + verifier_verdict" where
  "chaos_verdict P coin malicious spec result =
     (case malicious of None \<Rightarrow> honest_verdict P spec result | Some mode \<Rightarrow> Inr (malicious_verdict P coin mode result))"

definition chaos_verify :: "prims \<Rightarrow> system_time \<Rightarrow> bool \<Rightarrow> job_result \<Rightarrow> chaos_loop \<Rightarrow> chaos_loop outcome_of" where
  "chaos_verify P now coin result n =
     (case map_of (lp_tasks n) (jr_spec_hash result) of
        None \<Rightarrow> (Inr (), n)
      | Some t \<Rightarrow>
        if ts_self_verified t \<or> jr_executor result = lp_peer_id n then (Inr (), n)
        else (case chaos_verdict P coin (cn_malicious n) (ts_spec t) result of
            Inl e \<Rightarrow> (Inl e, n)
          | Inr verdict \<Rightarrow>
            (let v = sign_verdict P now result verdict n;
                 n = n\<lparr>lp_tasks := modify_entry (jr_spec_hash result) (\<lambda>t. t\<lparr>ts_self_verified := True\<rparr>) (lp_tasks n)\<rparr>
             in and_then (chaos_record_verification P now v n)
                  (\<lambda>n. (Inr (), publish TopicVerify (TAG_JOB_VERIFICATION # to_cbor_bytes P (wr_job_verification v)) n)))))"

definition chaos_on_result :: "prims \<Rightarrow> system_time \<Rightarrow> bool \<Rightarrow> bytes \<Rightarrow> chaos_loop \<Rightarrow> chaos_loop outcome_of" where
  "chaos_on_result P now coin body n =
     (case from_cbor_bytes P rd_job_result body of
        None \<Rightarrow> (Inl LoopDecode, n)
      | Some result \<Rightarrow>
        (case verifying_key (cn_registry n) (jr_executor result) of
           None \<Rightarrow> (Inr (), n)
         | Some exec_pk \<Rightarrow>
           if result_verify_signature P result exec_pk \<noteq> Inr () then (Inl LoopSignature, n)
           else and_then (chaos_record_result P now result n) (chaos_verify P now coin result)))"

definition chaos_on_verification :: "prims \<Rightarrow> system_time \<Rightarrow> bytes \<Rightarrow> chaos_loop \<Rightarrow> chaos_loop outcome_of" where
  "chaos_on_verification P now body n =
     (case from_cbor_bytes P rd_job_verification body of
        None \<Rightarrow> (Inl LoopDecode, n)
      | Some v \<Rightarrow>
        (case verifying_key (cn_registry n) (jv_verifier v) of
           None \<Rightarrow> (Inr (), n)
         | Some verifier_pk \<Rightarrow>
           if verification_verify_signature P v verifier_pk \<noteq> Inr () then (Inl LoopSignature, n)
           else and_then (chaos_record_verification P now v n) (\<lambda>n.
             case finalised_for P (jv_result_hash v) (lp_tasks n) of
               None \<Rightarrow> (Inr (), n)
             | Some spec_hash \<Rightarrow> publish_outcome_and_rep P now spec_hash n)))"

definition chaos_on_state_delta :: "prims \<Rightarrow> system_time \<Rightarrow> bytes \<Rightarrow> chaos_loop \<Rightarrow> chaos_loop outcome_of" where
  "chaos_on_state_delta P now payload n =
     (case delta_decode_cbor P payload of
        None \<Rightarrow> (Inl LoopDecode, n)
      | Some d \<Rightarrow>
        (case verifying_key (cn_registry n) (sd_observer d) of
           None \<Rightarrow> (Inr (), n)
         | Some observer_pk \<Rightarrow>
           if verify_delta P d observer_pk \<noteq> Inr () then (Inr (), n)
           else (case sd_kind d of
               DeltaOutcome _ \<Rightarrow>
                 (case apply_delta P (now_unix now) (lp_shared n) d observer_pk of
                    Inl _ \<Rightarrow> (Inr (), n)
                  | Inr st \<Rightarrow> (Inr (), n\<lparr>lp_shared := st\<rparr>))
             | DeltaReputation peer delta reason related_hash \<Rightarrow> apply_reputation now peer delta reason related_hash n
             | DeltaGovernanceRule _ _ _ _ \<Rightarrow> (Inr (), n))))"

definition dispatch :: "prims \<Rightarrow> system_time \<Rightarrow> bool \<Rightarrow> topic \<Rightarrow> bytes \<Rightarrow> chaos_loop \<Rightarrow> chaos_loop outcome_of" where
  "dispatch P now coin t payload n =
     (case t of
        TopicCaps \<Rightarrow>
          (case decode_advertisement P payload of
             None \<Rightarrow> (Inr (), n)
           | Some ad \<Rightarrow> (Inr (), n\<lparr>cn_registry := fst (upsert P (cn_registry n) ad)\<rparr>))
      | TopicTasks \<Rightarrow> chaos_on_spec P now payload n
      | TopicVerify \<Rightarrow>
          (case payload of
             [] \<Rightarrow> (Inr (), n)
           | tag # body \<Rightarrow>
             if tag = TAG_JOB_RESULT then chaos_on_result P now coin body n
             else if tag = TAG_JOB_VERIFICATION then chaos_on_verification P now body n
             else (Inr (), n))
      | TopicStateDeltas \<Rightarrow> chaos_on_state_delta P now payload n)"

section \<open>The loop\<close>

datatype chaos_event =
    ChSubmit job_spec bool
  | ChSetGroup u8
  | ChGroupOf peer_id u8
  | ChInject state_delta bool
  | ChRequestSync "peer_id list" u64
  | ChCapsTick multiaddr bool
  | ChFinaliseTick
  | ChNewListenAddr multiaddr
  | ChConnectionEstablished
  | ChMessage peer_id bool topic bytes
  | ChSyncRequest peer_id state_sync_request
  | ChSyncResponse peer_id state_sync_response

text \<open>
  One turn of the loop, on the shared partition table and the node. \<open>ChGroupOf\<close> is a change of the table by
  another node or by the scenario.
\<close>

fun run_node_loop ::
    "prims \<Rightarrow> partition_table \<times> chaos_loop \<Rightarrow> system_time \<times> chaos_event \<Rightarrow> partition_table \<times> chaos_loop" where
  "run_node_loop P (t, n) (now, ChSubmit spec ok) = (t, snd (chaos_submit_spec P now ok spec n))"
| "run_node_loop P (t, n) (now, ChSetGroup g) = (set_group (lp_peer_id n) g t, n)"
| "run_node_loop P (t, n) (now, ChGroupOf peer g) = (set_group peer g t, n)"
| "run_node_loop P (t, n) (now, ChInject delta ok) = (t, snd (inject_delta_raw P ok delta n))"
| "run_node_loop P (t, n) (now, ChRequestSync peers since) = (t, issue_state_sync P now peers since n)"
| "run_node_loop P (t, n) (now, ChCapsTick memory_addr ok) = (t, chaos_publish_caps P now memory_addr ok n)"
| "run_node_loop P (t, n) (now, ChFinaliseTick) = (t, finalise_tick P now (publish_outcome_and_rep P now) n)"
| "run_node_loop P (t, n) (now, ChNewListenAddr a) = (t, n\<lparr>cn_listen_addr := Some a, cn_readiness := Listening\<rparr>)"
| "run_node_loop P (t, n) (now, ChConnectionEstablished) =
     (t, if cn_readiness n = Connected then n\<lparr>cn_readiness := Listening\<rparr> else n)"
| "run_node_loop P (t, n) (now, ChMessage propagation_source coin topic payload) =
     (t, if group_of t (lp_peer_id n) = group_of t propagation_source then snd (dispatch P now coin topic payload n) else n)"
| "run_node_loop P (t, n) (now, ChSyncRequest peer request) =
     (t, n\<lparr>cn_responses := cn_responses n @ [(peer, chaos_state_sync_response P now n request)]\<rparr>)"
| "run_node_loop P (t, n) (now, ChSyncResponse peer response) = (t, chaos_apply_response P now response n)"

section \<open>What the scenarios measure\<close>

definition has_outcome_for_spec :: "node_snapshot \<Rightarrow> chash \<Rightarrow> bool" where
  "has_outcome_for_spec s h = (ns_outcomes s h \<noteq> None)"

definition snapshot_reputation_of :: "node_snapshot \<Rightarrow> peer_id \<Rightarrow> int" where
  "snapshot_reputation_of s p = (case map_of (ns_reputation s) p of None \<Rightarrow> 0 | Some r \<Rightarrow> r)"

record partition_config =
  pt_total_nodes :: nat
  pt_minority_size :: nat
  pt_pre_partition_tasks :: nat
  pt_during_partition_tasks :: nat
  pt_partition_duration :: duration
  pt_catchup_budget :: duration

definition partition_config_default :: partition_config where
  "partition_config_default = \<lparr>pt_total_nodes = 6, pt_minority_size = 2, pt_pre_partition_tasks = 5, pt_during_partition_tasks = 3,
     pt_partition_duration = from_secs 2, pt_catchup_budget = from_secs 15\<rparr>"

definition build_partition_spec :: "prims \<Rightarrow> bytes \<Rightarrow> peer_id \<Rightarrow> u64 \<Rightarrow> job_spec" where
  "build_partition_spec P sk submitter idx =
     fst (spec_new_signed_at P JobInference (inference_prompt (''chaos partition spec #'' @ show_base 10 (unat idx)) (1700000000 + idx))
       SvcInference False (1715000000 + idx) submitter sk)"

text \<open>The snapshots of a group of nodes stand for their indices; the first one is the view of the group.\<close>

definition count_finalised :: "node_snapshot list \<Rightarrow> chash list \<Rightarrow> nat" where
  "count_finalised snaps hashes =
     (case snaps of [] \<Rightarrow> 0 | s # _ \<Rightarrow> length (filter (has_outcome_for_spec s) hashes))"

definition count_finalised_any :: "node_snapshot list \<Rightarrow> chash list \<Rightarrow> nat" where
  "count_finalised_any snaps hashes = length (filter (\<lambda>h. list_ex (\<lambda>s. has_outcome_for_spec s h) snaps) hashes)"

definition outcome_hashes :: "prims \<Rightarrow> node_snapshot list \<Rightarrow> chash \<Rightarrow> chash list" where
  "outcome_hashes P snaps h = List.map_filter (\<lambda>s. map_option (outcome_content_hash P) (ns_outcomes s h)) snaps"

definition minority_matches_majority :: "prims \<Rightarrow> node_snapshot list \<Rightarrow> node_snapshot list \<Rightarrow> chash list \<Rightarrow> bool" where
  "minority_matches_majority P minority majority hashes =
     list_all (\<lambda>h. let majority_hashes = outcome_hashes P majority h in
       majority_hashes = [] \<or> list_all (\<lambda>s. case ns_outcomes s h of
           Some x \<Rightarrow> outcome_content_hash P x \<in> set majority_hashes | None \<Rightarrow> False) minority) hashes"

definition check_outcomes_match :: "prims \<Rightarrow> node_snapshot \<Rightarrow> node_snapshot list \<Rightarrow> chash list \<Rightarrow> bool" where
  "check_outcomes_match P snap0 others hashes =
     list_all (\<lambda>s. list_all (\<lambda>h. case ns_outcomes snap0 h of
         None \<Rightarrow> True
       | Some x \<Rightarrow> (case ns_outcomes s h of Some y \<Rightarrow> outcome_content_hash P y = outcome_content_hash P x | None \<Rightarrow> False)) hashes) others"

record sybil_config =
  sy_identity_count :: nat
  sy_honest_count :: nat
  sy_task_count :: nat
  sy_budget :: duration

definition sybil_config_default :: sybil_config where
  "sybil_config_default = \<lparr>sy_identity_count = 50, sy_honest_count = 3, sy_task_count = 5, sy_budget = from_secs 20\<rparr>"

definition build_sybil_spec :: "prims \<Rightarrow> bytes \<Rightarrow> peer_id \<Rightarrow> u64 \<Rightarrow> job_spec" where
  "build_sybil_spec P sk submitter idx =
     fst (spec_new_signed_at P JobInference (inference_prompt (''chaos sybil spec #'' @ show_base 10 (unat idx)) (1700000000 + idx))
       SvcInference False (1715000000 + idx) submitter sk)"

text \<open>The outcomes of the snapshot are those of its tasks.\<close>

definition network_remained_correct :: "node_snapshot \<Rightarrow> bool" where
  "network_remained_correct s = (\<forall>h \<in> ns_task_hashes s. case ns_outcomes s h of
     None \<Rightarrow> True | Some x \<Rightarrow> (case jo_verdict x of Valid _ _ _ _ \<Rightarrow> True | _ \<Rightarrow> False))"

definition sybil_participation_rate :: "sybil_config \<Rightarrow> (peer_id \<times> node_snapshot) list \<Rightarrow> f64" where
  "sybil_participation_rate cfg nodes =
     (let participated = length (filter (\<lambda>(p, s). 0 < snapshot_reputation_of s p) (drop (sy_honest_count cfg) nodes))
      in f64_div (f64_of_nat participated) (f64_of_nat (max (sy_identity_count cfg) 1)))"

end
