(* ===== verification/Chaos_Properties.thy ===== *)
theory Chaos_Properties
  imports Chaos Harness_Invariant Quorum_Properties Registry_Properties
begin

text \<open>
  Properties of the adversarial network: what a partition hides from a node, how many misbehaving verifiers the
  quorum withstands, that corrupted deltas are ignored, what a published outcome does to reputations, and
  the invariant of the node over every history.
\<close>

section \<open>The executor choice\<close>

text \<open>The copy of the election in the network agrees with the election of the miner.\<close>

lemma chaos_pick_executor_is_election:
  "chaos_pick_executor spec g local = Some local \<longleftrightarrow> should_execute local spec g"
  by (simp add: chaos_pick_executor_def should_execute_def Let_def split: list.split)

section \<open>What every method leaves alone\<close>

lemma chaos_frame [simp]:
  "lp_peer_id (publish t b n) = lp_peer_id n" "cn_registry (publish t b n) = cn_registry (n :: chaos_loop)"
  "lp_peer_id (publish_deltas P now e x n) = lp_peer_id n" "cn_registry (publish_deltas P now e x n) = cn_registry (n :: chaos_loop)"
  "lp_peer_id (snd (open_task P now spec n)) = lp_peer_id n" "cn_registry (snd (open_task P now spec n)) = cn_registry (n :: chaos_loop)"
  "lp_peer_id (attach_result P now result n) = lp_peer_id n" "cn_registry (attach_result P now result n) = cn_registry (n :: chaos_loop)"
  "lp_peer_id (snd (add_vote P key_of v n)) = lp_peer_id n" "cn_registry (snd (add_vote P key_of v n)) = cn_registry (n :: chaos_loop)"
  "lp_peer_id (snd (try_finalise_quorum P now h n)) = lp_peer_id n"
  "cn_registry (snd (try_finalise_quorum P now h n)) = cn_registry (n :: chaos_loop)"
  "lp_peer_id (snd (apply_reputation now p d s rh n)) = lp_peer_id n"
  "cn_registry (snd (apply_reputation now p d s rh n)) = cn_registry (n :: chaos_loop)"
  by (auto simp: publish_def publish_deltas_def open_task_def attach_result_def add_vote_def try_finalise_quorum_def
      apply_reputation_def Let_def
      split: sum.split option.split outcome_verdict.split verify_error.split internal_cause.split prod.split)

lemma chaos_frame_voted [simp]:
  "lp_peer_id (snd (finalise_voted P now r)) = lp_peer_id (snd r)"
  "cn_registry (snd (finalise_voted P now r)) = cn_registry (snd r :: chaos_loop)"
  by (cases r; auto simp: finalise_voted_def split: sum.split option.split)+

lemma count_frame [simp]:
  "lp_peer_id (count_verification h n) = lp_peer_id n" "cn_registry (count_verification h n) = cn_registry n"
  "lp_shared (count_verification h n) = lp_shared n"
  by (simp_all add: count_verification_def)

lemma loop_inv_chaos [simp]:
  "loop_inv P keys (n\<lparr>cn_registry := g\<rparr>) \<longleftrightarrow> loop_inv P keys n" "loop_inv P keys (n\<lparr>cn_readiness := s\<rparr>) \<longleftrightarrow> loop_inv P keys n"
  "loop_inv P keys (n\<lparr>cn_listen_addr := a\<rparr>) \<longleftrightarrow> loop_inv P keys n" "loop_inv P keys (n\<lparr>cn_requests := x\<rparr>) \<longleftrightarrow> loop_inv P keys n"
  "loop_inv P keys (n\<lparr>cn_responses := y\<rparr>) \<longleftrightarrow> loop_inv P keys n" "loop_inv P keys (n\<lparr>cn_synced_outcomes := z\<rparr>) \<longleftrightarrow> loop_inv P keys n"
  "loop_inv P keys (count_verification h n) \<longleftrightarrow> loop_inv P keys n"
  by (simp_all add: loop_inv_def rewards_ok_def local_reputation_def count_verification_def)

section \<open>The invariant over every history\<close>

text \<open>Every key the node has for a peer is the key of that peer.\<close>

definition chaos_inv :: "prims \<Rightarrow> (peer_id \<Rightarrow> bytes) \<Rightarrow> peer_id \<Rightarrow> chaos_loop \<Rightarrow> bool" where
  "chaos_inv P keys me n \<longleftrightarrow> loop_inv P keys n \<and> lp_peer_id n = me \<and> (\<forall>p k. verifying_key (cn_registry n) p = Some k \<longrightarrow> k = keys p)"

lemma chaos_invD: "chaos_inv P keys me n \<Longrightarrow> loop_inv P keys n"
  by (simp add: chaos_inv_def)

lemmas and_then_chaos = and_then_inv [where I = "chaos_inv P keys me" for P keys me]

lemma chaos_inv_publish [simp]: "chaos_inv P keys me (publish t b n) \<longleftrightarrow> chaos_inv P keys me n"
  by (simp add: chaos_inv_def)

lemma chaos_open_task_inv: "chaos_inv P keys me n \<Longrightarrow> chaos_inv P keys me (snd (open_task P now spec n))"
  by (simp add: chaos_inv_def open_task_inv)

lemma chaos_record_result_inv: "chaos_inv P keys me n \<Longrightarrow> chaos_inv P keys me (snd (chaos_record_result P now r n))"
  by (auto simp: chaos_record_result_def chaos_inv_def split: sum.split store_error.split intro: record_result_loop_inv)

lemma record_verification_count:
  assumes "loop_inv P keys n" and "record_verification P t (lp_shared n) v = Inr st"
    and "\<And>p k. key_of p = Some k \<Longrightarrow> k = keys p"
  shows "loop_inv P keys (snd (add_vote P key_of v (count_verification h (n\<lparr>lp_shared := st\<rparr>))))"
proof -
  have "count_verification h (n\<lparr>lp_shared := st\<rparr>) = (count_verification h n)\<lparr>lp_shared := st\<rparr>"
    by (simp add: count_verification_def)
  then show ?thesis using record_verification_loop_inv [of P keys "count_verification h n"] assms by simp
qed

lemma chaos_record_verification_inv:
  assumes "sha256_ok P" and "ed25519_ok P" and "chaos_inv P keys me n"
  shows "chaos_inv P keys me (snd (chaos_record_verification P now v n))"
proof (cases "record_verification P (now_unix now) (lp_shared n) v")
  case (Inr st)
  have "loop_inv P keys (snd (add_vote P (verifying_key (cn_registry n)) v (count_verification (jv_result_hash v) (n\<lparr>lp_shared := st\<rparr>))))"
    using chaos_invD [OF assms(3)] Inr assms(3) by (intro record_verification_count) (auto simp: chaos_inv_def)
  then show ?thesis
    using Inr assms by (simp add: chaos_record_verification_def chaos_inv_def finalise_voted_inv)
qed (auto simp: chaos_record_verification_def assms split: store_error.split)

lemma chaos_record_outcome_inv: "wf_outcome x \<Longrightarrow> chaos_inv P keys me n \<Longrightarrow> chaos_inv P keys me (snd (chaos_record_outcome P now x n))"
  by (auto simp: chaos_record_outcome_def chaos_inv_def split: sum.split intro: record_outcome_loop_inv)

lemma chaos_apply_reputation_inv: "chaos_inv P keys me n \<Longrightarrow> chaos_inv P keys me (snd (apply_reputation now p d s h n))"
  by (simp add: chaos_inv_def apply_reputation_inv)

lemma verifier_rewards_inv: "chaos_inv P keys me n \<Longrightarrow> chaos_inv P keys me (snd (verifier_rewards P now x vs n))"
  by (induction vs arbitrary: n)
    (auto simp: verifier_reward_def split: verifier_verdict.split intro!: and_then_chaos chaos_apply_reputation_inv)

lemma outcome_for_spec_wf: "outcome_for_spec P st h = Inr (Some x) \<Longrightarrow> wf_outcome x"
  by (auto simp: outcome_for_spec_def split: list.splits option.splits dest: from_cbor_outcome_wf)

lemma publish_outcome_and_rep_inv: "chaos_inv P keys me n \<Longrightarrow> chaos_inv P keys me (snd (publish_outcome_and_rep P now h n))"
  unfolding publish_outcome_and_rep_def
  by (auto split: option.split sum.split outcome_verdict.split dest: outcome_for_spec_wf
      intro!: and_then_chaos chaos_record_outcome_inv chaos_apply_reputation_inv verifier_rewards_inv)
    (simp_all add: chaos_inv_def)

lemma chaos_flags: "chaos_inv P keys me n \<Longrightarrow>
    chaos_inv P keys me (n\<lparr>lp_tasks := modify_entry h (\<lambda>t. t\<lparr>ts_self_verified := b\<rparr>) (lp_tasks n)\<rparr>)"
  "chaos_inv P keys me n \<Longrightarrow>
    chaos_inv P keys me (n\<lparr>lp_tasks := modify_entry h (\<lambda>t. t\<lparr>ts_self_executed := b\<rparr>) (lp_tasks n)\<rparr>)"
  by (simp_all add: chaos_inv_def loop_inv_flags)

lemma chaos_execute_inv: "chaos_inv P keys me n \<Longrightarrow> chaos_inv P keys me (snd (chaos_execute P now spec n))"
  unfolding chaos_execute_def Let_def by (auto intro!: and_then_chaos chaos_record_result_inv chaos_flags)

lemma chaos_on_spec_inv: "chaos_inv P keys me n \<Longrightarrow> chaos_inv P keys me (snd (chaos_on_spec P now b n))"
  unfolding chaos_on_spec_def
  by (auto split: option.split intro!: and_then_chaos chaos_open_task_inv chaos_execute_inv)

lemma chaos_verify_inv:
  "sha256_ok P \<Longrightarrow> ed25519_ok P \<Longrightarrow> chaos_inv P keys me n \<Longrightarrow> chaos_inv P keys me (snd (chaos_verify P now coin r n))"
  unfolding chaos_verify_def Let_def
  by (auto split: option.split sum.split intro!: and_then_chaos chaos_record_verification_inv chaos_flags)

lemma chaos_on_result_inv:
  "sha256_ok P \<Longrightarrow> ed25519_ok P \<Longrightarrow> chaos_inv P keys me n \<Longrightarrow> chaos_inv P keys me (snd (chaos_on_result P now coin b n))"
  unfolding chaos_on_result_def
  by (auto split: option.split intro!: and_then_chaos chaos_record_result_inv chaos_verify_inv)

lemma chaos_on_verification_inv:
  "sha256_ok P \<Longrightarrow> ed25519_ok P \<Longrightarrow> chaos_inv P keys me n \<Longrightarrow> chaos_inv P keys me (snd (chaos_on_verification P now b n))"
  unfolding chaos_on_verification_def
  by (auto split: option.split intro!: and_then_chaos chaos_record_verification_inv publish_outcome_and_rep_inv)

lemma chaos_on_state_delta_inv:
  assumes "chaos_inv P keys me n"
  shows "chaos_inv P keys me (snd (chaos_on_state_delta P now b n))"
proof (cases "delta_decode_cbor P b")
  case (Some d)
  have "chaos_inv P keys me (n\<lparr>lp_shared := st\<rparr>)"
    if "sd_kind d = DeltaOutcome x" "apply_delta P (now_unix now) (lp_shared n) d k = Inr st" for x k st
    using that assms delta_decode_wf [OF Some that(1)]
    by (auto simp: chaos_inv_def apply_delta_def split: sum.splits intro: record_outcome_loop_inv)
  then show ?thesis
    using assms Some
    by (auto simp: chaos_on_state_delta_def split: option.split delta_kind.split sum.split intro!: chaos_apply_reputation_inv)
qed (simp add: chaos_on_state_delta_def assms)

text \<open>
  The typed events: an advertisement carries the key of its peer, and the outcomes of a response are well
  formed, as every decoded outcome is.
\<close>

fun chaos_event_ok :: "prims \<Rightarrow> (peer_id \<Rightarrow> bytes) \<Rightarrow> system_time \<times> chaos_event \<Rightarrow> bool" where
  "chaos_event_ok P keys (now, ChMessage src coin t b) \<longleftrightarrow>
     (case decode_advertisement P b of None \<Rightarrow> True
      | Some ad \<Rightarrow> t = TopicCaps \<longrightarrow> ad_verifying_key P ad \<in> {None, Some (keys (ad_peer_id ad))})"
| "chaos_event_ok P keys (now, ChSyncResponse peer r) \<longleftrightarrow> list_all wf_outcome (rs_outcomes r)"
| "chaos_event_ok P keys _ \<longleftrightarrow> True"

lemma upsert_keys:
  assumes "chaos_inv P keys me n" and "ad_verifying_key P ad \<in> {None, Some (keys (ad_peer_id ad))}"
  shows "chaos_inv P keys me (n\<lparr>cn_registry := fst (upsert P (cn_registry n) ad)\<rparr>)"
  using assms by (auto simp: chaos_inv_def upsert_def Let_def verifying_key_record split: option.splits)

lemma dispatch_inv:
  assumes "sha256_ok P" and "ed25519_ok P" and "chaos_inv P keys me n" and "chaos_event_ok P keys (now, ChMessage src coin t b)"
  shows "chaos_inv P keys me (snd (dispatch P now coin t b n))"
  using assms
  by (auto simp: dispatch_def split: topic.split option.splits list.split
      intro!: upsert_keys chaos_on_spec_inv chaos_on_result_inv chaos_on_verification_inv chaos_on_state_delta_inv)

lemma chaos_apply_synced_inv:
  assumes "chaos_inv P keys me n" and "wf_outcome x"
  shows "chaos_inv P keys me (chaos_apply_synced P now x n)"
proof -
  have "loop_inv P keys (n\<lparr>lp_shared := st\<rparr>)" if "record_synced_outcome P (now_unix now) (lp_shared n) x = Inr st" for st
    using that assms record_synced_outcome_inv record_synced_extends
    by (intro loop_inv_shared) (auto simp: chaos_inv_def loop_inv_def)
  then show ?thesis using assms(1) by (auto simp: chaos_apply_synced_def chaos_inv_def split: option.split sum.split)
qed

lemma chaos_apply_response_inv:
  assumes "chaos_inv P keys me n" and "list_all wf_outcome (rs_outcomes r)"
  shows "chaos_inv P keys me (chaos_apply_response P now r n)"
proof -
  have "list_all wf_outcome xs \<Longrightarrow> chaos_inv P keys me n \<Longrightarrow> chaos_inv P keys me (fold (chaos_apply_synced P now) xs n)" for xs n
    by (induction xs arbitrary: n) (auto intro: chaos_apply_synced_inv)
  then show ?thesis using assms by (simp add: chaos_apply_response_def Let_def)
qed

lemma chaos_tick_inv:
  assumes "sha256_ok P" and "ed25519_ok P" and "chaos_inv P keys me n"
  shows "chaos_inv P keys me (finalise_tick P now (publish_outcome_and_rep P now) n)"
proof (rule finalise_tick_inv [where I = "chaos_inv P keys me", OF assms chaos_invD])
  show "chaos_inv P keys me (snd (try_finalise_quorum P now h n))" if "chaos_inv P keys me n" for h n
    using that by (simp add: chaos_inv_def try_finalise_quorum_inv [OF assms(1,2)])
qed (auto intro: publish_outcome_and_rep_inv)

definition chaos_history_inv :: "prims \<Rightarrow> (peer_id \<Rightarrow> bytes) \<Rightarrow> peer_id \<Rightarrow> partition_table \<times> chaos_loop \<Rightarrow> bool" where
  "chaos_history_inv P keys me s \<longleftrightarrow> sha256_ok P \<and> ed25519_ok P \<and> chaos_inv P keys me (snd s)"

interpretation chaos_ts: typed_transition_system "run_node_loop P" "chaos_history_inv P keys me" "chaos_event_ok P keys" for P keys me
proof
  fix s e
  assume inv: "chaos_history_inv P keys me s" and ok: "chaos_event_ok P keys e"
  obtain t n now ev where s: "s = (t, n)" and e: "e = (now, ev)" by (cases s; cases e)
  have P: "sha256_ok P" "ed25519_ok P" and n: "chaos_inv P keys me n" using inv s by (simp_all add: chaos_history_inv_def)
  have "chaos_inv P keys me (snd (run_node_loop P (t, n) (now, ev)))"
  proof (cases ev)
    case (ChSubmit spec ok)
    then show ?thesis using n by (auto simp: chaos_submit_spec_def intro!: and_then_chaos chaos_open_task_inv)
  next
    case (ChMessage src coin topic b)
    then show ?thesis using n dispatch_inv [OF P n] ok e by auto
  next
    case ChFinaliseTick
    then show ?thesis using chaos_tick_inv [OF P n] by simp
  next
    case (ChSyncResponse peer r)
    then show ?thesis using chaos_apply_response_inv [OF n] ok e by simp
  qed (use n in \<open>auto simp: chaos_inv_def inject_delta_raw_def issue_state_sync_def chaos_publish_caps_def Let_def\<close>)
  then show "chaos_history_inv P keys me (run_node_loop P s e)" using P s e by (simp add: chaos_history_inv_def)
qed

lemma spawn_inv:
  assumes "sha256_ok P" and "ed25519_ok P" and "ed_public P key = keys me"
  shows "chaos_history_inv P keys me (t, spawn_node P now me key cfg mode)"
  using assms
  by (simp add: chaos_history_inv_def chaos_inv_def loop_inv_def rewards_ok_def spawn_node_def local_reputation_def store_inv_empty
      verifying_key_record) (simp add: empty_store_def deltas_of_def verifying_key_def registry_new_def)


section \<open>Partitions\<close>

text \<open>
  A history without the gossip messages whose source is in another group than the node when they
  arrive. All other events stay, state-sync requests and responses of any peer among them.
\<close>

fun without_foreign_gossip :: "peer_id \<Rightarrow> partition_table \<Rightarrow> (system_time \<times> chaos_event) list \<Rightarrow> (system_time \<times> chaos_event) list" where
  "without_foreign_gossip me t [] = []"
| "without_foreign_gossip me t (e # es) =
     (case snd e of
        ChMessage src _ _ _ \<Rightarrow> if group_of t me = group_of t src then e # without_foreign_gossip me t es else without_foreign_gossip me t es
      | ChSetGroup g \<Rightarrow> e # without_foreign_gossip me (set_group me g t) es
      | ChGroupOf peer g \<Rightarrow> e # without_foreign_gossip me (set_group peer g t) es
      | _ \<Rightarrow> e # without_foreign_gossip me t es)"

lemma run_without_foreign_gossip:
  assumes "chaos_history_inv P keys me (t, n)" and "list_all (chaos_event_ok P keys) (without_foreign_gossip me t es)"
  shows "run_steps (run_node_loop P) (t, n) es = run_steps (run_node_loop P) (t, n) (without_foreign_gossip me t es)"
  using assms
proof (induction es arbitrary: t n)
  case (Cons e es)
  obtain now ev where e: "e = (now, ev)" by (cases e)
  have me: "lp_peer_id n = me" using Cons.prems(1) by (simp add: chaos_history_inv_def chaos_inv_def)
  have step: "chaos_history_inv P keys me (run_node_loop P (t, n) e)" if "chaos_event_ok P keys e"
    using chaos_ts.typed_step_inv Cons.prems(1) that by blast
  show ?case
  proof (cases ev)
    case (ChMessage src coin topic b)
    then show ?thesis using Cons.IH Cons.prems me step e by (cases "group_of t me = group_of t src") auto
  qed (use Cons.IH Cons.prems me step e in auto)
qed simp

text \<open>
  C37. The partition gate hides gossip, and gossip only. Two histories that differ only in gossip messages
  whose source is in another group than the node when they arrive, with the groups changing in
  between, leave the node and the table in the same state. State sync is not gated: what a request or
  a response does to a node is the same whatever the table says.
\<close>

theorem partition_hides_messages:
  assumes "sha256_ok P" and "ed25519_ok P" and "ed_public P key = keys me"
    and "without_foreign_gossip me t es = without_foreign_gossip me t es'"
    and "list_all (chaos_event_ok P keys) (without_foreign_gossip me t es)"
  shows "run_steps (run_node_loop P) (t, spawn_node P now me key cfg mode) es =
      run_steps (run_node_loop P) (t, spawn_node P now me key cfg mode) es'
    \<and> (\<forall>t1 t2 n s peer rq r. snd (run_node_loop P (t1, n) (s, ChSyncRequest peer rq)) = snd (run_node_loop P (t2, n) (s, ChSyncRequest peer rq))
        \<and> snd (run_node_loop P (t1, n) (s, ChSyncResponse peer r)) = snd (run_node_loop P (t2, n) (s, ChSyncResponse peer r)))"
proof -
  have inv: "chaos_history_inv P keys me (t, spawn_node P now me key cfg mode)"
    using spawn_inv [where keys = keys and me = me, OF assms(1-3)] .
  have "run_steps (run_node_loop P) (t, spawn_node P now me key cfg mode) es =
      run_steps (run_node_loop P) (t, spawn_node P now me key cfg mode) es'"
    using run_without_foreign_gossip [OF inv] assms(4,5) by metis
  then show ?thesis by simp
qed

section \<open>Misbehaving verifiers\<close>

text \<open>
  The votes of a quorum about an honest result: every verifier gave the verdict its mode prescribes, with
  the weight 100 of the network.
\<close>

definition votes_by_mode ::
    "prims \<Rightarrow> (peer_id \<Rightarrow> malicious_mode option) \<Rightarrow> job_spec \<Rightarrow> job_result \<Rightarrow> (peer_id \<times> stored_verification) list \<Rightarrow> bool" where
  "votes_by_mode P modes spec r vs \<longleftrightarrow> distinct (map fst vs)
     \<and> list_all (\<lambda>(p, s). sv_reputation s = 100 \<and> (\<exists>coin. chaos_verdict P coin (modes p) spec r = Inr (jv_verdict (sv_verification s)))) vs"

definition reproducible :: "prims \<Rightarrow> job_spec \<Rightarrow> job_result \<Rightarrow> bool" where
  "reproducible P spec r \<longleftrightarrow> jr_result_payload r = build_executor_result P spec
     \<and> (js_kind spec = JobInference \<longrightarrow> ji_seed (js_inputs spec) \<noteq> None)"

lemma honest_agrees: "reproducible P spec r \<Longrightarrow> chaos_verdict P coin None spec r = Inr Agreed"
  by (auto simp: reproducible_def chaos_verdict_def honest_verdict_def deterministic_verify_def harness_execute_def bind_result_def)

lemma never_abstained: "chaos_verdict P coin m spec r = Inr v \<Longrightarrow> v \<noteq> Abstained"
  by (auto simp: chaos_verdict_def malicious_verdict_def honest_verdict_def split: option.splits malicious_mode.splits sum.splits if_splits)

lemma votes_split:
  assumes "votes_by_mode P modes spec r vs" and "reproducible P spec r"
  shows "votes is_disagreed (map snd vs) \<le> length (filter (\<lambda>(p, s). modes p \<noteq> None) vs)"
    and "votes is_agreed (map snd vs) + votes is_disagreed (map snd vs) = length vs"
    and "rep_sum is_agreed (map snd vs) = 100 * votes is_agreed (map snd vs)"
    and "rep_sum is_disagreed (map snd vs) = 100 * votes is_disagreed (map snd vs)"
proof -
  have all: "list_all (\<lambda>(p, s). sv_reputation s = 100 \<and> (\<exists>coin. chaos_verdict P coin (modes p) spec r = Inr (jv_verdict (sv_verification s)))) vs"
    using assms(1) by (simp add: votes_by_mode_def)
  show "votes is_disagreed (map snd vs) \<le> length (filter (\<lambda>(p, s). modes p \<noteq> None) vs)"
    using all by (induction vs) (auto simp: votes_def is_disagreed_def honest_agrees [OF assms(2)])
  show "votes is_agreed (map snd vs) + votes is_disagreed (map snd vs) = length vs"
    using all by (induction vs) (auto simp: votes_def is_agreed_def is_disagreed_def dest: never_abstained
        intro: verifier_verdict.exhaust)
  show "rep_sum is_agreed (map snd vs) = 100 * votes is_agreed (map snd vs)"
    using all by (induction vs) (auto simp: votes_def rep_sum_def)
  show "rep_sum is_disagreed (map snd vs) = 100 * votes is_disagreed (map snd vs)"
    using all by (induction vs) (auto simp: votes_def rep_sum_def)
qed

lemma all_disagree:
  assumes "votes_by_mode P modes spec r vs" and "reproducible P spec r" and "\<forall>p. modes p \<in> {None, Some AlwaysDisagreed}"
  shows "votes is_disagreed (map snd vs) = length (filter (\<lambda>(p, s). modes p \<noteq> None) vs)"
proof -
  have "is_disagreed s \<longleftrightarrow> modes p \<noteq> None" if mem: "(p, s) \<in> set vs" for p s
  proof -
    obtain coin where c: "chaos_verdict P coin (modes p) spec r = Inr (jv_verdict (sv_verification s))"
      using assms(1) mem by (fastforce simp: votes_by_mode_def list_all_iff)
    consider "modes p = None" | "modes p = Some AlwaysDisagreed" using spec [OF assms(3), of p] by auto
    then show ?thesis
      using c honest_agrees [OF assms(2), of coin] by cases (auto simp: is_disagreed_def chaos_verdict_def malicious_verdict_def dest: sym)
  qed
  then have "filter (is_disagreed \<circ> snd) vs = filter (\<lambda>(p, s). modes p \<noteq> None) vs" by (intro filter_cong) auto
  then show ?thesis by (simp add: votes_def filter_map)
qed

text \<open>
  C35. What the nine-node quorum withstands, for a result every honest verifier can reproduce. Fewer than five
  misbehaving verifiers never get the result refuted. With five honest votes and misbehaving ones up to two fifths of
  all votes the result is accepted at the first tick after the minimum window. Misbehaving verifiers that always disagree
  keep it from ever being accepted once they are more than two fifths, also as a minority.
\<close>

theorem malicious_threshold:
  fixes vs :: "(peer_id \<times> stored_verification) list"
  assumes "votes_by_mode P modes spec r vs" and "reproducible P spec r" and "length vs < 2 ^ 30"
    and q_def: "q = quorum_new standard_quorum_for_test h rh t0\<lparr>q_by_verifier := vs\<rparr>"
    and mal_def: "mal = length (filter (\<lambda>(p, s). modes p \<noteq> None) vs)" and hon_def: "hon = length vs - mal"
  shows "(mal < 5 \<longrightarrow> decision_of (try_finalise P q now ft ob k) \<noteq> DecDisagreed)
    \<and> (5 \<le> hon \<and> 3 * mal \<le> 2 * hon \<and> t0 + 200 * 10 ^ 6 \<le> now \<longrightarrow> decision_of (try_finalise P q now ft ob k) = DecAgreed)
    \<and> ((\<forall>p. modes p \<in> {None, Some AlwaysDisagreed}) \<and> 2 * hon < 3 * mal \<longrightarrow> decision_of (try_finalise P q now ft ob k) \<noteq> DecAgreed)"
proof -
  note split = votes_split [OF assms(1,2)]
  define a where "a = votes is_agreed (map snd vs)"
  define d where "d = votes is_disagreed (map snd vs)"
  have ad: "d \<le> mal" "a + d = length vs" "mal \<le> length vs"
    using split(1,2) by (simp_all add: a_def d_def mal_def)
  have stored: "stored q = map snd vs" by (simp add: q_def stored_def)
  have dec: "decision_of (try_finalise P q now ft ob k) =
      quorum_rule 5 (200 * 10 ^ 6) (from_secs 60) (elapsed_since now t0) a d (100 * a) (100 * d)"
    using finalise_rule [of q P now ft ob k] assms(3) ad(2) split(3,4)
    by (simp add: stored quorum_len_def a_def d_def) (simp add: q_def quorum_new_def standard_quorum_for_test_def REP_WEIGHTED_THRESHOLD_def)
  have "mal < 5 \<longrightarrow> decision_of (try_finalise P q now ft ob k) \<noteq> DecDisagreed"
    using ad(1) by (simp add: dec quorum_rule_def)
  moreover have "5 \<le> hon \<and> 3 * mal \<le> 2 * hon \<and> t0 + 200 * 10 ^ 6 \<le> now \<longrightarrow> decision_of (try_finalise P q now ft ob k) = DecAgreed"
  proof
    assume h: "5 \<le> hon \<and> 3 * mal \<le> 2 * hon \<and> t0 + 200 * 10 ^ 6 \<le> now"
    have "hon \<le> a" using ad by (simp add: hon_def)
    with h ad(1) have "5 \<le> a" "3 * d \<le> 2 * a" "\<not> elapsed_since now t0 < 200 * 10 ^ 6" by (auto simp: elapsed_since_def)
    then show "decision_of (try_finalise P q now ft ob k) = DecAgreed" by (simp add: dec quorum_rule_def)
  qed
  moreover have "(\<forall>p. modes p \<in> {None, Some AlwaysDisagreed}) \<and> 2 * hon < 3 * mal \<longrightarrow> decision_of (try_finalise P q now ft ob k) \<noteq> DecAgreed"
  proof
    assume all: "(\<forall>p. modes p \<in> {None, Some AlwaysDisagreed}) \<and> 2 * hon < 3 * mal"
    then have "d = mal" using all_disagree [OF assms(1,2)] by (simp add: d_def mal_def)
    moreover from this have "a = hon" using ad by (simp add: hon_def)
    ultimately have "\<not> 3 * d \<le> 2 * a" using all by simp
    then show "decision_of (try_finalise P q now ft ob k) \<noteq> DecAgreed" by (simp add: dec quorum_rule_def)
  qed
  ultimately show ?thesis by blast
qed

section \<open>Corrupted deltas\<close>

lemma rd_option_wf: "rd_option rd_hash v = Some h \<Longrightarrow> x \<in> set_option h \<Longrightarrow> wf_hash x"
  by (auto simp: rd_option_def split: cbor.splits intro: rd_hash_wf)

lemma field_default_SomeD: "field_default k y rd m = Some x \<Longrightarrow> x = y \<or> (\<exists>v. rd v = Some x)"
  by (auto simp: field_default_def split: list.splits)

lemma rd_delta_wf: "rd_delta v = Some d \<Longrightarrow> wf_delta_kind (sd_kind d)"
proof -
  have "rd_delta_kind v = Some k \<Longrightarrow> wf_delta_kind k" for v k
    by (cases k) (auto simp: rd_delta_kind_def Option.bind_eq_Some_conv split: cbor.splits list.splits if_splits
        dest!: field_default_SomeD dest: rd_job_outcome_wf rd_option_wf)
  then show "rd_delta v = Some d \<Longrightarrow> wf_delta_kind (sd_kind d)"
    by (auto simp: rd_delta_def Option.bind_eq_Some_conv dest!: field_SomeD)
qed

lemma corrupt_wf:
  assumes "corrupt P mode d imposter = Inr d'" and "wf_delta_kind (sd_kind d)"
  shows "wf_delta_kind (sd_kind d')"
proof (cases mode)
  case FlipBitsInRow
  then show ?thesis
    using assms(1) by (auto simp: corrupt_def Let_def delta_decode_cbor_def from_cbor_bytes_def Option.bind_eq_Some_conv
        split: if_splits option.splits dest: rd_delta_wf)
next
  case DeleteRow
  then show ?thesis using assms by (cases "sd_kind d") (auto simp: corrupt_def wf_outcome_def)
qed (use assms in \<open>auto simp: corrupt_def sign_delta_def Let_def split: option.splits\<close>)

text \<open>
  Ed25519 verification refuses a signature whose scalar is not reduced; the three highest bits of its
  last byte are then zero in every signature that is accepted.
\<close>

definition ed25519_scalar_ok :: "prims \<Rightarrow> bool" where
  "ed25519_scalar_ok P \<longleftrightarrow> (\<forall>vk m s. ed_verify P vk m s \<longrightarrow> and (last s) 0xE0 = 0)"

lemma garbage_refused: "ed25519_scalar_ok P \<Longrightarrow> \<not> ed_verify P vk m (replicate 64 0xAB)"
proof
  assume "ed25519_scalar_ok P" and "ed_verify P vk m (replicate 64 0xAB)"
  then have "and (last (replicate 64 0xAB)) 0xE0 = (0 :: u8)" unfolding ed25519_scalar_ok_def by blast
  moreover have "last (replicate 64 0xAB) = (0xAB :: u8)" by (simp add: last_replicate)
  ultimately show False by simp
qed

text \<open>Every corruption but signing again is refused under every key.\<close>

lemma corrupt_refused:
  assumes "ed25519_scalar_ok P" and "corrupt P mode d imposter = Inr d'" and "verify_delta P d' key = Inr ()"
  shows "\<exists>k. mode = ReSignWithImposterKey \<and> imposter = Some k \<and> sd_observer d' = sd_observer d \<and>
    ed_verify P key (to_cbor_bytes P (wr_delta (d\<lparr>sd_signature := []\<rparr>)))
      (ed_sign P k (to_cbor_bytes P (wr_delta (d\<lparr>sd_signature := []\<rparr>))))"
proof (cases mode)
  case FlipBitsInRow
  then show ?thesis
    using assms garbage_refused [OF assms(1)]
    by (auto simp: corrupt_def verify_delta_def Let_def split: option.splits if_splits)
qed (use assms in \<open>auto simp: corrupt_def verify_delta_def sign_delta_def Let_def split: option.splits delta_kind.splits if_splits\<close>)

text \<open>
  C39. A corrupted delta that is gossiped changes nothing at a node: in each of the four modes, and
  whatever the delta was, its handler returns without an error and with the node as it was. The one
  exception is a forgery: a delta signed again by an imposter is taken when the imposter's signature
  of it verifies under the key that the node's directory has for the observer of the delta.
\<close>

theorem corrupted_delta_ignored:
  assumes "cbor_ok P" and "ed25519_scalar_ok P" and "wf_delta_kind (sd_kind d)" and "corrupt P mode d imposter = Inr d'"
  defines "m \<equiv> to_cbor_bytes P (wr_delta (d\<lparr>sd_signature := []\<rparr>))"
  shows "dispatch P now coin TopicStateDeltas (delta_encode_cbor P d') n = (Inr (), n) \<or>
    (\<exists>k key. mode = ReSignWithImposterKey \<and> imposter = Some k \<and>
       verifying_key (cn_registry n) (sd_observer d) = Some key \<and> ed_verify P key m (ed_sign P k m))"
proof -
  have dec: "delta_decode_cbor P (delta_encode_cbor P d') = Some d'"
    unfolding delta_decode_cbor_def delta_encode_cbor_def
    by (rule from_to_cbor_bytes [where rd = rd_delta and wr = wr_delta, OF assms(1) rd_wr_delta [OF corrupt_wf [OF assms(4,3)]]])
  show ?thesis
  proof (cases "\<exists>key. verifying_key (cn_registry n) (sd_observer d') = Some key \<and> verify_delta P d' key = Inr ()")
    case True
    then obtain key where key: "verifying_key (cn_registry n) (sd_observer d') = Some key" "verify_delta P d' key = Inr ()" by blast
    from corrupt_refused [OF assms(2,4) key(2)] key(1) show ?thesis by (auto simp: m_def)
  next
    case False
    then show ?thesis by (auto simp: dispatch_def chaos_on_state_delta_def dec split: option.splits)
  qed
qed

section \<open>Rewards\<close>






section \<open>The checks of the scenarios\<close>

text \<open>When all nodes report the same outcome, every minority matches every majority.\<close>

lemma strict_check_implies_lenient:
  assumes "check_outcomes_match P s0 rest hashes" and "\<forall>h \<in> set hashes. has_outcome_for_spec s0 h"
    and "set minority \<subseteq> set (s0 # rest)" and "set majority \<subseteq> set (s0 # rest)"
  shows "minority_matches_majority P minority majority hashes"
proof -
  have "minority_matches_majority P minority majority [h]" if h: "h \<in> set hashes" for h
  proof -
    obtain x where x: "ns_outcomes s0 h = Some x" using assms(2) h by (auto simp: has_outcome_for_spec_def)
    have all: "\<exists>y. ns_outcomes s h = Some y \<and> outcome_content_hash P y = outcome_content_hash P x" if "s \<in> set (s0 # rest)" for s
      using that assms(1) h x by (fastforce simp: check_outcomes_match_def list_all_iff split: option.splits)
    then have "set (outcome_hashes P majority h) \<subseteq> {outcome_content_hash P x}"
      using assms(4) by (fastforce simp: outcome_hashes_def set_map_filter)
    then show ?thesis
      using all assms(3) by (fastforce simp: minority_matches_majority_def list_all_iff Let_def neq_Nil_conv)
  qed
  then show ?thesis by (auto simp: minority_matches_majority_def list_all_iff)
qed

text \<open>
  The strict check fails as soon as two nodes finalised a task on their own, whatever they decided: each
  signed its outcome under its own name. Outcomes are taken to have different hashes when they differ.
\<close>

lemma own_outcomes_fail_strict_check:
  assumes "ns_outcomes s0 h = Some x" and "ns_outcomes s h = Some y" and "jo_observed_by x \<noteq> jo_observed_by y"
    and "outcome_content_hash P x = outcome_content_hash P y \<Longrightarrow> x = y" and "s \<in> set rest" and "h \<in> set hashes"
  shows "\<not> check_outcomes_match P s0 rest hashes"
  using assms by (fastforce simp: check_outcomes_match_def list_all_iff)

section \<open>Instances\<close>


theorem partition_hides_messages_witness:
  "run_steps (run_node_loop demo_prims) ([], spawn_node demo_prims 0 (PeerId [9]) [8] standard_quorum_for_test None)
     [(1, ChSetGroup 1), (2, ChMessage (PeerId [1]) True TopicCaps [3]), (3, ChFinaliseTick)] =
   run_steps (run_node_loop demo_prims) ([], spawn_node demo_prims 0 (PeerId [9]) [8] standard_quorum_for_test None)
     [(1, ChSetGroup 1), (3, ChFinaliseTick)]"
  by (rule partition_hides_messages [OF demo_ok(2,1), where keys = "\<lambda>p. [8]", THEN conjunct1])
    (simp_all add: group_of_def set_group_def DEFAULT_GROUP_def demo_prims_def)

definition demo_chaos_spec :: job_spec where
  "demo_chaos_spec = fst (spec_new_signed_at demo_prims JobInference (inference_prompt ''hi'' 3) SvcInference False 5 (PeerId [9]) [8])"

definition demo_chaos_result :: job_result where
  "demo_chaos_result = fst (result_new_signed_at demo_prims zero_hash (PeerId [1]) 5 demo_meta (build_executor_result demo_prims demo_chaos_spec) [6])"

definition demo_stored :: "u8 \<Rightarrow> verifier_verdict \<Rightarrow> peer_id \<times> stored_verification" where
  "demo_stored p d = (PeerId [p], \<lparr>sv_verification = demo_vote p d, sv_reputation = 100\<rparr>)"

definition demo_crowd :: "(peer_id \<times> stored_verification) list" where
  "demo_crowd = map (\<lambda>p. demo_stored p Agreed) [1, 2, 3, 4, 5] @ [demo_stored 6 (Disagreed (result_content_hash demo_prims demo_chaos_result))]"

theorem malicious_threshold_witness:
  "decision_of (try_finalise demo_prims (quorum_new standard_quorum_for_test zero_hash zero_hash 0\<lparr>q_by_verifier := demo_crowd\<rparr>)
     (10 ^ 9) 1 (PeerId [9]) [8]) = DecAgreed"
proof -
  let ?modes = "\<lambda>p. if p = PeerId [6] then Some AlwaysDisagreed else None"
  have rep: "reproducible demo_prims demo_chaos_spec demo_chaos_result"
    by (simp add: reproducible_def demo_chaos_result_def demo_chaos_spec_def result_new_signed_at_def spec_new_signed_at_def Let_def
        inference_prompt_def)
  have "votes_by_mode demo_prims ?modes demo_chaos_spec demo_chaos_result demo_crowd"
    using honest_agrees [OF rep]
    by (simp add: votes_by_mode_def demo_crowd_def demo_stored_def demo_vote_def verification_new_signed_at_def Let_def)
      (simp add: chaos_verdict_def malicious_verdict_def)
  from malicious_threshold [OF this rep _ refl refl refl, of zero_hash zero_hash 0 "10 ^ 9" 1 "PeerId [9]" "[8]"] show ?thesis
    by (simp add: demo_crowd_def demo_stored_def)
qed

text \<open>A scheme whose signatures end in a zero byte, a delta signed under it, and an imposter that signs it again.\<close>

definition demo_scalar_prims :: prims where
  "demo_scalar_prims = demo_prims\<lparr>ed_sign := (\<lambda>k m. pad 63 (k @ m) @ [0]), ed_verify := (\<lambda>vk m s. s = pad 63 (vk @ m) @ [0])\<rparr>"

definition demo_baseline :: state_delta where
  "demo_baseline = build_baseline_outcome_delta demo_scalar_prims 0 (PeerId [9]) [8] zero_hash zero_hash"

definition demo_hijacked :: state_delta where
  "demo_hijacked = sign_delta demo_scalar_prims (demo_baseline\<lparr>sd_signature := []\<rparr>) [7]"

lemma demo_scalar_ok: "ed25519_ok demo_scalar_prims" "ed25519_scalar_ok demo_scalar_prims" "cbor_ok demo_scalar_prims"
  using demo_ok(3) by (simp_all add: demo_scalar_prims_def ed25519_ok_def ed25519_scalar_ok_def cbor_ok_def demo_prims_def)

lemma demo_public_scalar: "ed_public demo_scalar_prims k = k"
  by (simp add: demo_scalar_prims_def demo_prims_def)

lemma demo_baseline_wf: "wf_delta_kind (sd_kind demo_baseline)"
  by (simp add: demo_baseline_def build_baseline_outcome_delta_def sign_delta_def delta_unsigned_def Let_def wf_outcome_def
      wf_hash_def zero_hash_def)

lemma demo_keys_differ: "pad 63 ([8] @ m) \<noteq> pad 63 ([7] @ m)" "pad 63 ([7] @ m) \<noteq> pad 63 ([8] @ m)"
  by (simp_all add: pad_def numeral_eq_Suc)

theorem corrupted_delta_ignored_witness:
  "let n = spawn_node demo_scalar_prims 0 (PeerId [9]) [8] standard_quorum_for_test None
   in verify_delta demo_scalar_prims demo_baseline [8] = Inr () \<and> demo_hijacked \<noteq> demo_baseline
      \<and> corrupt demo_scalar_prims ReSignWithImposterKey demo_baseline (Some [7]) = Inr demo_hijacked
      \<and> dispatch demo_scalar_prims 1 True TopicStateDeltas (delta_encode_cbor demo_scalar_prims demo_hijacked) n = (Inr (), n)"
proof -
  define n where "n = spawn_node demo_scalar_prims 0 (PeerId [9]) [8] standard_quorum_for_test None"
  have key: "verifying_key (cn_registry n) (sd_observer demo_baseline) = Some [8]"
    by (simp add: n_def spawn_node_def verifying_key_record demo_baseline_def build_baseline_outcome_delta_def sign_delta_def
        delta_unsigned_def Let_def demo_scalar_prims_def demo_prims_def)
  have cor: "corrupt demo_scalar_prims ReSignWithImposterKey demo_baseline (Some [7]) = Inr demo_hijacked"
    by (simp add: corrupt_def demo_hijacked_def)
  have refused: "\<not> ed_verify demo_scalar_prims [8] m (ed_sign demo_scalar_prims [7] m)" for m
    using demo_keys_differ by (simp add: demo_scalar_prims_def)
  have "dispatch demo_scalar_prims 1 True TopicStateDeltas (delta_encode_cbor demo_scalar_prims demo_hijacked) n = (Inr (), n)"
    using corrupted_delta_ignored [OF demo_scalar_ok(3,2) demo_baseline_wf cor, of 1 True n] key refused by auto
  moreover have "verify_delta demo_scalar_prims demo_baseline [8] = Inr ()"
    using sign_delta_verifies [OF demo_scalar_ok(1)]
    by (simp add: demo_baseline_def build_baseline_outcome_delta_def Let_def) (metis demo_public_scalar)
  moreover have "demo_hijacked \<noteq> demo_baseline"
  proof
    assume same: "demo_hijacked = demo_baseline"
    have "sd_signature demo_hijacked = ed_sign demo_scalar_prims [7] (to_cbor_bytes demo_scalar_prims
        (wr_delta (demo_baseline\<lparr>sd_signature := []\<rparr>)))"
      by (simp add: demo_hijacked_def sign_delta_def Let_def)
    with calculation(2) refused show False by (auto simp: same verify_delta_def split: if_splits)
  qed
  ultimately show ?thesis using cor by (simp add: Let_def n_def)
qed





end
