(* ===== verification/Spec2Isabelle.thy ===== *)
theory Spec2Isabelle
  imports Task_Properties Quorum_Properties Store_Properties Registry_Properties Election Node_Invariant Sync_Properties Workflow_Properties Tunnel_Properties Agent_Properties Reality_Properties Cli_Properties Llm_Properties Orders Wallet Testnet_Properties Chaos_Properties
begin

text \<open>
  PARSEH is a peer-to-peer coordination plane: nodes advertise what they can do, a submitter gossips a
  signed job, one node executes it, others re-execute and attest, a quorum decides, and the decision,
  the reputation it earns and the history behind it are kept in every node's store. This development
  models the Rust workspace under \<open>server/\<close> and proves what its parts promise, alone and composed.

  \<^bold>\<open>Conventions.\<close> A struct is a record, an enum a datatype, an integer a word of its width (signed and
  SQLite integers are \<open>int\<close> with the range written out), a \<open>HashMap\<close> an association list in insertion
  order, a \<open>Result\<close> a sum with the error on the left. A computation that can panic returns an option, and
  \<open>None\<close> is the panic. A handler takes the state and returns the new state with the messages it sends. The
  clock is an argument. All recursion is total, by the structure of the data or by a measure; there is
  no fuel. Code of other packages is a parameter: ed25519, SHA-256 and the CBOR byte level (\<open>prims\<close>, with
  the laws \<open>ed25519_ok\<close>, \<open>sha256_ok\<close>, \<open>cbor_ok\<close>), the LRU cache (\<open>lru_ops\<close>, \<open>lru_ok\<close>), the hexadecimal
  codec (\<open>hex_ok\<close>), the JSON parser and schema engine (\<open>json_env\<close>), the executor and the model backend.
  \<open>Demo_Prims\<close> and \<open>list_lru\<close> are concrete instances that obey the laws; every property with a hypothesis
  is applied to a concrete input in its witness. Of SHA-256 only the output length is a law: a binding
  property says that its violation is a given collision or a given forgery, and the two properties of
  state sync that need it say of which outcomes the content hashes have to differ. The adversarial
  network also uses that Ed25519 refuses unreduced scalars (\<open>ed25519_scalar_ok\<close>).

  \<^bold>\<open>Foundations.\<close> \<open>Prelude\<close>: machine integers, saturating arithmetic, results, list facts, and the locales
  \<open>typed_transition_system\<close>, \<open>transition_system\<close> and \<open>guarded_transition_system\<close>, in which an invariant of
  one step is lifted to every history. \<open>F64\<close>: IEEE doubles with round-half-even, with the locale
  \<open>monotone_rounding\<close>. \<open>Rust_Str\<close>: UTF-8, trimming, splitting, number parsing and address text of the
  standard library. \<open>Json\<close>: \<open>serde_json\<close> values.

  \<^bold>\<open>Signed messages\<close> (\<open>parseh-task\<close>). \<open>Wire\<close>: CBOR values, content hashes, signing and verification, and the
  locales \<open>signed_envelope\<close> and \<open>versioned_envelope\<close>: what a codec with a signature field promises. \<open>Task\<close>,
  \<open>Outcome\<close> and \<open>Delta\<close> interpret them for the seven signed types; \<open>Task_Properties\<close> has sign-then-verify,
  the wire round trip and tampering as forgery.

  \<^bold>\<open>Verification\<close> (\<open>parseh-verify\<close>). \<open>Rate_Limit\<close>: the sliding window and its exact floating-point cap.
  \<open>Verifier\<close>: self-selection, methods and the attestation pipeline. \<open>Quorum\<close>, \<open>Quorum_Properties\<close>: the M-of-N
  aggregator, refined by a decision rule over natural numbers, backed by distinct signed votes, closing
  in its window, and the same at all observers up to who signs, whatever the order of arrival.

  \<^bold>\<open>Shared state\<close> (\<open>parseh-shared-state\<close>). \<open>Store\<close>, \<open>Store_Invariant\<close>, \<open>Store_Properties\<close>: the six tables with
  their constraints, every recording operation and query; keys stay unique, references resolve,
  recording is idempotent, reputation is the sum of the log.

  \<^bold>\<open>Node\<close> (\<open>core\<close>, \<open>miner\<close>). \<open>Registry\<close>, \<open>Registry_Properties\<close>: advertisements, the key directory (locale
  \<open>key_directory\<close>), matchmaking. \<open>Buffer\<close>: messages of unknown publishers. \<open>Trackers\<close>: readiness with its
  two locks, rate buckets, isolation. \<open>Miner\<close> and \<open>Node\<close>: the handlers, ticks, state sync and event loop,
  composed from the components above. \<open>Election\<close>: who executes. \<open>Sync_Properties\<close>: what a responder
  discloses, what a requester persists, convergence. \<open>Node_Store\<close>: every event changes the store only by
  authorised store operations, rewards only for what a tick finalises, so that \<open>Node_Invariant\<close> joins
  the invariants of all components over every history of the node; the exact effect of a tick.

  \<^bold>\<open>Agents\<close> (\<open>parseh-agent-spec\<close>, \<open>parseh-agent-runtime\<close>). \<open>Agent_Spec\<close>: schemas, references, lineage and the
  signed definition. \<open>Agent_Runtime\<close>: rendering, knowledge, backend, executor. \<open>Workflow\<close>,
  \<open>Workflow_Properties\<close>: validation, Kahn's sort, mappings and the run. \<open>Agent_Properties\<close>: identity of a
  definition, rendering without panics, soundness of a run from the verified knowledge to the signature, and its reproducibility.

  \<^bold>\<open>Tunnel and relay\<close> (\<open>parseh-tunnel\<close>, \<open>relay\<close>). \<open>Socket\<close>: byte streams with reads, writes and their errors.
  \<open>Net_Addr\<close>: parsing and printing of IP and socket addresses as in the standard library. \<open>Tunnel\<close>,
  \<open>Tunnel_Properties\<close>: control messages, exit ranking, the SOCKS5 server and one session. \<open>Reality\<close>,
  \<open>Reality_Properties\<close>: the REALITY transport with its configuration, the generated xray file, the life of the
  subprocess and of its configuration file, and the SOCKS5 client, whose requests the server of the
  tunnel reads.

  \<^bold>\<open>Files and tools\<close> (\<open>parseh-shared-state\<close>, \<open>miner\<close>, \<open>parseh-cli\<close>, \<open>llm-detect\<close>, \<open>llm-downloader\<close>, \<open>wallet\<close>).
  \<open>Store_Open\<close>: key sources, the key statement, migrations and the errors of opening a database. \<open>Node_Files\<close>: the
  identity file, the default configuration and \<open>init\<close>. \<open>Cli\<close>, \<open>Cli_Properties\<close>: paths, status, whoami, peers, submit
  and tail, on the store the miner wrote. \<open>Llm\<close>, \<open>Llm_Properties\<close>: probes, recommendation, consent and the
  streaming download. \<open>Orders\<close>: the V0.1 orders and executors. \<open>Wallet\<close>: signatures and addresses. The world outside is an
  argument: the file system (\<open>machine\<close>, \<open>disk\<close>), what the operating system answers (\<open>os\<close>), HTTP responses,
  directory walks, the output of programs, Argon2id, SQLCipher's readability of a file and the bech32
  codec. Writing and removing a file can fail for the xray configuration and is taken to succeed elsewhere.

  \<^bold>\<open>In-process networks\<close> (\<open>parseh-testnet\<close>, \<open>parseh-chaos\<close>). \<open>Harness\<close>: what the two node loops share, as a record
  that both extend; \<open>Harness_Invariant\<close>: its invariant, kept by every shared method. \<open>Testnet\<close>,
  \<open>Testnet_Properties\<close>: the acceptance network, with the run of three nodes from a submitted spec to the same decision
  and reward at all of them, whatever the primitives are. \<open>Chaos\<close>, \<open>Chaos_Properties\<close>: the adversarial network
  with partitions, misbehaving verifiers and corrupted deltas: what gossip a partition hides, how many misbehaving
  verifiers a quorum withstands, that corruption short of forgery is ignored, what an outcome does to reputations. The
  partition table is one shared store, since every node holds the table's own cell of its group.

  \<^bold>\<open>Not modelled.\<close> The construction of libp2p swarms, transports and timers: the events they deliver are the
  inputs of the loops. Argument parsing, logging, terminal output and TOML reading: calls into other packages
  around the operations that are modelled. The proxy, the update check and the readiness report of
  the miner, and the main loop of the relay: process supervision and HTTP around the same. The inference
  runtime: tensors and model files behind the executor that is a parameter here. The integration-test mesh: a third
  copy of the node loop. Waiting, mesh formation and report texts of the scenarios, and the generator of fuzz
  seeds. The SDK, desktop client and service installers: bindings and stubs.
\<close>

end
